(* ===== verification/Prelude.thy ===== *)
theory Prelude
  imports Complex_Main "HOL-Library.Word" "HOL-Library.Log_Nat" "HOL-Library.Signed_Division"
begin

text \<open>
  What every component shares and no Go file declares: the collections of rewrite rules the
  component proofs are carried by, and generic facts on lists, options, maps and pairs.
\<close>

named_theorems go_runtime \<open>unfolding rules of the modelled part of the Go runtime\<close>
named_theorems store_defs \<open>definitions of the store operations\<close>
named_theorems provider_defs \<open>definitions of the two tool-gating providers\<close>
named_theorems http_defs \<open>definitions of HTTP handlers and response writers\<close>

subsection \<open>Lists\<close>

lemma concat_map_inj_fixed:
  assumes len: "\<And>x. length (f x) = n" and "0 < n" and inj: "inj f"
    and eq: "concat (map f xs) = concat (map f ys)"
  shows "xs = ys"
  using eq
proof (induction xs arbitrary: ys)
  case Nil
  show ?case
  proof (cases ys)
    case Nil
    then show ?thesis by simp
  next
    case (Cons z zs)
    with Nil.prems have "length (f z) = 0" by simp
    with len [of z] \<open>0 < n\<close> show ?thesis by simp
  qed
next
  case (Cons x xs)
  show ?case
  proof (cases ys)
    case Nil
    with Cons.prems have "length (f x) = 0" by simp
    with len [of x] \<open>0 < n\<close> show ?thesis by simp
  next
    case (Cons z zs)
    with Cons.prems have "f x @ concat (map f xs) = f z @ concat (map f zs)" by simp
    then have "f x = f z" and "concat (map f xs) = concat (map f zs)"
      using len [of x] len [of z] by (auto simp: append_eq_append_conv)
    with Cons.IH Cons inj show ?thesis by (auto dest: injD)
  qed
qed

lemma length_concat_map_fixed:
  "(\<And>x. length (f x) = n) \<Longrightarrow> length (concat (map f xs)) = n * length xs"
  by (induction xs) auto

lemma append_suffix_eq:
  "length u = length v \<Longrightarrow> (xs @ u = ys @ v) = (xs = ys \<and> u = v)"
  by (metis append_eq_append_conv)

lemma set_concat_map_subset:
  "(\<And>x. set (f x) \<subseteq> A) \<Longrightarrow> set (concat (map f xs)) \<subseteq> A"
  by auto

subsection \<open>Pairs, options and maps\<close>

lemma case_prod_eta [simp]: "(case p of (a, b) \<Rightarrow> (a, b)) = p"
  by (cases p) simp

lemma map_upd_delete_other: "k \<noteq> k' \<Longrightarrow> (m(k' := x)) k = m k"
  by simp

end
