(* ===== verification/Go_Runtime.thy ===== *)
theory Go_Runtime
  imports Prelude
begin

text \<open>
  The part of the Go language and its standard library that the packages of mcp-authkit-go
  compute with: 64-bit integers, IEEE 754 double precision numbers, durations and times,
  dynamic values (\<^verbatim>\<open>any\<close>), errors and their wrapping, string helpers, hexadecimal
  and query encoding, HTML escaping, and the host a goroutine runs on.

  A Go string is a byte sequence, so it is a \<^typ>\<open>string\<close> (a list of 8-bit characters).
  A nil-able \<^verbatim>\<open>map[string]any\<close> is a \<open>gomap option\<close>, with \<open>None\<close> for nil.
\<close>

subsection \<open>Integers and floating point\<close>

type_synonym int64 = "64 word"

text \<open>
  A \<^verbatim>\<open>float64\<close> is a rational (the sign of zero is never observed by this code), an
  infinity or NaN. Every arithmetic result is rounded to the nearest representable value,
  ties to even, as IEEE 754 prescribes.
\<close>

datatype float64 = Fin rat | PosInf | NegInf | NaN

definition round_half_even :: "rat \<Rightarrow> int" where
  "round_half_even x =
     (let f = \<lfloor>x\<rfloor>; d = x - of_int f
      in if d < 1 / 2 then f else if 1 / 2 < d then f + 1 else if even f then f else f + 1)"

text \<open>The binary exponent of a positive rational: the greatest \<open>e\<close> with \<open>2 powi e \<le> x\<close>.\<close>

definition ilog2 :: "rat \<Rightarrow> int" where
  "ilog2 x =
     (let (n, d) = quotient_of x; k = bitlen n - bitlen d
      in if 2 powi k \<le> x then k else k - 1)"

definition f64_round :: "rat \<Rightarrow> float64" where
  "f64_round x =
     (if x = 0 then Fin 0
      else let u = 2 powi (max (ilog2 \<bar>x\<bar> - 52) (-1074));
               r = of_int (round_half_even (x / u)) * u
           in if 2 ^ 1024 \<le> r then PosInf else if r \<le> - (2 ^ 1024) then NegInf else Fin r)"

definition f64_of_int :: "int \<Rightarrow> float64" where
  "f64_of_int n = f64_round (of_int n)"

fun f64_add :: "float64 \<Rightarrow> float64 \<Rightarrow> float64" where
  "f64_add (Fin a) (Fin b) = f64_round (a + b)"
| "f64_add NaN _ = NaN"
| "f64_add _ NaN = NaN"
| "f64_add PosInf NegInf = NaN"
| "f64_add NegInf PosInf = NaN"
| "f64_add PosInf _ = PosInf"
| "f64_add _ PosInf = PosInf"
| "f64_add NegInf _ = NegInf"
| "f64_add _ NegInf = NegInf"

text \<open>Multiplication and division by a positive finite constant, the only uses in the code.\<close>

fun f64_scale :: "float64 \<Rightarrow> rat \<Rightarrow> float64" where
  "f64_scale (Fin a) c = f64_round (a * c)"
| "f64_scale x c = x"

text \<open>The order of floating point numbers: every comparison with NaN is false.\<close>

fun f64_less :: "float64 \<Rightarrow> float64 \<Rightarrow> bool" where
  "f64_less (Fin a) (Fin b) = (a < b)"
| "f64_less NaN _ = False"
| "f64_less _ NaN = False"
| "f64_less PosInf _ = False"
| "f64_less _ PosInf = True"
| "f64_less _ NegInf = False"
| "f64_less NegInf _ = True"

definition rat_trunc :: "rat \<Rightarrow> int" where
  "rat_trunc r = (if 0 \<le> r then \<lfloor>r\<rfloor> else \<lceil>r\<rceil>)"

text \<open>
  Conversion of a float to a 64-bit integer truncates towards zero. Outside the range of the
  type the Go specification leaves the value to the implementation: it is the first argument.
\<close>

definition f64_to_int64 :: "(float64 \<Rightarrow> int64) \<Rightarrow> float64 \<Rightarrow> int64" where
  "f64_to_int64 oob x =
     (case x of
        Fin r \<Rightarrow> (let t = rat_trunc r
                 in if - (2 ^ 63) \<le> t \<and> t < 2 ^ 63 then word_of_int t else oob x)
      | _ \<Rightarrow> oob x)"

subsection \<open>Durations and times\<close>

text \<open>
  A \<^verbatim>\<open>time.Duration\<close> is an int64 count of nanoseconds (products wrap around), a
  \<^verbatim>\<open>time.Time\<close> an integer count of nanoseconds since the Unix epoch.
\<close>

type_synonym duration = int64
type_synonym go_time = int

definition Second :: duration where
  "Second = 1000000000"

definition Millisecond :: duration where
  "Millisecond = 1000000"

definition time_Add :: "go_time \<Rightarrow> duration \<Rightarrow> go_time" where
  "time_Add t d = t + sint d"

definition time_After :: "go_time \<Rightarrow> go_time \<Rightarrow> bool" where
  "time_After t u \<longleftrightarrow> u < t"

definition time_Unix :: "go_time \<Rightarrow> int64" where
  "time_Unix t = word_of_int (t div 1000000000)"

text \<open>\<^verbatim>\<open>Duration.Seconds\<close>: whole seconds plus the fraction, each as a float64.\<close>

definition duration_Seconds :: "duration \<Rightarrow> float64" where
  "duration_Seconds d =
     f64_add (f64_of_int (sint d sdiv 1000000000))
             (f64_scale (f64_of_int (sint d smod 1000000000)) (1 / 1000000000))"

subsection \<open>Dynamic values\<close>

text \<open>
  The dynamic types the code stores in, or tests for in, a \<^verbatim>\<open>map[string]any\<close>;
  \<open>AOther\<close> stands for a value of any other dynamic type, by name.
\<close>

datatype go_any =
    ANil
  | ABool bool
  | AStr string
  | AFloat float64
  | AInt int64
  | AInt64 int64
  | AStrings "string list"
  | ASlice "go_any list"
  | AMap "string \<Rightarrow> go_any option"
  | AOther string

type_synonym gomap = "string \<Rightarrow> go_any option"

text \<open>Reading a missing key, or any key of a nil map, gives the zero value of the element type.\<close>

definition gomap_get :: "gomap option \<Rightarrow> string \<Rightarrow> go_any" where
  "gomap_get m k =
     (case m of None \<Rightarrow> ANil | Some f \<Rightarrow> (case f k of None \<Rightarrow> ANil | Some v \<Rightarrow> v))"

text \<open>The comma-ok type assertions \<^verbatim>\<open>x, _ := v.(string)\<close> and \<^verbatim>\<open>x, ok := v.(float64)\<close>.\<close>

definition any_string :: "go_any \<Rightarrow> string" where
  "any_string v = (case v of AStr s \<Rightarrow> s | _ \<Rightarrow> [])"

definition any_float :: "go_any \<Rightarrow> float64 option" where
  "any_float v = (case v of AFloat x \<Rightarrow> Some x | _ \<Rightarrow> None)"

subsection \<open>Errors\<close>

text \<open>
  The parameters of an MCP elicitation request, the fields this code fills in.
\<close>

record elicit_params =
  Mode :: string
  Message :: string
  URL :: string
  ElicitationID :: string

text \<open>
  An error value keeps its format string and arguments unrendered: no code inspects the text.
  \<open>Errorw\<close> is \<^verbatim>\<open>fmt.Errorf\<close> with a wrapped error, which \<^verbatim>\<open>errors.Is\<close> looks
  through. \<open>ErrNew\<close> is a package-level sentinel; the next constructors are the sentinels
  of the libraries the code tests for, \<open>ErrExt\<close> any other error of a library, and
  \<open>URLElicitationRequired\<close> the structured retry-later error of the MCP library.
\<close>

datatype fmt_arg = ArgS string | ArgD int

datatype go_error =
    Errorf string "fmt_arg list"
  | Errorw string "fmt_arg list" go_error
  | ErrNew string
  | ErrNotExist
  | ErrRedisNil
  | ErrTokenExpired
  | ErrContext string
  | ErrExt string
  | URLElicitationRequired "elicit_params list"

fun errors_Is :: "go_error \<Rightarrow> go_error \<Rightarrow> bool" where
  "errors_Is (Errorw s as e) t = (Errorw s as e = t \<or> errors_Is e t)"
| "errors_Is e t = (e = t)"

subsection \<open>Strings\<close>

definition strings_HasPrefix :: "string \<Rightarrow> string \<Rightarrow> bool" where
  "strings_HasPrefix s p \<longleftrightarrow> take (length p) s = p"

definition strings_TrimPrefix :: "string \<Rightarrow> string \<Rightarrow> string" where
  "strings_TrimPrefix s p = (if strings_HasPrefix s p then drop (length p) s else s)"

text \<open>The UTF-8 encodings of the code points with Unicode's White_Space property.\<close>

definition white_space :: "string list" where
  "white_space =
     map (map char_of)
      ([[9], [10], [11], [12], [13], [32], [0xC2, 0x85], [0xC2, 0xA0], [0xE1, 0x9A, 0x80],
        [0xE2, 0x80, 0xA8], [0xE2, 0x80, 0xA9], [0xE2, 0x80, 0xAF], [0xE2, 0x81, 0x9F],
        [0xE3, 0x80, 0x80]] @ map (\<lambda>i. [0xE2, 0x80, 0x80 + i]) [0..<11 :: nat])"

text \<open>
  \<^verbatim>\<open>strings.TrimSpace\<close>: no encoding above is a proper part of another rune's encoding
  (each starts with an ASCII or a lead byte), so trimming runes is stripping these prefixes
  and, on the reversed string, their reversals.
\<close>

fun strip_any :: "nat \<Rightarrow> string list \<Rightarrow> string \<Rightarrow> string" where
  "strip_any 0 ps s = s"
| "strip_any (Suc n) ps s =
     (case find (strings_HasPrefix s) ps of
        None \<Rightarrow> s
      | Some p \<Rightarrow> strip_any n ps (drop (length p) s))"

definition strings_TrimSpace :: "string \<Rightarrow> string" where
  "strings_TrimSpace s =
     (let l = strip_any (length s) white_space s
      in rev (strip_any (length l) (map rev white_space) (rev l)))"

definition hex_digit :: "nat \<Rightarrow> char" where
  "hex_digit n = ''0123456789abcdef'' ! n"

definition hex_byte :: "char \<Rightarrow> string" where
  "hex_byte c = [hex_digit (of_char c div 16), hex_digit (of_char c mod 16)]"

definition hex_EncodeToString :: "string \<Rightarrow> string" where
  "hex_EncodeToString bs = concat (map hex_byte bs)"

definition html_escape_char :: "char \<Rightarrow> string" where
  "html_escape_char c =
     (if c = CHR ''&'' then ''&amp;''
      else if c = CHR 0x27 then ''&#39;''
      else if c = CHR ''<'' then ''&lt;''
      else if c = CHR ''>'' then ''&gt;''
      else if c = CHR 0x22 then ''&#34;''
      else [c])"

definition html_EscapeString :: "string \<Rightarrow> string" where
  "html_EscapeString s = concat (map html_escape_char s)"

subsection \<open>The host\<close>

text \<open>
  What a goroutine reads from outside the program: successive readings of the clock, the bytes
  of successive random reads, whether an input/output call fails, and what the platform makes of
  an out-of-range float conversion. Each read consumes one \<open>tick\<close>, so two calls of
  \<^verbatim>\<open>time.Now\<close> may differ. Backends extend the record with the state they keep.
\<close>

record host =
  clock :: "nat \<Rightarrow> go_time"
  entropy :: "nat \<Rightarrow> nat \<Rightarrow> char"
  faults :: "nat \<Rightarrow> go_error option"
  f2i_oob :: "float64 \<Rightarrow> int64"
  tick :: nat

definition time_Now :: "'a host_scheme \<Rightarrow> go_time \<times> 'a host_scheme" where
  "time_Now w = (clock w (tick w), w\<lparr>tick := Suc (tick w)\<rparr>)"

definition rand_Read :: "nat \<Rightarrow> 'a host_scheme \<Rightarrow> string \<times> 'a host_scheme" where
  "rand_Read n w = (map (entropy w (tick w)) [0..<n], w\<lparr>tick := Suc (tick w)\<rparr>)"

definition io_call :: "'a host_scheme \<Rightarrow> go_error option \<times> 'a host_scheme" where
  "io_call w = (faults w (tick w), w\<lparr>tick := Suc (tick w)\<rparr>)"

lemmas [go_runtime] = time_Now_def rand_Read_def io_call_def

subsection \<open>Exactness of integer values in floating point\<close>

lemma powi_int_nonneg: "0 \<le> k \<Longrightarrow> \<exists>m::int. (2::rat) powi k = of_int m"
  by (rule exI [of _ "2 ^ nat k"]) (simp add: power_int_def)

lemma bitlen_bounds_rat:
  assumes "0 < n"
  shows "(2::rat) powi (bitlen n - 1) \<le> of_int n" and "of_int n < (2::rat) powi (bitlen n)"
proof -
  have b: "2 ^ nat (bitlen n - 1) \<le> n \<and> n < 2 ^ nat (bitlen n)"
    using bitlen_bounds [of n] assms by blast
  have p: "0 < bitlen n"
    using assms by (simp add: bitlen_eq_zero_iff bitlen_nonneg order.strict_iff_order)
  have "(of_int (2 ^ nat (bitlen n - 1)) :: rat) \<le> of_int n"
    using b by (simp only: of_int_le_iff)
  then show "(2::rat) powi (bitlen n - 1) \<le> of_int n"
    using p by (simp add: power_int_def)
  have "(of_int n :: rat) < of_int (2 ^ nat (bitlen n))"
    using b by (simp only: of_int_less_iff)
  then show "of_int n < (2::rat) powi (bitlen n)"
    using p by (simp add: power_int_def)
qed

lemma ilog2_bounds:
  assumes "0 < x"
  shows "2 powi (ilog2 x) \<le> x" and "x < 2 powi (ilog2 x + 1)"
proof -
  obtain n d where q: "quotient_of x = (n, d)" by (cases "quotient_of x")
  then have x: "x = of_int n / of_int d" and d: "0 < d"
    by (auto simp: quotient_of_div quotient_of_denom_pos)
  with assms have n: "0 < n" by (simp add: zero_less_divide_iff)
  let ?k = "bitlen n - bitlen d"
  have lo: "2 powi (?k - 1) \<le> x"
  proof -
    have "2 powi (?k - 1) * of_int d \<le> 2 powi (?k - 1) * (2::rat) powi (bitlen d)"
      using bitlen_bounds_rat(2) [OF d] by (intro mult_left_mono) auto
    also have "\<dots> = 2 powi (bitlen n - 1)"
      by (simp flip: power_int_add)
    also have "\<dots> \<le> of_int n" by (rule bitlen_bounds_rat(1) [OF n])
    finally show ?thesis using d by (simp add: x pos_le_divide_eq)
  qed
  have hi: "x < 2 powi (?k + 1)"
  proof -
    have "of_int n < (2::rat) powi (bitlen n)" by (rule bitlen_bounds_rat(2) [OF n])
    also have "\<dots> = 2 powi (?k + 1) * 2 powi (bitlen d - 1)"
      by (simp flip: power_int_add)
    also have "\<dots> \<le> 2 powi (?k + 1) * of_int d"
      using bitlen_bounds_rat(1) [OF d] by (intro mult_left_mono) auto
    finally show ?thesis using d by (simp add: x pos_divide_less_eq)
  qed
  show "2 powi (ilog2 x) \<le> x" and "x < 2 powi (ilog2 x + 1)"
    using lo hi by (auto simp: ilog2_def q Let_def)
qed

lemma round_half_even_of_int [simp]: "round_half_even (of_int n) = n"
  by (simp add: round_half_even_def)

lemma f64_of_int_exact:
  assumes "\<bar>n\<bar> < 2 ^ 53"
  shows "f64_of_int n = Fin (of_int n)"
proof (cases "n = 0")
  case True
  then show ?thesis by (simp add: f64_of_int_def f64_round_def)
next
  case False
  let ?x = "of_int n :: rat"
  let ?e = "max (ilog2 \<bar>?x\<bar> - 52) (-1074)"
  have "(2::rat) powi (ilog2 \<bar>?x\<bar>) \<le> of_int \<bar>n\<bar>"
    using ilog2_bounds(1) [of "\<bar>?x\<bar>"] False by simp
  also have "(of_int \<bar>n\<bar> :: rat) < of_int (2 ^ 53)"
    using assms by (simp only: of_int_less_iff)
  also have "\<dots> = 2 powi 53" by simp
  finally have "ilog2 \<bar>?x\<bar> < 53"
    using power_int_increasing [of 53 "ilog2 \<bar>?x\<bar>" "2 :: rat"] by (meson not_less numeral_le_one_iff
        one_le_numeral order.strict_trans2)
  then have "0 \<le> - ?e" by simp
  then obtain m :: int where m: "(2::rat) powi (- ?e) = of_int m"
    using powi_int_nonneg by blast
  have u: "?x / 2 powi ?e = of_int (n * m)"
    using m by (simp add: power_int_minus field_simps)
  have r: "of_int (round_half_even (?x / 2 powi ?e)) * 2 powi ?e = ?x"
    unfolding u round_half_even_of_int unfolding u [symmetric] by simp
  have lt: "?x < 2 ^ 1024" "- (2 ^ 1024) < ?x"
  proof -
    have "\<bar>n\<bar> < 2 ^ 1024" using assms by (rule order.strict_trans) simp
    then have "(of_int \<bar>n\<bar> :: rat) < of_int (2 ^ 1024)" by (simp only: of_int_less_iff)
    then show "?x < 2 ^ 1024" "- (2 ^ 1024) < ?x" by (simp_all add: abs_less_iff)
  qed
  show ?thesis
    unfolding f64_of_int_def f64_round_def Let_def r
    using False lt by simp
qed

lemma f64_add_int_exact:
  "\<bar>a + b\<bar> < 2 ^ 53 \<Longrightarrow> f64_add (Fin (of_int a)) (Fin (of_int b)) = Fin (of_int (a + b))"
  using f64_of_int_exact [of "a + b"] by (simp add: f64_of_int_def)

lemma f64_scale_int_exact:
  "\<bar>a * c\<bar> < 2 ^ 53 \<Longrightarrow> f64_scale (Fin (of_int a)) (of_int c) = Fin (of_int (a * c))"
  using f64_of_int_exact [of "a * c"] by (simp add: f64_of_int_def)

lemma f64_to_int64_exact:
  "- (2 ^ 63) \<le> n \<Longrightarrow> n < 2 ^ 63 \<Longrightarrow> f64_to_int64 oob (Fin (of_int n)) = word_of_int n"
  by (simp add: f64_to_int64_def rat_trunc_def)

lemma sint_word_of_int64:
  "- (2 ^ 63) \<le> n \<Longrightarrow> n < 2 ^ 63 \<Longrightarrow> sint (word_of_int n :: int64) = n"
  by (simp add: sint_sbintrunc' signed_take_bit_int_eq_self)

lemma sint_seconds:
  assumes "\<bar>s\<bar> \<le> 9223372036"
  shows "sint (word_of_int s * Second :: duration) = s * 1000000000"
proof -
  have "word_of_int s * Second = (word_of_int (s * 1000000000) :: duration)"
    by (simp add: Second_def)
  moreover have "sint (word_of_int (s * 1000000000) :: duration) = s * 1000000000"
    by (rule sint_word_of_int64) (use assms in auto)
  ultimately show ?thesis by (simp only:)
qed

lemma duration_Seconds_whole:
  assumes "\<bar>s\<bar> \<le> 9223372036"
  shows "duration_Seconds (word_of_int s * Second) = Fin (of_int s)"
proof -
  have "sint (word_of_int s * Second :: duration) = s * 1000000000" by (rule sint_seconds [OF assms])
  moreover have "s * 1000000000 sdiv 1000000000 = s" "s * 1000000000 smod 1000000000 = 0"
    by (simp_all add: signed_divide_int_def signed_modulo_int_def sgn_mult abs_mult mult_sgn_abs)
  moreover have "f64_of_int s = Fin (of_int s)" "f64_of_int 0 = Fin 0"
    using f64_of_int_exact [of s] f64_of_int_exact [of 0] assms by simp_all
  moreover have "f64_round 0 = Fin 0" by (simp add: f64_round_def)
  ultimately show ?thesis
    using f64_add_int_exact [of s 0] assms
    by (simp add: duration_Seconds_def)
qed

lemma time_Unix_sint:
  "0 \<le> t \<Longrightarrow> t < 2 ^ 63 \<Longrightarrow> sint (time_Unix t) = t div 1000000000"
  unfolding time_Unix_def by (rule sint_word_of_int64) (simp_all add: div_le_dividend order.strict_trans1)

subsection \<open>Errors and strings\<close>

lemma errors_Is_refl [simp]: "errors_Is e e"
  by (cases e) auto

lemma errors_Is_wrap [simp]: "errors_Is e t \<Longrightarrow> errors_Is (Errorw s as e) t"
  by simp

lemma strings_HasPrefix_append [simp]: "strings_HasPrefix (p @ s) p"
  by (simp add: strings_HasPrefix_def)

lemma strings_TrimPrefix_append [simp]: "strings_TrimPrefix (p @ s) p = s"
  by (simp add: strings_TrimPrefix_def)

lemma strings_HasPrefix_iff: "strings_HasPrefix s p \<longleftrightarrow> (\<exists>t. s = p @ t)"
  unfolding strings_HasPrefix_def by (metis append_eq_conv_conj append_take_drop_id)

lemma hex_digit_inj: "m < 16 \<Longrightarrow> n < 16 \<Longrightarrow> hex_digit m = hex_digit n \<Longrightarrow> m = n"
  unfolding hex_digit_def
  by (rule nth_eq_iff_index_eq [THEN iffD1, rotated -1, of "''0123456789abcdef''"]) simp_all

lemma hex_byte_inj: "inj hex_byte"
proof (rule injI)
  fix c d :: char
  assume "hex_byte c = hex_byte d"
  then have "of_char c div 16 = (of_char d div 16 :: nat)" "of_char c mod 16 = (of_char d mod 16 :: nat)"
    by (auto simp: hex_byte_def intro!: hex_digit_inj less_mult_imp_div_less)
  then have "of_char c = (of_char d :: nat)" by (metis div_mult_mod_eq)
  then show "c = d" by simp
qed

lemma length_hex_byte [simp]: "length (hex_byte c) = 2"
  by (simp add: hex_byte_def)

lemma length_hex [simp]: "length (hex_EncodeToString bs) = 2 * length bs"
  unfolding hex_EncodeToString_def by (rule length_concat_map_fixed) simp

lemma hex_EncodeToString_inj: "hex_EncodeToString a = hex_EncodeToString b \<Longrightarrow> a = b"
  unfolding hex_EncodeToString_def
  by (rule concat_map_inj_fixed [OF length_hex_byte _ hex_byte_inj]) simp_all

lemma set_hex: "set (hex_EncodeToString bs) \<subseteq> set ''0123456789abcdef''"
proof -
  have "set (hex_byte c) \<subseteq> set ''0123456789abcdef''" for c
  proof -
    have "hex_digit n \<in> set ''0123456789abcdef''" if "n < 16" for n
      unfolding hex_digit_def by (rule nth_mem) (use that in simp)
    then show ?thesis
      unfolding hex_byte_def by (simp only: set_simps insert_subset empty_subsetI simp_thms)
        (simp add: less_mult_imp_div_less del: set_simps)
  qed
  then show ?thesis unfolding hex_EncodeToString_def by (rule set_concat_map_subset)
qed

lemma hex_digit_printable:
  assumes "n < 16"
  shows "32 \<le> (of_char (hex_digit n) :: nat)" and "(of_char (hex_digit n) :: nat) < 127"
proof -
  have "hex_digit n \<in> set ''0123456789abcdef''"
    unfolding hex_digit_def using assms by (intro nth_mem) simp
  then show "32 \<le> (of_char (hex_digit n) :: nat)" and "(of_char (hex_digit n) :: nat) < 127"
    by auto
qed

lemma html_EscapeString_safe:
  "set (html_EscapeString s) \<inter> {CHR ''<'', CHR ''>'', CHR 0x22, CHR 0x27} = {}"
  by (auto simp: html_EscapeString_def html_escape_char_def split: if_splits)

lemma html_EscapeString_plain:
  "set s \<inter> {CHR ''<'', CHR ''>'', CHR 0x22, CHR 0x27, CHR ''&''} = {} \<Longrightarrow> html_EscapeString s = s"
  by (induction s) (auto simp: html_EscapeString_def html_escape_char_def)

end
