(* ===== verification/Store.thy ===== *)
theory Store
  imports Go_Runtime
begin

text \<open>
  The persistence interfaces of \<^verbatim>\<open>store/store.go\<close>. A Go interface value is a record of
  its methods, each a function on the world \<open>'w\<close> the caller runs in, so the providers call a
  store exactly the way the source does, through the interface. \<open>Get\<close>, \<open>Pop\<close> and
  \<open>WaitForResult\<close> return the source's pair \<open>(map, error)\<close> as a sum: \<open>Inl\<close> the error,
  \<open>Inr None\<close> the pair of two nils. A method that may block returns an option, where \<open>None\<close>
  means that it never returns.

  The two locales state what the interfaces promise, in terms of an abstraction: the content of
  the token store is a map, that of the pending store a map to entries with an expiry. They are
  interpreted for each backend in the theory that models it.
\<close>

record 'w token_store =
  ts_Get :: "string \<Rightarrow> 'w \<Rightarrow> (go_error + gomap option) \<times> 'w"
  ts_Set :: "string \<Rightarrow> gomap option \<Rightarrow> 'w \<Rightarrow> go_error option \<times> 'w"
  ts_Delete :: "string \<Rightarrow> 'w \<Rightarrow> go_error option \<times> 'w"

record 'w pending_store =
  ps_Create :: "string \<Rightarrow> gomap option \<Rightarrow> int64 \<Rightarrow> 'w \<Rightarrow> go_error option \<times> 'w"
  ps_Get :: "string \<Rightarrow> 'w \<Rightarrow> (go_error + gomap option) \<times> 'w"
  ps_Pop :: "string \<Rightarrow> 'w \<Rightarrow> (go_error + gomap option) \<times> 'w"
  ps_SetResult :: "string \<Rightarrow> gomap option \<Rightarrow> int64 \<Rightarrow> 'w \<Rightarrow> (go_error option \<times> 'w) option"
  ps_WaitForResult :: "string \<Rightarrow> float64 \<Rightarrow> 'w \<Rightarrow> ((go_error + gomap option) \<times> 'w) option"

text \<open>
  Sequences of calls on a token store, and the same sequence on the abstract content.
\<close>

datatype token_op = OpGet string | OpSet string "gomap option" | OpDelete string
datatype token_res = ResGet "go_error + gomap option" | ResErr "go_error option"

fun run_token_op :: "'w token_store \<Rightarrow> token_op \<Rightarrow> 'w \<Rightarrow> token_res \<times> 'w" where
  "run_token_op ts (OpGet k) w = map_prod ResGet id (ts_Get ts k w)"
| "run_token_op ts (OpSet k v) w = map_prod ResErr id (ts_Set ts k v w)"
| "run_token_op ts (OpDelete k) w = map_prod ResErr id (ts_Delete ts k w)"

fun spec_token_op ::
  "(gomap option \<Rightarrow> gomap option) \<Rightarrow> token_op \<Rightarrow> (string \<Rightarrow> gomap option) \<Rightarrow> token_res \<times> (string \<Rightarrow> gomap option)" where
  "spec_token_op repr (OpGet k) m = (ResGet (Inr (m k)), m)"
| "spec_token_op repr (OpSet k v) m = (ResErr None, m(k := repr v))"
| "spec_token_op repr (OpDelete k) m = (ResErr None, m(k := None))"

fun run_ops :: "('o \<Rightarrow> 's \<Rightarrow> 'r \<times> 's) \<Rightarrow> 'o list \<Rightarrow> 's \<Rightarrow> 'r list" where
  "run_ops f [] s = []"
| "run_ops f (op # ops) s = (let (r, s') = f op s in r # run_ops f ops s')"

fun token_op_ok :: "(gomap option \<Rightarrow> bool) \<Rightarrow> string set \<Rightarrow> token_op \<Rightarrow> bool" where
  "token_op_ok storable keys (OpGet k) \<longleftrightarrow> k \<in> keys"
| "token_op_ok storable keys (OpSet k v) \<longleftrightarrow> k \<in> keys \<and> storable v"
| "token_op_ok storable keys (OpDelete k) \<longleftrightarrow> k \<in> keys"

lemma token_op_ok_UNIV: "token_op_ok (\<lambda>_. True) UNIV op"
  by (cases op) simp_all

lemma spec_stable:
  assumes "\<forall>op \<in> set ops. token_op_ok (\<lambda>v. repr v = v) keys op"
  shows "run_ops (spec_token_op repr) ops m = run_ops (spec_token_op (\<lambda>v. v)) ops m"
  using assms
proof (induction ops arbitrary: m)
  case (Cons op ops)
  then show ?case by (cases op) auto
qed simp

text \<open>
  The contract of a \<^verbatim>\<open>TokenStore\<close> on the keys of interest. \<open>usable\<close> says that the backend
  works in this world (no input/output fault ahead, its own invariant holds), \<open>lookup\<close> is the
  abstract content, and \<open>repr\<close> is what a storable value reads back as: the value itself in memory,
  its image under a JSON round trip in the encrypted backends. \<open>rest\<close> is the part of the world a
  token store must not touch.
\<close>

locale token_store_contract =
  fixes ts :: "'w token_store"
    and usable :: "'w \<Rightarrow> bool"
    and lookup :: "'w \<Rightarrow> string \<Rightarrow> gomap option"
    and storable :: "gomap option \<Rightarrow> bool"
    and repr :: "gomap option \<Rightarrow> gomap option"
    and keys :: "string set"
    and rest :: "'w \<Rightarrow> 'r"
  assumes get_law: "usable w \<Longrightarrow> k \<in> keys \<Longrightarrow> ts_Get ts k w = (x, w') \<Longrightarrow>
      x = Inr (lookup w k) \<and> usable w' \<and> rest w' = rest w \<and> (\<forall>k' \<in> keys. lookup w' k' = lookup w k')"
    and set_law: "usable w \<Longrightarrow> k \<in> keys \<Longrightarrow> storable v \<Longrightarrow> ts_Set ts k v w = (e, w') \<Longrightarrow>
      e = None \<and> usable w' \<and> rest w' = rest w \<and>
      (\<forall>k' \<in> keys. lookup w' k' = (if k' = k then repr v else lookup w k'))"
    and delete_law: "usable w \<Longrightarrow> k \<in> keys \<Longrightarrow> ts_Delete ts k w = (e, w') \<Longrightarrow>
      e = None \<and> usable w' \<and> rest w' = rest w \<and>
      (\<forall>k' \<in> keys. lookup w' k' = (if k' = k then None else lookup w k'))"
begin

lemma get_after_set:
  assumes "usable w" and "k \<in> keys" and "storable v" and "ts_Set ts k v w = (e, w1)"
    and "ts_Get ts k w1 = (x, w2)"
  shows "x = Inr (repr v)"
  using set_law [OF assms(1-4)] get_law [OF _ assms(2,5)] assms(2) by auto

lemma get_after_delete:
  assumes "usable w" and "k \<in> keys" and "ts_Delete ts k w = (e, w1)" and "ts_Get ts k w1 = (x, w2)"
  shows "x = Inr None"
  using delete_law [OF assms(1-3)] get_law [OF _ assms(2,4)] assms(2) by auto

lemma get_other:
  assumes "usable w" and "k \<in> keys" and "k' \<in> keys" and "k' \<noteq> k" and "storable v"
    and "ts_Set ts k v w = (e, w1)" and "ts_Get ts k' w1 = (x, w2)"
  shows "x = Inr (lookup w k')"
  using set_law [OF assms(1,2,5,6)] get_law [OF _ assms(3,7)] assms(3,4) by auto

text \<open>
  Refinement: every sequence of calls returns what the same sequence on the abstract map returns.
\<close>

lemma op_refines:
  assumes "usable w" and "token_op_ok storable keys op"
    and "\<forall>k \<in> keys. m k = lookup w k" and "run_token_op ts op w = (r, w')" and "spec_token_op repr op m = (r', m')"
  shows "r = r' \<and> usable w' \<and> (\<forall>k \<in> keys. m' k = lookup w' k)"
proof (cases op)
  case (OpGet k)
  then show ?thesis using get_law [OF assms(1), of k] assms by (cases "ts_Get ts k w") auto
next
  case (OpSet k v)
  then show ?thesis using set_law [OF assms(1), of k v] assms by (cases "ts_Set ts k v w") auto
next
  case (OpDelete k)
  then show ?thesis using delete_law [OF assms(1), of k] assms by (cases "ts_Delete ts k w") auto
qed

lemma ops_refine:
  assumes "usable w" and "\<forall>op \<in> set ops. token_op_ok storable keys op"
    and "\<forall>k \<in> keys. m k = lookup w k"
  shows "run_ops (run_token_op ts) ops w = run_ops (spec_token_op repr) ops m"
  using assms
proof (induction ops arbitrary: w m)
  case (Cons op ops)
  obtain r w' where r: "run_token_op ts op w = (r, w')" by (cases "run_token_op ts op w")
  obtain r' m' where r': "spec_token_op repr op m = (r', m')" by (cases "spec_token_op repr op m")
  have "r = r' \<and> usable w' \<and> (\<forall>k \<in> keys. m' k = lookup w' k)"
    using Cons.prems by (intro op_refines [OF _ _ _ r r']) auto
  then show ?case using Cons.IH [of w' m'] Cons.prems(2) r r' by simp
qed simp

end

text \<open>
  The contract of a \<^verbatim>\<open>PendingStore\<close>. \<open>entries\<close> is the abstract content: metadata and an
  expiry stamp, computed by \<open>expiry\<close> from the clock reading at creation (\<open>stamp\<close>) and the time to
  live, and compared by \<open>expired\<close> with the reading of a later access (\<open>now\<close>). \<open>signal\<close> is the result set for a key and not consumed yet.
  \<open>prompt\<close> says that the scheduler lets a waiter see a result that is already there, \<open>lasting\<close> that
  a result stored now with the given time to live does not expire before it is read.
\<close>

locale pending_store_contract =
  fixes ps :: "'w pending_store"
    and usable :: "'w \<Rightarrow> bool"
    and entries :: "'w \<Rightarrow> string \<Rightarrow> (gomap option \<times> 'e) option"
    and signal :: "'w \<Rightarrow> string \<Rightarrow> gomap option option"
    and now :: "'w \<Rightarrow> go_time"
    and stamp :: "'w \<Rightarrow> go_time"
    and expiry :: "go_time \<Rightarrow> int64 \<Rightarrow> 'e"
    and expired :: "go_time \<Rightarrow> 'e \<Rightarrow> bool"
    and storable :: "gomap option \<Rightarrow> bool"
    and repr :: "gomap option \<Rightarrow> gomap option"
    and prompt :: "string \<Rightarrow> float64 \<Rightarrow> 'w \<Rightarrow> bool"
    and lasting :: "'w \<Rightarrow> int64 \<Rightarrow> bool"
    and keys :: "string set"
    and rest :: "'w \<Rightarrow> 'r"
  assumes create_law: "usable w \<Longrightarrow> k \<in> keys \<Longrightarrow> storable m \<Longrightarrow> ps_Create ps k m ttl w = (e, w') \<Longrightarrow>
      e = None \<and> usable w' \<and> rest w' = rest w \<and>
      (\<forall>k' \<in> keys. signal w' k' = signal w k') \<and>
      (\<forall>k' \<in> keys. entries w' k' =
         (if k' = k then Some (repr m, expiry (stamp w) ttl) else entries w k'))"
    and pget_law: "usable w \<Longrightarrow> k \<in> keys \<Longrightarrow> ps_Get ps k w = (x, w') \<Longrightarrow>
      x = Inr (case entries w k of
                 None \<Rightarrow> None | Some (m, t) \<Rightarrow> if expired (now w) t then None else m) \<and>
      usable w' \<and> rest w' = rest w \<and> (\<forall>k' \<in> keys. signal w' k' = signal w k') \<and>
      (\<forall>k' \<in> keys. entries w' k' =
         (case entries w k' of
            Some (m, t) \<Rightarrow> if k' = k \<and> expired (now w) t then None else Some (m, t)
          | None \<Rightarrow> None))"
    and pop_law: "usable w \<Longrightarrow> k \<in> keys \<Longrightarrow> ps_Pop ps k w = (x, w') \<Longrightarrow>
      x = Inr (case entries w k of
                 None \<Rightarrow> None | Some (m, t) \<Rightarrow> if expired (now w) t then None else m) \<and>
      usable w' \<and> rest w' = rest w \<and> (\<forall>k' \<in> keys. signal w' k' = signal w k') \<and>
      (\<forall>k' \<in> keys. entries w' k' = (if k' = k then None else entries w k'))"
    and set_result_law: "usable w \<Longrightarrow> k \<in> keys \<Longrightarrow> storable r \<Longrightarrow> signal w k = None \<Longrightarrow>
      lasting w ttl \<Longrightarrow> \<exists>w'. ps_SetResult ps k r ttl w = Some (None, w') \<and> usable w' \<and> rest w' = rest w \<and>
        (\<forall>k' \<in> keys. entries w' k' = entries w k') \<and>
        (\<forall>k' \<in> keys. signal w' k' = (if k' = k then Some (repr r) else signal w k'))"
    and wait_law: "usable w \<Longrightarrow> k \<in> keys \<Longrightarrow> prompt k t w \<Longrightarrow> signal w k = Some r \<Longrightarrow>
      \<exists>w'. ps_WaitForResult ps k t w = Some (Inr r, w') \<and> usable w' \<and> rest w' = rest w \<and>
        (\<forall>k' \<in> keys. entries w' k' = entries w k') \<and>
        (\<forall>k' \<in> keys. signal w' k' = (if k' = k then None else signal w k'))"
begin

lemma pop_twice:
  assumes "usable w" and "k \<in> keys" and "ps_Pop ps k w = (x, w1)" and "ps_Pop ps k w1 = (y, w2)"
  shows "y = Inr None"
  using pop_law [OF assms(1-3)] pop_law [OF _ assms(2,4)] assms(2) by auto

lemma pop_after_create:
  assumes "usable w" and "k \<in> keys" and "storable m" and "ps_Create ps k m ttl w = (e, w1)"
    and "ps_Pop ps k w1 = (x, w2)"
  shows "x = Inr (if expired (now w1) (expiry (stamp w) ttl) then None else repr m)"
  using create_law [OF assms(1-4)] pop_law [OF _ assms(2,5)] assms(2) by auto

lemma wait_after_set_result:
  assumes "usable w" and "k \<in> keys" and "storable r" and "signal w k = None"
    and "lasting w ttl" and "ps_SetResult ps k r ttl w = Some (e, w1)" and "prompt k t w1"
  shows "\<exists>w2. ps_WaitForResult ps k t w1 = Some (Inr (repr r), w2) \<and> signal w2 k = None"
  using set_result_law [OF assms(1-5)] wait_law [OF _ assms(2,7)] assms(2,6) by fastforce

end

end
