(* ===== verification/Http.thy ===== *)
theory Http
  imports Go_Runtime
begin

text \<open>
  The data that crosses the HTTP and MCP boundaries: the authenticated user and the request
  context that carries it, requests, responses, and tool results. Contexts are the type-keyed
  maps of \<^verbatim>\<open>context.WithValue\<close>; the three keys are the unexported key types of the packages
  \<^verbatim>\<open>middleware\<close>, \<^verbatim>\<open>oauthprovider\<close> and \<^verbatim>\<open>credentialsprovider\<close>.
\<close>

subsection \<open>Users and contexts\<close>

record User =
  Sub :: string
  PreferredUsername :: string
  Email :: string
  UName :: string
  Issuer :: string
  Claims :: "gomap option"

datatype ctx_key = UserContextKey | TokenContextKey | CredentialsContextKey

datatype ctx_val = VUser User | VToken string | VCreds "gomap option"

type_synonym ctx = "ctx_key \<Rightarrow> ctx_val option"

definition WithValue :: "ctx \<Rightarrow> ctx_key \<Rightarrow> ctx_val \<Rightarrow> ctx" where
  "WithValue c k v = c(k \<mapsto> v)"

definition UserFromContext :: "ctx \<Rightarrow> User option" where
  "UserFromContext c = (case c UserContextKey of Some (VUser u) \<Rightarrow> Some u | _ \<Rightarrow> None)"

definition WithUser :: "ctx \<Rightarrow> User \<Rightarrow> ctx" where
  "WithUser c u = WithValue c UserContextKey (VUser u)"

subsection \<open>Requests and responses\<close>

text \<open>
  A request after the server parsed it: the query as the list of its key/value pairs, the headers
  by canonical name with the empty string for an absent one, and the outcome of parsing the form
  in the body. The body of a response is text or a value the JSON encoder writes.
\<close>

record request =
  Method :: string
  Path :: string
  Query :: "(string \<times> string) list"
  Header :: "string \<Rightarrow> string"
  PostForm :: "go_error + (string \<times> string) list"
  RContext :: ctx

datatype http_body = BodyText string | BodyJSON gomap | BodyEmpty

record response =
  Status :: nat
  Headers :: "string \<Rightarrow> string option"
  Body :: http_body

text \<open>\<^verbatim>\<open>url.Values.Get\<close>: the first value of the key, or the empty string.\<close>

definition values_Get :: "(string \<times> string) list \<Rightarrow> string \<Rightarrow> string" where
  "values_Get vs k = (case map_of vs k of None \<Rightarrow> [] | Some v \<Rightarrow> v)"

definition writeJSON :: "nat \<Rightarrow> gomap \<Rightarrow> response" where
  "writeJSON status v =
     \<lparr>Status = status, Headers = [''Content-Type'' \<mapsto> ''application/json''], Body = BodyJSON v\<rparr>"

subsection \<open>Tool calls\<close>

text \<open>The result of an MCP tool call: its text contents and the error flag.\<close>

record tool_result =
  Content :: "string list"
  IsError :: bool

subsection \<open>Quoting\<close>

text \<open>
  \<^verbatim>\<open>strconv.Quote\<close>, the verb \<^verbatim>\<open>%q\<close>. The rendering of a rune outside ASCII depends on the
  Unicode tables: it is the argument \<open>q\<close>, which returns the text for the rune at the start of its
  argument and the number of bytes consumed.
\<close>

definition quote_ascii :: "char \<Rightarrow> string" where
  "quote_ascii c =
     (let n = of_char c :: nat
      in if c = CHR 0x22 \<or> c = CHR 0x5C then [CHR 0x5C, c]
         else if 32 \<le> n \<and> n < 127 then [c]
         else if n = 7 then [CHR 0x5C, CHR ''a'']
         else if n = 8 then [CHR 0x5C, CHR ''b'']
         else if n = 12 then [CHR 0x5C, CHR ''f'']
         else if n = 10 then [CHR 0x5C, CHR ''n'']
         else if n = 13 then [CHR 0x5C, CHR ''r'']
         else if n = 9 then [CHR 0x5C, CHR ''t'']
         else if n = 11 then [CHR 0x5C, CHR ''v'']
         else [CHR 0x5C, CHR ''x''] @ hex_byte c)"

fun quote_body :: "(string \<Rightarrow> string \<times> nat) \<Rightarrow> nat \<Rightarrow> string \<Rightarrow> string" where
  "quote_body q 0 s = []"
| "quote_body q (Suc n) [] = []"
| "quote_body q (Suc n) (c # cs) =
     (if (of_char c :: nat) < 128 then quote_ascii c @ quote_body q n cs
      else let (t, k) = q (c # cs) in t @ quote_body q n (drop (max 1 k) (c # cs)))"

definition strconv_Quote :: "(string \<Rightarrow> string \<times> nat) \<Rightarrow> string \<Rightarrow> string" where
  "strconv_Quote q s = [CHR 0x22] @ quote_body q (length s) s @ [CHR 0x22]"

lemmas [http_defs] = WithValue_def WithUser_def UserFromContext_def values_Get_def writeJSON_def

lemma UserFromContext_WithUser [simp]: "UserFromContext (WithUser c u) = Some u"
  by (simp add: http_defs)

definition printable :: "char \<Rightarrow> bool" where
  "printable c \<longleftrightarrow> 32 \<le> (of_char c :: nat) \<and> c \<noteq> CHR 0x7F"

lemma printable_hex_digit: "n < 16 \<Longrightarrow> printable (hex_digit n)"
  using hex_digit_printable [of n] by (auto simp: printable_def)

lemma quote_ascii_printable: "x \<in> set (quote_ascii c) \<Longrightarrow> printable x"
  by (auto simp: quote_ascii_def hex_byte_def Let_def less_mult_imp_div_less
      intro!: printable_hex_digit split: if_splits) (auto simp: printable_def)

lemma quote_body_printable:
  assumes q: "\<And>t. list_all printable (fst (q t))"
  shows "list_all printable (quote_body q n s)"
proof (induction n arbitrary: s)
  case (Suc n)
  show ?case
  proof (cases s)
    case (Cons c cs)
    have "list_all printable (quote_ascii c)"
      by (auto simp: list_all_iff intro: quote_ascii_printable)
    with Suc Cons q [of "c # cs"] show ?thesis by (auto simp: Let_def split: prod.split)
  qed simp
qed simp

lemma strconv_Quote_printable:
  "(\<And>t. list_all printable (fst (q t))) \<Longrightarrow> list_all printable (strconv_Quote q s)"
  by (simp add: strconv_Quote_def quote_body_printable) (simp add: printable_def)

end
