(* ===== verification/Gate.thy ===== *)
theory Gate
  imports Store Http
begin

text \<open>
  What the two tool-gating providers share: random identifiers, MCP sessions and tool requests, and
  the registers of sessions. An MCP session is third-party code: its \<^verbatim>\<open>Elicit\<close> call is an
  arbitrary function on the world, during which any other goroutine may run; \<open>None\<close> means that the
  client never answers.
\<close>

record 'w session =
  sess_id :: nat
  Elicit :: "elicit_params \<Rightarrow> 'w \<Rightarrow> ((go_error + string) \<times> 'w) option"

record 'w CallToolRequest =
  Session :: "'w session"
  Arguments :: string

type_synonym 'w tool_handler =
  "ctx \<Rightarrow> 'w CallToolRequest \<Rightarrow> 'w \<Rightarrow> ((go_error + tool_result) \<times> 'w) option"

definition generateID :: "nat \<Rightarrow> 'a host_scheme \<Rightarrow> string \<times> 'a host_scheme" where
  "generateID byteLen w = (let (b, w1) = rand_Read byteLen w in (hex_EncodeToString b, w1))"

text \<open>\<^verbatim>\<open>int(p.tokenTimeout.Seconds())\<close>.\<close>

definition timeout_seconds :: "duration \<Rightarrow> 'a host_scheme \<Rightarrow> int64" where
  "timeout_seconds t w = f64_to_int64 (f2i_oob w) (duration_Seconds t)"

definition gomap_find :: "gomap option \<Rightarrow> string \<Rightarrow> go_any option" where
  "gomap_find m k = (case m of None \<Rightarrow> None | Some f \<Rightarrow> f k)"

definition error_result :: "string \<Rightarrow> tool_result" where
  "error_result msg = \<lparr>Content = [msg], IsError = True\<rparr>"

lemma generateID_eq:
  "generateID n w =
     (hex_EncodeToString (map (entropy w (tick w)) [0..<n]), w\<lparr>tick := Suc (tick w)\<rparr>)"
  by (simp add: generateID_def rand_Read_def)

lemma length_generateID [simp]: "length (fst (generateID n w)) = 2 * n"
  by (simp add: generateID_eq)

lemma generateID_nonempty: "0 < n \<Longrightarrow> fst (generateID n w) \<noteq> []"
  using length_generateID [of n w] by (metis less_numeral_extra(3) list.size(3) mult_is_0 zero_neq_numeral)

text \<open>Two identifiers of the same length differ whenever the random bytes differ.\<close>

lemma generateID_inj:
  "fst (generateID n w) = fst (generateID n w') \<longleftrightarrow>
     (\<forall>i < n. entropy w (tick w) i = entropy w' (tick w') i)"
  by (auto simp: generateID_eq dest: hex_EncodeToString_inj
      intro!: arg_cong [where f = hex_EncodeToString])

lemma timeout_seconds_whole:
  assumes "\<bar>s\<bar> \<le> 9223372036"
  shows "timeout_seconds (word_of_int s * Second) w = word_of_int s"
  unfolding timeout_seconds_def duration_Seconds_whole [OF assms]
  by (rule f64_to_int64_exact) (use assms in auto)

lemma gomap_get_find: "gomap_get m k = (case gomap_find m k of None \<Rightarrow> ANil | Some v \<Rightarrow> v)"
  by (simp add: gomap_get_def gomap_find_def split: option.splits)

subsection \<open>The stores a provider works on\<close>

text \<open>
  A token store and a pending store in one world, each leaving the other's content alone, both
  unaffected by reads of the clock and of the random source. The flows of the two providers are
  verified once in this locale, for every backend that meets it. \<open>keeps\<close> is the frame the code
  between two store calls must respect: what the caller's own functions may do to the world.
\<close>

locale provider_stores =
  token_store_contract ts usable lookup tstorable trepr tkeys trest +
  pending_store_contract ps usable entries signal now stamp expiry expired pstorable prepr prompt lasting pkeys prest
  for ts :: "'a host_scheme token_store"
    and ps :: "'a host_scheme pending_store"
    and usable :: "'a host_scheme \<Rightarrow> bool"
    and lookup :: "'a host_scheme \<Rightarrow> string \<Rightarrow> gomap option"
    and tstorable :: "gomap option \<Rightarrow> bool"
    and trepr :: "gomap option \<Rightarrow> gomap option"
    and tkeys :: "string set"
    and trest :: "'a host_scheme \<Rightarrow> 't"
    and entries :: "'a host_scheme \<Rightarrow> string \<Rightarrow> (gomap option \<times> 'e) option"
    and signal :: "'a host_scheme \<Rightarrow> string \<Rightarrow> gomap option option"
    and now :: "'a host_scheme \<Rightarrow> go_time"
    and stamp :: "'a host_scheme \<Rightarrow> go_time"
    and expiry :: "go_time \<Rightarrow> int64 \<Rightarrow> 'e"
    and expired :: "go_time \<Rightarrow> 'e \<Rightarrow> bool"
    and pstorable :: "gomap option \<Rightarrow> bool"
    and prepr :: "gomap option \<Rightarrow> gomap option"
    and prompt :: "string \<Rightarrow> float64 \<Rightarrow> 'a host_scheme \<Rightarrow> bool"
    and lasting :: "'a host_scheme \<Rightarrow> int64 \<Rightarrow> bool"
    and pkeys :: "string set"
    and prest :: "'a host_scheme \<Rightarrow> 'p" +
  assumes lookup_rest: "prest w = prest w' \<Longrightarrow> k \<in> tkeys \<Longrightarrow> lookup w k = lookup w' k"
    and entries_rest: "trest w = trest w' \<Longrightarrow> k \<in> pkeys \<Longrightarrow> entries w k = entries w' k"
    and signal_rest: "trest w = trest w' \<Longrightarrow> k \<in> pkeys \<Longrightarrow> signal w k = signal w' k"
    and usable_tick: "usable (w\<lparr>tick := n\<rparr>) = usable w"
    and lookup_tick: "k \<in> tkeys \<Longrightarrow> lookup (w\<lparr>tick := n\<rparr>) k = lookup w k"
    and entries_tick: "k \<in> pkeys \<Longrightarrow> entries (w\<lparr>tick := n\<rparr>) k = entries w k"
    and signal_tick: "k \<in> pkeys \<Longrightarrow> signal (w\<lparr>tick := n\<rparr>) k = signal w k"
    and clock_rest: "trest w = trest w' \<or> prest w = prest w' \<Longrightarrow> clock w = clock w'"
    and now_clock: "\<exists>n. now w = clock w n"
    and stamp_clock: "\<exists>n. stamp w = clock w n"
    and lasting_clock: "clock w = clock w' \<Longrightarrow> lasting w ttl = lasting w' ttl"
begin

definition keeps :: "'a host_scheme \<Rightarrow> 'a host_scheme \<Rightarrow> bool" where
  "keeps w w' \<longleftrightarrow> (usable w \<longrightarrow> usable w') \<and> clock w' = clock w \<and> (\<forall>k \<in> tkeys. lookup w' k = lookup w k) \<and>
     (\<forall>k \<in> pkeys. entries w' k = entries w k \<and> signal w' k = signal w k)"

lemma keeps_refl [simp]: "keeps w w"
  by (simp add: keeps_def)

lemma keeps_trans: "keeps w w1 \<Longrightarrow> keeps w1 w2 \<Longrightarrow> keeps w w2"
  by (auto simp: keeps_def)

lemma keeps_tick [simp]: "keeps w (w\<lparr>tick := n\<rparr>)"
  by (simp add: keeps_def usable_tick lookup_tick entries_tick signal_tick)

lemma keeps_time_Now: "time_Now w = (t, w') \<Longrightarrow> keeps w w'"
  by (auto simp: time_Now_def)

lemma keeps_generateID: "generateID n w = (s, w') \<Longrightarrow> keeps w w'"
  by (auto simp: generateID_eq)

text \<open>The store operations as the providers see them: the other store is untouched.\<close>

lemma get_eq:
  assumes "usable w" and "k \<in> tkeys"
  obtains w' where "ts_Get ts k w = (Inr (lookup w k), w')" and "keeps w w'"
proof -
  obtain x w' where g: "ts_Get ts k w = (x, w')" by (cases "ts_Get ts k w")
  from get_law [OF assms g] g show thesis
    by (intro that [of w']) (auto simp: keeps_def intro: entries_rest signal_rest clock_rest)
qed

lemma set_eq:
  assumes "usable w" and "k \<in> tkeys" and "tstorable v"
  obtains w' where "ts_Set ts k v w = (None, w')" and "usable w'" and "clock w' = clock w"
    and "\<forall>k' \<in> tkeys. lookup w' k' = (if k' = k then trepr v else lookup w k')"
    and "\<forall>k' \<in> pkeys. entries w' k' = entries w k' \<and> signal w' k' = signal w k'"
proof -
  obtain e w' where s: "ts_Set ts k v w = (e, w')" by (cases "ts_Set ts k v w")
  from set_law [OF assms s] s show thesis
    by (intro that [of w']) (auto intro: entries_rest signal_rest clock_rest)
qed

text \<open>The two outcomes of \<open>Pop\<close>: a live entry is returned and removed, anything else reads as nil.\<close>

lemma pop_live:
  assumes "usable w" and "k \<in> pkeys" and "entries w k = Some (Some m, t)" and "\<not> expired (now w) t"
  obtains w' where "ps_Pop ps k w = (Inr (Some m), w')" and "usable w'" and "clock w' = clock w"
    and "\<forall>k' \<in> tkeys. lookup w' k' = lookup w k'"
    and "\<forall>k' \<in> pkeys. entries w' k' = (if k' = k then None else entries w k') \<and> signal w' k' = signal w k'"
proof -
  obtain x w' where s: "ps_Pop ps k w = (x, w')" by (cases "ps_Pop ps k w")
  from pop_law [OF assms(1,2) s] s assms(3,4) show thesis
    by (intro that [of w']) (auto intro: lookup_rest clock_rest)
qed

lemma pop_dead:
  assumes "usable w" and "k \<in> pkeys"
    and "\<forall>m t. entries w k = Some (m, t) \<longrightarrow> expired (now w) t \<or> m = None"
  obtains w' where "ps_Pop ps k w = (Inr None, w')" and "usable w'" and "clock w' = clock w"
    and "\<forall>k' \<in> tkeys. lookup w' k' = lookup w k'"
    and "\<forall>k' \<in> pkeys. entries w' k' = (if k' = k then None else entries w k') \<and> signal w' k' = signal w k'"
proof -
  obtain x w' where s: "ps_Pop ps k w = (x, w')" by (cases "ps_Pop ps k w")
  have "x = Inr None" using pop_law [OF assms(1,2) s] assms(3) by (auto split: option.splits)
  with pop_law [OF assms(1,2) s] s show thesis
    by (intro that [of w']) (auto intro: lookup_rest clock_rest)
qed

lemma create_eq:
  assumes "usable w" and "k \<in> pkeys" and "pstorable m"
  obtains w' where "ps_Create ps k m ttl w = (None, w')" and "usable w'" and "clock w' = clock w"
    and "\<forall>k' \<in> tkeys. lookup w' k' = lookup w k'"
    and "\<forall>k' \<in> pkeys. signal w' k' = signal w k' \<and>
        entries w' k' = (if k' = k then Some (prepr m, expiry (stamp w) ttl) else entries w k')"
proof -
  obtain e w' where s: "ps_Create ps k m ttl w = (e, w')" by (cases "ps_Create ps k m ttl w")
  from create_law [OF assms s] s show thesis
    by (intro that [of w']) (auto intro: lookup_rest clock_rest)
qed

lemma set_result_eq:
  assumes "usable w" and "k \<in> pkeys" and "pstorable r" and "signal w k = None" and "lasting w ttl"
  obtains w' where "ps_SetResult ps k r ttl w = Some (None, w')" and "usable w'" and "clock w' = clock w"
    and "\<forall>k' \<in> tkeys. lookup w' k' = lookup w k'"
    and "\<forall>k' \<in> pkeys. entries w' k' = entries w k' \<and>
        signal w' k' = (if k' = k then Some (prepr r) else signal w k')"
proof -
  from set_result_law [OF assms] obtain w' where
    "ps_SetResult ps k r ttl w = Some (None, w') \<and> usable w' \<and> prest w' = prest w \<and>
     (\<forall>k' \<in> pkeys. entries w' k' = entries w k') \<and>
     (\<forall>k' \<in> pkeys. signal w' k' = (if k' = k then Some (prepr r) else signal w k'))" by blast
  then show thesis by (intro that [of w']) (auto intro: lookup_rest clock_rest)
qed

lemma wait_eq:
  assumes "usable w" and "k \<in> pkeys" and "prompt k t w" and "signal w k = Some r"
  obtains w' where "ps_WaitForResult ps k t w = Some (Inr r, w')" and "usable w'" and "clock w' = clock w"
    and "\<forall>k' \<in> tkeys. lookup w' k' = lookup w k'"
    and "\<forall>k' \<in> pkeys. entries w' k' = entries w k' \<and>
        signal w' k' = (if k' = k then None else signal w k')"
proof -
  from wait_law [OF assms] obtain w' where
    "ps_WaitForResult ps k t w = Some (Inr r, w') \<and> usable w' \<and> prest w' = prest w \<and>
     (\<forall>k' \<in> pkeys. entries w' k' = entries w k') \<and>
     (\<forall>k' \<in> pkeys. signal w' k' = (if k' = k then None else signal w k'))" by blast
  then show thesis by (intro that [of w']) (auto intro: lookup_rest clock_rest)
qed

end

end
