(* ===== verification/Oauth_Provider.thy ===== *)
theory Oauth_Provider
  imports Gate
begin

text \<open>
  \<^verbatim>\<open>oauthprovider/oauthprovider.go\<close>: tool gating behind a third-party OAuth flow. The provider is
  the record of its struct fields; the stores are interface values of \<open>Store\<close>; the two functions a
  caller supplies (\<open>exchangeCode\<close>, \<open>refreshTokenFn\<close>) are arbitrary functions on the world; the
  \<^verbatim>\<open>sessions\<close> map is read and written through \<open>o_sess_rd\<close> and \<open>o_sess_wr\<close>. A function that
  calls a blocking method returns an option.
\<close>

record 'w oauth_provider =
  o_name :: string
  buildAuthURL :: "string \<Rightarrow> string \<Rightarrow> string"
  exchangeCode :: "string \<Rightarrow> 'w \<Rightarrow> (go_error + gomap option) \<times> 'w"
  redirectURI :: string
  callbackPath :: string
  tokenStore :: "'w token_store"
  o_pendingStore :: "'w pending_store"
  refreshTokenFn :: "(string \<Rightarrow> 'w \<Rightarrow> (go_error + gomap option) \<times> 'w) option"
  o_tokenTimeout :: duration
  o_sess_rd :: "'w \<Rightarrow> string \<Rightarrow> nat option"
  o_sess_wr :: "(string \<Rightarrow> nat option) \<Rightarrow> 'w \<Rightarrow> 'w"

definition o_errPromptDeclined :: go_error where
  "o_errPromptDeclined = ErrNew ''oauthprovider: user declined the authorization prompt''"

definition InvalidateToken :: "'w oauth_provider \<Rightarrow> string \<Rightarrow> 'w \<Rightarrow> go_error option \<times> 'w" where
  "InvalidateToken p sub w = ts_Delete (tokenStore p) sub w"

subsection \<open>Token data\<close>

definition toFloat :: "go_any \<Rightarrow> float64 option" where
  "toFloat v =
     (case v of
        AFloat n \<Rightarrow> Some n
      | AInt n \<Rightarrow> Some (f64_of_int (sint n))
      | AInt64 n \<Rightarrow> Some (f64_of_int (sint n))
      | _ \<Rightarrow> None)"

definition normalizeTokenData :: "gomap option \<Rightarrow> go_time \<Rightarrow> gomap" where
  "normalizeTokenData raw now =
     (let e0 = Map.empty;
          e1 = (case gomap_find raw ''access_token'' of
                  Some v \<Rightarrow> e0(''access_token'' \<mapsto> v) | None \<Rightarrow> e0);
          e2 = (case gomap_find raw ''refresh_token'' of
                  Some v \<Rightarrow> e1(''refresh_token'' \<mapsto> v) | None \<Rightarrow> e1);
          e3 = e2(''stored_at'' \<mapsto> AInt64 (time_Unix now))
      in case toFloat (gomap_get raw ''expires_in'') of
           Some x \<Rightarrow> e3(''expires_at'' \<mapsto> AFloat (f64_add (f64_of_int (sint (time_Unix now))) x))
         | None \<Rightarrow> e3)"

text \<open>The comparison \<^verbatim>\<open>float64(time.Now().Unix())+expiryBufferSeconds < expiresAt\<close>.\<close>

definition outlives_buffer :: "go_time \<Rightarrow> float64 \<Rightarrow> bool" where
  "outlives_buffer now expiresAt \<longleftrightarrow>
     f64_less (f64_add (f64_of_int (sint (time_Unix now))) (Fin 30)) expiresAt"

text \<open>The refresh token is carried forward if the response brings none.\<close>

definition carry_refresh_token :: "string \<Rightarrow> gomap \<Rightarrow> gomap" where
  "carry_refresh_token refreshToken entry =
     (let v = gomap_get (Some entry) ''refresh_token''
      in if v = ANil \<or> v = AStr [] then entry(''refresh_token'' \<mapsto> AStr refreshToken) else entry)"

text \<open>The second half of \<^verbatim>\<open>getOrRefreshToken\<close>: the silent refresh of an expiring token.\<close>

definition try_refresh ::
  "'a host_scheme oauth_provider \<Rightarrow> string \<Rightarrow> gomap option \<Rightarrow> 'a host_scheme
     \<Rightarrow> (go_error + string) \<times> 'a host_scheme" where
  "try_refresh p sub tokenData w =
     (let refreshToken = any_string (gomap_get tokenData ''refresh_token'')
      in case refreshTokenFn p of
           None \<Rightarrow> (Inr [], w)
         | Some refresh \<Rightarrow>
             if refreshToken = [] then (Inr [], w)
             else (case refresh refreshToken w of
                    (Inl e, w1) \<Rightarrow> (Inr [], snd (ts_Delete (tokenStore p) sub w1))
                  | (Inr refreshed, w1) \<Rightarrow>
                      (let (now, w2) = time_Now w1;
                           entry' = carry_refresh_token refreshToken (normalizeTokenData refreshed now)
                       in case ts_Set (tokenStore p) sub (Some entry') w2 of
                            (Some e, w3) \<Rightarrow> (Inl e, w3)
                          | (None, w3) \<Rightarrow>
                              (Inr (any_string (gomap_get (Some entry') ''access_token'')), w3))))"

definition getOrRefreshToken ::
  "'a host_scheme oauth_provider \<Rightarrow> string \<Rightarrow> 'a host_scheme
     \<Rightarrow> (go_error + string) \<times> 'a host_scheme" where
  "getOrRefreshToken p sub w =
     (case ts_Get (tokenStore p) sub w of
        (Inl e, w1) \<Rightarrow> (Inl e, w1)
      | (Inr None, w1) \<Rightarrow> (Inr [], w1)
      | (Inr (Some f), w1) \<Rightarrow>
          (let accessToken = any_string (gomap_get (Some f) ''access_token'')
           in case any_float (gomap_get (Some f) ''expires_at'') of
                None \<Rightarrow> (Inr accessToken, w1)
              | Some expiresAt \<Rightarrow>
                  (let (now, w2) = time_Now w1
                   in if outlives_buffer now expiresAt then (Inr accessToken, w2)
                      else try_refresh p sub (Some f) w2)))"

subsection \<open>The elicitation flow\<close>

definition o_elicit_params :: "'w oauth_provider \<Rightarrow> string \<Rightarrow> string \<Rightarrow> elicit_params" where
  "o_elicit_params p state elicitationID =
     \<lparr>Mode = ''url'',
      Message = ''Authorize access to '' @ o_name p @ '' to continue'',
      URL = buildAuthURL p state (redirectURI p),
      ElicitationID = elicitationID\<rparr>"

definition sub_metadata :: "string \<Rightarrow> gomap option" where
  "sub_metadata sub = Some [''sub'' \<mapsto> AStr sub]"

definition o_buildFailFastError ::
  "'a host_scheme oauth_provider \<Rightarrow> string \<Rightarrow> 'a host_scheme \<Rightarrow> go_error \<times> 'a host_scheme" where
  "o_buildFailFastError p sub w =
     (let (state, w1) = generateID 24 w;
          (elicitationID, w2) = generateID 16 w1;
          (_, w3) = ps_Create (o_pendingStore p) state (sub_metadata sub)
                      (timeout_seconds (o_tokenTimeout p) w2 + 60) w2
      in (URLElicitationRequired [o_elicit_params p state elicitationID], w3))"

text \<open>The deferred removal of the session runs on every return after it was registered.\<close>

definition o_unregister :: "'w oauth_provider \<Rightarrow> string \<Rightarrow> 'w \<Rightarrow> 'w" where
  "o_unregister p state w = o_sess_wr p ((o_sess_rd p w)(state := None)) w"

definition ensureTokenBlocking ::
  "'a host_scheme oauth_provider \<Rightarrow> 'a host_scheme session \<Rightarrow> string \<Rightarrow> 'a host_scheme
     \<Rightarrow> ((go_error + string) \<times> 'a host_scheme) option" where
  "ensureTokenBlocking p session sub w =
     (let (state, w1) = generateID 24 w;
          (elicitationID, w2) = generateID 16 w1
      in case ps_Create (o_pendingStore p) state (sub_metadata sub)
                (timeout_seconds (o_tokenTimeout p) w2 + 60) w2 of
           (Some e, w3) \<Rightarrow> Some (Inl (Errorw ''oauthprovider: creating pending entry: %w'' [] e), w3)
         | (None, w3) \<Rightarrow>
    (let w4 = o_sess_wr p ((o_sess_rd p w3)(state \<mapsto> sess_id session)) w3
     in case Elicit session (o_elicit_params p state elicitationID) w4 of
          None \<Rightarrow> None
        | Some (Inl e, w5) \<Rightarrow>
            Some (Inl (Errorw ''oauthprovider: elicitation request failed: %w'' [] e), o_unregister p state w5)
        | Some (Inr action, w5) \<Rightarrow>
            if action \<noteq> ''accept''
            then Some (Inl o_errPromptDeclined, o_unregister p state (snd (ps_Pop (o_pendingStore p) state w5)))
            else (case ps_WaitForResult (o_pendingStore p) state (duration_Seconds (o_tokenTimeout p)) w5 of
                   None \<Rightarrow> None
                 | Some (Inl e, w6) \<Rightarrow>
                     Some (Inl (Errorw ''oauthprovider: waiting for callback: %w'' [] e), o_unregister p state w6)
                 | Some (Inr None, w6) \<Rightarrow> Some (Inr [], o_unregister p state w6)
                 | Some (Inr (Some _), w6) \<Rightarrow>
                     (let (x, w7) = getOrRefreshToken p sub w6 in Some (x, o_unregister p state w7)))))"

definition withToken :: "ctx \<Rightarrow> string \<Rightarrow> ctx" where
  "withToken c token = WithValue c TokenContextKey (VToken token)"

definition TokenFromContext :: "ctx \<Rightarrow> string option" where
  "TokenFromContext c = (case c TokenContextKey of Some (VToken t) \<Rightarrow> Some t | _ \<Rightarrow> None)"

definition RequireToken ::
  "'a host_scheme oauth_provider \<Rightarrow> bool \<Rightarrow> 'a host_scheme tool_handler \<Rightarrow> 'a host_scheme tool_handler" where
  "RequireToken p failFast next_h c req w =
     (case UserFromContext c of
        None \<Rightarrow> Some (Inr (error_result ''oauthprovider: no authenticated user in context''), w)
      | Some user \<Rightarrow>
    (let sub = Sub user
     in case getOrRefreshToken p sub w of
          (Inl e, w1) \<Rightarrow> Some (Inl (Errorw ''oauthprovider: checking existing token: %w'' [] e), w1)
        | (Inr token, w1) \<Rightarrow>
            if token \<noteq> [] then next_h (withToken c token) req w1
            else if failFast
            then (let (e, w2) = o_buildFailFastError p sub w1 in Some (Inl e, w2))
            else (case ensureTokenBlocking p (Session req) sub w1 of
                   None \<Rightarrow> None
                 | Some (Inl e, w2) \<Rightarrow> Some (Inl e, w2)
                 | Some (Inr token', w2) \<Rightarrow>
                     if token' = []
                     then Some (Inr (error_result (o_name p @ '' authorization was not completed'')), w2)
                     else next_h (withToken c token') req w2)))"

subsection \<open>The callback handler\<close>

definition writeCallbackPage :: "nat \<Rightarrow> string \<Rightarrow> string \<Rightarrow> response" where
  "writeCallbackPage status title message =
     \<lparr>Status = status, Headers = [''Content-Type'' \<mapsto> ''text/html; charset=utf-8''],
      Body = BodyText
        (''<!DOCTYPE html><html><head><title>'' @ title @ ''</title></head><body><h1>'' @ title @
         ''</h1><p>'' @ message @ ''</p></body></html>'')\<rparr>"

definition signal_metadata :: "string \<Rightarrow> gomap option" where
  "signal_metadata sub = Some [''sub'' \<mapsto> AStr sub, ''_elicit_sent'' \<mapsto> ABool False]"

definition error_metadata :: "string \<Rightarrow> gomap option" where
  "error_metadata code = Some [''error'' \<mapsto> AStr code]"

definition HandleCallback ::
  "'a host_scheme oauth_provider \<Rightarrow> request \<Rightarrow> 'a host_scheme \<Rightarrow> (response \<times> 'a host_scheme) option" where
  "HandleCallback p r w =
     (let q = values_Get (Query r); errCode = q ''error''; state = q ''state''; code = q ''code''
      in if errCode \<noteq> []
         then (let page = writeCallbackPage 200 ''Authorization failed''
                            (errCode @ '': '' @ q ''error_description'')
               in if state \<noteq> []
                  then map_option (\<lambda>(_, w1). (page, w1))
                         (ps_SetResult (o_pendingStore p) state (error_metadata ''oauth_error'') 120 w)
                  else Some (page, w))
         else if code = [] \<or> state = []
         then Some (writeCallbackPage 400 ''Authorization failed'' ''missing code or state parameter'', w)
         else (case ps_Pop (o_pendingStore p) state w of
                (Inl e, w1) \<Rightarrow>
                  Some (writeCallbackPage 400 ''Authorization failed''
                          ''unknown or expired authorization request'', w1)
              | (Inr None, w1) \<Rightarrow>
                  Some (writeCallbackPage 400 ''Authorization failed''
                          ''unknown or expired authorization request'', w1)
              | (Inr (Some pending), w1) \<Rightarrow>
    (let sub = any_string (gomap_get (Some pending) ''sub'')
     in case exchangeCode p code w1 of
          (Inl e, w2) \<Rightarrow>
            map_option (\<lambda>(_, w3).
                (writeCallbackPage 200 ''Authorization failed'' ''token exchange failed'', w3))
              (ps_SetResult (o_pendingStore p) state (error_metadata ''exchange_failed'') 120 w2)
        | (Inr tokenData, w2) \<Rightarrow>
            (let (now, w3) = time_Now w2
             in case ts_Set (tokenStore p) sub (Some (normalizeTokenData tokenData now)) w3 of
                  (Some e, w4) \<Rightarrow>
                    Some (writeCallbackPage 500 ''Authorization failed'' ''storing token failed'', w4)
                | (None, w4) \<Rightarrow>
                    map_option (\<lambda>(_, w5).
                        (writeCallbackPage 200 ''Authorization successful''
                           ''You can close this window and return to your MCP client.'', w5))
                      (ps_SetResult (o_pendingStore p) state (signal_metadata sub) 120 w4)))))"

lemmas [provider_defs] = sub_metadata_def signal_metadata_def error_metadata_def
  withToken_def TokenFromContext_def

subsection \<open>Behaviour of the operations\<close>

lemma outlives_buffer_iff:
  assumes "0 \<le> t" and "t < 2 ^ 62"
  shows "outlives_buffer t (Fin e) \<longleftrightarrow> of_int (t div 1000000000 + 30) < e"
proof -
  have b: "0 \<le> t div 1000000000" "t div 1000000000 \<le> 4611686018" using assms by auto
  have "sint (time_Unix t) = t div 1000000000"
    using assms by (intro time_Unix_sint) auto
  then have "f64_add (f64_of_int (sint (time_Unix t))) (Fin 30) = Fin (of_int (t div 1000000000 + 30))"
    using f64_of_int_exact [of "t div 1000000000"] f64_add_int_exact [of "t div 1000000000" 30] b by simp
  then show ?thesis by (simp add: outlives_buffer_def)
qed

lemma normalize_access [simp]: "normalizeTokenData raw t ''access_token'' = gomap_find raw ''access_token''"
  by (simp add: normalizeTokenData_def Let_def split: option.splits)

lemma normalize_refresh [simp]: "normalizeTokenData raw t ''refresh_token'' = gomap_find raw ''refresh_token''"
  by (simp add: normalizeTokenData_def Let_def split: option.splits)

lemma normalize_expires:
  "normalizeTokenData raw t ''expires_at'' =
     map_option (\<lambda>x. AFloat (f64_add (f64_of_int (sint (time_Unix t))) x)) (toFloat (gomap_get raw ''expires_in''))"
  by (simp add: normalizeTokenData_def Let_def split: option.splits)

lemma TokenFromContext_withToken [simp]: "TokenFromContext (withToken c t) = Some t"
  by (simp add: provider_defs http_defs)

lemma RequireToken_no_user:
  "UserFromContext c = None \<Longrightarrow> RequireToken p ff next_h c req w =
     Some (Inr (error_result ''oauthprovider: no authenticated user in context''), w)"
  by (simp add: RequireToken_def)

text \<open>What a blocking flow hands out is what the store yields for the subject after the wait.\<close>

lemma ensureTokenBlocking_token:
  assumes "ensureTokenBlocking p session sub w = Some (Inr t, w')" and "t \<noteq> []"
  shows "\<exists>w6 w7. getOrRefreshToken p sub w6 = (Inr t, w7)"
  using assms
  by (auto simp: ensureTokenBlocking_def Let_def
      split: prod.splits option.splits sum.splits if_splits)

text \<open>
  The session register holds no entry for the flow's state once the call has returned, unless the
  pending entry could not be created in the first place.
\<close>

lemma ensureTokenBlocking_unregisters:
  assumes "\<And>m w. o_sess_rd p (o_sess_wr p m w) = m"
    and "ensureTokenBlocking p session sub w = Some (x, w')"
  shows "o_sess_rd p w' (fst (generateID 24 w)) = None \<or>
    (\<exists>e. x = Inl (Errorw ''oauthprovider: creating pending entry: %w'' [] e))"
  using assms(2)
  by (auto simp: ensureTokenBlocking_def Let_def o_unregister_def assms(1)
      split: prod.splits option.splits sum.splits if_splits)

text \<open>The entry a refresh stores: the new access token, and a refresh token in any case.\<close>

abbreviation refreshed_entry :: "gomap option \<Rightarrow> string \<Rightarrow> go_time \<Rightarrow> gomap" where
  "refreshed_entry refreshed rt now \<equiv> carry_refresh_token rt (normalizeTokenData refreshed now)"

lemma refreshed_entry_access [simp]:
  "gomap_get (Some (refreshed_entry td rt n)) ''access_token'' = gomap_get td ''access_token''"
  by (simp add: carry_refresh_token_def Let_def gomap_get_find gomap_find_def)

lemma refreshed_entry_refresh:
  "any_string (gomap_get (Some (refreshed_entry td rt n)) ''refresh_token'') =
     (case gomap_get td ''refresh_token'' of
        ANil \<Rightarrow> rt | AStr s \<Rightarrow> if s = [] then rt else s | v \<Rightarrow> [])"
  by (auto simp: carry_refresh_token_def Let_def gomap_get_def gomap_find_def any_string_def
      split: option.splits go_any.splits)

lemma try_refresh_stores:
  assumes "refreshTokenFn p = Some refresh" and "any_string (gomap_get td ''refresh_token'') = rt" and "rt \<noteq> []"
    and "refresh rt w = (Inr new, w1)"
    and "ts_Set (tokenStore p) sub (Some (refreshed_entry new rt (clock w1 (tick w1)))) (w1\<lparr>tick := Suc (tick w1)\<rparr>)
      = (None, w3)"
  shows "try_refresh p sub td w = (Inr (any_string (gomap_get new ''access_token'')), w3)"
  using assms by (simp add: try_refresh_def time_Now_def)

text \<open>
  C2: the gate of \<^verbatim>\<open>RequireToken\<close>. Either the wrapped handler is called with a non-empty token
  that \<^verbatim>\<open>getOrRefreshToken\<close> yielded for the authenticated user, or the outcome is fixed without
  the handler, and is then an error, an error result or a call that never returns.
\<close>

theorem RequireToken_gate:
  "(\<exists>u t w0 w1 w'. UserFromContext c = Some u \<and> t \<noteq> [] \<and>
      getOrRefreshToken p (Sub u) w0 = (Inr t, w1) \<and>
      (\<forall>next_h. RequireToken p ff next_h c req w = next_h (withToken c t) req w')) \<or>
   (\<exists>x. (\<forall>next_h. RequireToken p ff next_h c req w = x) \<and>
      (case x of Some (Inr r, w') \<Rightarrow> IsError r | _ \<Rightarrow> True))"
proof (cases "UserFromContext c")
  case None
  then show ?thesis by (intro disjI2) (auto simp: RequireToken_def error_result_def)
next
  case (Some u)
  obtain x w1 where g: "getOrRefreshToken p (Sub u) w = (x, w1)" by (cases "getOrRefreshToken p (Sub u) w")
  show ?thesis
  proof (cases "\<exists>t. x = Inr t \<and> t \<noteq> []")
    case True
    then obtain t where "x = Inr t" "t \<noteq> []" by blast
    with Some g show ?thesis
      by (intro disjI1 exI [of _ u] exI [of _ t] exI [of _ w] exI [of _ w1]) (simp add: RequireToken_def)
  next
    case False
    note no_token = this
    show ?thesis
    proof (cases "\<exists>t w2. \<not> ff \<and> x = Inr [] \<and> ensureTokenBlocking p (Session req) (Sub u) w1 = Some (Inr t, w2) \<and> t \<noteq> []")
      case True
      then obtain t w2 where b: "\<not> ff" "x = Inr []"
        "ensureTokenBlocking p (Session req) (Sub u) w1 = Some (Inr t, w2)" "t \<noteq> []" by blast
      from ensureTokenBlocking_token [OF b(3,4)] obtain w6 w7 where
        "getOrRefreshToken p (Sub u) w6 = (Inr t, w7)" by blast
      with Some g b show ?thesis
        by (intro disjI1 exI [of _ u] exI [of _ t] exI [of _ w6] exI [of _ w7] exI [of _ w2])
          (simp add: RequireToken_def)
    next
      case False
      with Some g no_token show ?thesis
        by (intro disjI2 exI [of _ "RequireToken p ff (\<lambda>_ _ _. None) c req w"])
          (auto simp: RequireToken_def error_result_def Let_def
            split: prod.splits option.splits sum.splits if_splits)
    qed
  qed
qed

text \<open>
  C40: the callback page echoes the \<^verbatim>\<open>error\<close> parameter of the redirect verbatim into its HTML, for
  every provider and every world: there is no escaping on this path, unlike on the pages of the
  credentials form.
\<close>

theorem callback_page_unescaped:
  assumes "values_Get (Query r) ''error'' = errCode" and "errCode \<noteq> []" and "values_Get (Query r) ''state'' = []"
  shows "\<exists>page pre post. HandleCallback p r w = Some (page, w) \<and> Body page = BodyText (pre @ errCode @ post)"
proof -
  let ?page = "writeCallbackPage 200 ''Authorization failed'' (errCode @ '': '' @ values_Get (Query r) ''error_description'')"
  have "HandleCallback p r w = Some (?page, w)"
    using assms by (simp add: HandleCallback_def Let_def)
  moreover have "Body ?page = BodyText ((''<!DOCTYPE html><html><head><title>'' @ ''Authorization failed'' @
      ''</title></head><body><h1>'' @ ''Authorization failed'' @ ''</h1><p>'') @ errCode @
      ('': '' @ values_Get (Query r) ''error_description'' @ ''</p></body></html>''))"
    by (simp add: writeCallbackPage_def)
  ultimately show ?thesis by blast
qed

theorem callback_page_unescaped_witness:
  "\<forall>(p :: host oauth_provider) w. \<exists>page pre post.
     HandleCallback p \<lparr>Method = ''GET'', Path = ''/callback'', Query = [(''error'', ''<script>'')],
       Header = (\<lambda>_. []), PostForm = Inr [], RContext = Map.empty\<rparr> w = Some (page, w) \<and>
     Body page = BodyText (pre @ ''<script>'' @ post)"
  by (intro allI callback_page_unescaped) (simp_all add: values_Get_def)

end
