(* ===== verification/Store_Memory.thy ===== *)
theory Store_Memory
  imports Store
begin

text \<open>
  The in-process backend, \<^verbatim>\<open>store/memory.go\<close>. \<open>MemoryTokenStore\<close> and
  \<open>MemoryPendingStore\<close> are the two structs. The map \<open>done_map\<close> (\<^verbatim>\<open>done\<close> in the source) of the pending store holds
  pointers to \<open>doneEntry\<close> objects that waiters keep using after they were removed from the map,
  so the objects live in an explicit heap and a pointer is an index into it. A buffered channel
  of capacity one is a list of at most one element.

  Every method runs under the mutex and is one atomic function, but \<open>WaitForResult\<close>: it is two
  critical sections with a \<^verbatim>\<open>select\<close> between them. The sections are separate definitions,
  composed sequentially in \<open>MemoryPendingStore_WaitForResult\<close>, and interleaved with any number of
  other waiters and callers in the step relation \<open>msys_step\<close> of \<open>Store_Memory_Concurrency\<close>.
\<close>

subsection \<open>Maps by value\<close>

definition cloneMap :: "gomap option \<Rightarrow> gomap option" where
  "cloneMap m = (case m of None \<Rightarrow> None | Some f \<Rightarrow> Some (Map.empty ++ f))"

subsection \<open>MemoryTokenStore\<close>

record MemoryTokenStore =
  data :: "string \<Rightarrow> gomap option option"

definition NewMemoryTokenStore :: MemoryTokenStore where
  "NewMemoryTokenStore = \<lparr>data = Map.empty\<rparr>"

definition MemoryTokenStore_Get ::
  "string \<Rightarrow> MemoryTokenStore \<Rightarrow> (go_error + gomap option) \<times> MemoryTokenStore" where
  "MemoryTokenStore_Get sub s =
     (case data s sub of None \<Rightarrow> (Inr None, s) | Some v \<Rightarrow> (Inr (cloneMap v), s))"

definition MemoryTokenStore_Set ::
  "string \<Rightarrow> gomap option \<Rightarrow> MemoryTokenStore \<Rightarrow> go_error option \<times> MemoryTokenStore" where
  "MemoryTokenStore_Set sub v s = (None, s\<lparr>data := (data s)(sub \<mapsto> cloneMap v)\<rparr>)"

definition MemoryTokenStore_Delete ::
  "string \<Rightarrow> MemoryTokenStore \<Rightarrow> go_error option \<times> MemoryTokenStore" where
  "MemoryTokenStore_Delete sub s = (None, s\<lparr>data := (data s)(sub := None)\<rparr>)"

subsection \<open>MemoryPendingStore\<close>

record pendingEntry =
  metadata :: "gomap option"
  expires :: go_time

record doneEntry =
  ch :: "gomap option list"
  dresult :: "gomap option"
  fired :: bool

record MemoryPendingStore =
  pending :: "string \<Rightarrow> pendingEntry option"
  done_map :: "string \<Rightarrow> nat option"
  dheap :: "doneEntry list"

definition NewMemoryPendingStore :: MemoryPendingStore where
  "NewMemoryPendingStore = \<lparr>pending = Map.empty, done_map = Map.empty, dheap = []\<rparr>"

definition MemoryPendingStore_Create ::
  "string \<Rightarrow> gomap option \<Rightarrow> int64 \<Rightarrow> MemoryPendingStore \<Rightarrow> 'a host_scheme
     \<Rightarrow> go_error option \<times> MemoryPendingStore \<times> 'a host_scheme" where
  "MemoryPendingStore_Create key m ttl s w =
     (let (now, w') = time_Now w;
          e = \<lparr>metadata = cloneMap m, expires = time_Add now (ttl * Second)\<rparr>
      in (None, s\<lparr>pending := (pending s)(key \<mapsto> e)\<rparr>, w'))"

definition MemoryPendingStore_Get ::
  "string \<Rightarrow> MemoryPendingStore \<Rightarrow> 'a host_scheme
     \<Rightarrow> (go_error + gomap option) \<times> MemoryPendingStore \<times> 'a host_scheme" where
  "MemoryPendingStore_Get key s w =
     (case pending s key of
        None \<Rightarrow> (Inr None, s\<lparr>pending := (pending s)(key := None)\<rparr>, w)
      | Some e \<Rightarrow>
          (let (now, w') = time_Now w
           in if time_After now (expires e)
              then (Inr None, s\<lparr>pending := (pending s)(key := None)\<rparr>, w')
              else (Inr (cloneMap (metadata e)), s, w')))"

definition MemoryPendingStore_Pop ::
  "string \<Rightarrow> MemoryPendingStore \<Rightarrow> 'a host_scheme
     \<Rightarrow> (go_error + gomap option) \<times> MemoryPendingStore \<times> 'a host_scheme" where
  "MemoryPendingStore_Pop key s w =
     (let s' = s\<lparr>pending := (pending s)(key := None)\<rparr>
      in case pending s key of
           None \<Rightarrow> (Inr None, s', w)
         | Some e \<Rightarrow>
             (let (now, w') = time_Now w
              in if time_After now (expires e) then (Inr None, s', w')
                 else (Inr (cloneMap (metadata e)), s', w')))"

text \<open>\<^verbatim>\<open>d, ok := s.done[key]; if !ok \{ d = \&doneEntry\{...\}; s.done[key] = d \}\<close>.\<close>

definition done_entry :: "string \<Rightarrow> MemoryPendingStore \<Rightarrow> nat \<times> MemoryPendingStore" where
  "done_entry key s =
     (case done_map s key of
        Some p \<Rightarrow> (p, s)
      | None \<Rightarrow>
          (let p = length (dheap s)
           in (p, s\<lparr>done_map := (done_map s)(key \<mapsto> p),
                   dheap := dheap s @ [\<lparr>ch = [], dresult = None, fired = False\<rparr>]\<rparr>)))"

text \<open>A send on a full channel of capacity one blocks, here for ever: the mutex is held.\<close>

definition chan_send :: "'a list \<Rightarrow> 'a \<Rightarrow> 'a list option" where
  "chan_send c x = (if length c < 1 then Some (c @ [x]) else None)"

definition MemoryPendingStore_SetResult ::
  "string \<Rightarrow> gomap option \<Rightarrow> int64 \<Rightarrow> MemoryPendingStore
     \<Rightarrow> (go_error option \<times> MemoryPendingStore) option" where
  "MemoryPendingStore_SetResult key result ttl s =
     (let (p, s1) = done_entry key s; d = dheap s1 ! p
      in if fired d then Some (None, s1)
         else case chan_send (ch d) (cloneMap result) of
                None \<Rightarrow> None
              | Some c \<Rightarrow>
                  Some (None, s1\<lparr>dheap := (dheap s1)[p :=
                    d\<lparr>fired := True, dresult := cloneMap result, ch := c\<rparr>]\<rparr>))"

subsection \<open>WaitForResult\<close>

text \<open>Receiving from the channel of the entry, and the second critical section.\<close>

definition wait_receive :: "nat \<Rightarrow> MemoryPendingStore \<Rightarrow> (gomap option \<times> MemoryPendingStore) option" where
  "wait_receive p s =
     (case ch (dheap s ! p) of
        [] \<Rightarrow> None
      | r # rest \<Rightarrow> Some (r, s\<lparr>dheap := (dheap s)[p := (dheap s ! p)\<lparr>ch := rest\<rparr>]\<rparr>))"

definition wait_consume :: "string \<Rightarrow> MemoryPendingStore \<Rightarrow> MemoryPendingStore" where
  "wait_consume key s = s\<lparr>done_map := (done_map s)(key := None)\<rparr>"

text \<open>
  What the scheduler reports when the parked goroutine is considered again: whether the timer
  has fired, whether the context is done, and which of the ready cases \<^verbatim>\<open>select\<close> picks.
\<close>

record wake =
  timer_fired :: bool
  ctx_done :: "go_error option"
  pick :: nat

datatype select_case = SelRecv | SelTimer | SelCtx go_error

definition ready_cases :: "bool \<Rightarrow> wake \<Rightarrow> select_case list" where
  "ready_cases chan_ready wk =
     (if chan_ready then [SelRecv] else []) @ (if timer_fired wk then [SelTimer] else []) @
     (case ctx_done wk of None \<Rightarrow> [] | Some e \<Rightarrow> [SelCtx e])"

definition select_pick :: "bool \<Rightarrow> wake \<Rightarrow> select_case option" where
  "select_pick chan_ready wk =
     (let rs = ready_cases chan_ready wk
      in if rs = [] then None else Some (rs ! (pick wk mod length rs)))"

text \<open>
  The whole method, on a world that holds the store where \<open>rd\<close> reads and \<open>wr\<close> writes it.
  The argument \<open>env\<close> is what the rest of the process does to the world while the goroutine is
  parked with a timer of the given duration; \<open>None\<close> if it is never considered again.
\<close>

definition MemoryPendingStore_WaitForResult ::
  "('a host_scheme \<Rightarrow> MemoryPendingStore)
     \<Rightarrow> (MemoryPendingStore \<Rightarrow> 'a host_scheme \<Rightarrow> 'a host_scheme)
     \<Rightarrow> (duration \<Rightarrow> 'a host_scheme \<Rightarrow> (wake \<times> 'a host_scheme) option)
     \<Rightarrow> string \<Rightarrow> float64 \<Rightarrow> 'a host_scheme
     \<Rightarrow> ((go_error + gomap option) \<times> 'a host_scheme) option" where
  "MemoryPendingStore_WaitForResult rd wr env key timeoutSeconds w =
     (let (p, s1) = done_entry key (rd w);
          timer = f64_to_int64 (f2i_oob w) (f64_scale timeoutSeconds 1000000000)
      in case env timer (wr s1 w) of
           None \<Rightarrow> None
         | Some (wk, w2) \<Rightarrow>
             (case select_pick (ch (dheap (rd w2) ! p) \<noteq> []) wk of
                None \<Rightarrow> None
              | Some SelTimer \<Rightarrow> Some (Inr None, w2)
              | Some (SelCtx e) \<Rightarrow> Some (Inl e, w2)
              | Some SelRecv \<Rightarrow>
                  (case wait_receive p (rd w2) of
                     None \<Rightarrow> None
                   | Some (r, s3) \<Rightarrow> Some (Inr r, wr (wait_consume key s3) w2))))"

subsection \<open>The interface values\<close>

definition memory_token_store ::
  "('w \<Rightarrow> MemoryTokenStore) \<Rightarrow> (MemoryTokenStore \<Rightarrow> 'w \<Rightarrow> 'w) \<Rightarrow> 'w token_store" where
  "memory_token_store rd wr =
     \<lparr>ts_Get = (\<lambda>sub w. let (r, s) = MemoryTokenStore_Get sub (rd w) in (r, wr s w)),
      ts_Set = (\<lambda>sub v w. let (e, s) = MemoryTokenStore_Set sub v (rd w) in (e, wr s w)),
      ts_Delete = (\<lambda>sub w. let (e, s) = MemoryTokenStore_Delete sub (rd w) in (e, wr s w))\<rparr>"

definition memory_pending_store ::
  "('a host_scheme \<Rightarrow> MemoryPendingStore)
     \<Rightarrow> (MemoryPendingStore \<Rightarrow> 'a host_scheme \<Rightarrow> 'a host_scheme)
     \<Rightarrow> (duration \<Rightarrow> 'a host_scheme \<Rightarrow> (wake \<times> 'a host_scheme) option)
     \<Rightarrow> 'a host_scheme pending_store" where
  "memory_pending_store rd wr env =
     \<lparr>ps_Create = (\<lambda>key m ttl w.
        let (e, s, w') = MemoryPendingStore_Create key m ttl (rd w) w in (e, wr s w')),
      ps_Get = (\<lambda>key w. let (r, s, w') = MemoryPendingStore_Get key (rd w) w in (r, wr s w')),
      ps_Pop = (\<lambda>key w. let (r, s, w') = MemoryPendingStore_Pop key (rd w) w in (r, wr s w')),
      ps_SetResult = (\<lambda>key m ttl w.
        case MemoryPendingStore_SetResult key m ttl (rd w) of
          None \<Rightarrow> None
        | Some (e, s) \<Rightarrow> Some (e, wr s w)),
      ps_WaitForResult = MemoryPendingStore_WaitForResult rd wr env\<rparr>"

lemmas [store_defs] =
  MemoryTokenStore_Get_def MemoryTokenStore_Set_def MemoryTokenStore_Delete_def
  MemoryPendingStore_Create_def MemoryPendingStore_Get_def MemoryPendingStore_Pop_def
  memory_token_store_def memory_pending_store_def

lemma cloneMap_id [simp]: "cloneMap m = m"
  by (simp add: cloneMap_def split: option.splits)


subsection \<open>The invariant of the pending store\<close>

text \<open>
  Every pointer of \<open>done_map\<close> is allocated, no two keys share an entry, and a channel holds
  something only when its entry has fired, and then the recorded result.
\<close>

definition entry_ok :: "doneEntry \<Rightarrow> bool" where
  "entry_ok d \<longleftrightarrow> ch d = [] \<or> fired d \<and> ch d = [dresult d]"

definition mem_inv :: "MemoryPendingStore \<Rightarrow> bool" where
  "mem_inv s \<longleftrightarrow>
     (\<forall>k p. done_map s k = Some p \<longrightarrow> p < length (dheap s)) \<and>
     (\<forall>k k' p. done_map s k = Some p \<and> done_map s k' = Some p \<longrightarrow> k = k') \<and>
     (\<forall>d \<in> set (dheap s). entry_ok d)"

lemma mem_invD:
  assumes "mem_inv s"
  shows "done_map s k = Some p \<Longrightarrow> p < length (dheap s)"
    and "done_map s k = Some p \<Longrightarrow> done_map s k' = Some p \<Longrightarrow> k = k'"
    and "p < length (dheap s) \<Longrightarrow> entry_ok (dheap s ! p)"
  using assms by (auto simp: mem_inv_def)

lemma mem_inv_new [simp]: "mem_inv NewMemoryPendingStore"
  by (simp add: mem_inv_def NewMemoryPendingStore_def)

lemma mem_inv_pending [simp]: "mem_inv (s\<lparr>pending := m\<rparr>) = mem_inv s"
  by (simp add: mem_inv_def)

lemma done_entry_props:
  assumes "done_entry key s = (p, s')" and "mem_inv s"
  shows "mem_inv s'" and "done_map s' key = Some p" and "p < length (dheap s')"
    and "pending s' = pending s"
    and "length (dheap s) \<le> length (dheap s')"
    and "\<And>q. q < length (dheap s) \<Longrightarrow> dheap s' ! q = dheap s ! q"
    and "\<And>k. k \<noteq> key \<Longrightarrow> done_map s' k = done_map s k"
    and "\<And>q. done_map s key = Some q \<Longrightarrow> p = q \<and> s' = s"
    and "done_map s key = None \<Longrightarrow>
           p = length (dheap s) \<and> dheap s' ! p = \<lparr>ch = [], dresult = None, fired = False\<rparr>"
    and "length (dheap s') \<le> Suc (length (dheap s))"
  using assms
  by (auto simp: done_entry_def mem_inv_def entry_ok_def Let_def nth_append split: option.splits if_splits)
    (fastforce+)?

lemma mem_inv_dheap_update:
  "mem_inv s \<Longrightarrow> entry_ok d \<Longrightarrow> mem_inv (s\<lparr>dheap := (dheap s)[p := d]\<rparr>)"
  by (auto simp: mem_inv_def dest!: set_update_subset_insert [THEN subsetD])

lemma SetResult_inv:
  assumes "MemoryPendingStore_SetResult key r ttl s = Some (e, s')" and "mem_inv s"
  shows "mem_inv s'"
proof -
  obtain p s1 where d: "done_entry key s = (p, s1)" by (cases "done_entry key s")
  note P = done_entry_props [OF d assms(2)]
  show ?thesis
    using assms(1) d P(1)
    by (auto simp: MemoryPendingStore_SetResult_def chan_send_def entry_ok_def Let_def
        split: if_splits intro!: mem_inv_dheap_update)
qed

lemma SetResult_total:
  assumes "mem_inv s"
  shows "\<exists>s'. MemoryPendingStore_SetResult key r ttl s = Some (None, s') \<and> mem_inv s'"
proof -
  obtain p s1 where d: "done_entry key s = (p, s1)" by (cases "done_entry key s")
  note P = done_entry_props [OF d assms]
  from mem_invD(3) [OF P(1) P(3)]
  have "\<exists>s'. MemoryPendingStore_SetResult key r ttl s = Some (None, s')"
    using d by (auto simp: MemoryPendingStore_SetResult_def chan_send_def entry_ok_def Let_def)
  with assms SetResult_inv show ?thesis by blast
qed

lemma wait_receive_inv:
  assumes "wait_receive p s = Some (r, s')" and "mem_inv s"
  shows "mem_inv s'"
proof (cases "p < length (dheap s)")
  case True
  with mem_invD(3) [OF assms(2) True] assms show ?thesis
    by (auto simp: wait_receive_def entry_ok_def split: list.splits intro!: mem_inv_dheap_update)
next
  case False
  with assms show ?thesis
    by (auto simp: wait_receive_def list_update_beyond split: list.splits)
qed

lemma wait_consume_inv: "mem_inv s \<Longrightarrow> mem_inv (wait_consume key s)"
  by (simp add: wait_consume_def mem_inv_def)

end
