(* ===== verification/Store_Memory_Contract.thy ===== *)
theory Store_Memory_Contract
  imports Store_Memory Gate
begin

text \<open>
  The in-process backend keeps the contracts of \<open>Store\<close>: both locales are interpreted on
  \<^const>\<open>memory_token_store\<close> and \<^const>\<open>memory_pending_store\<close>, in a world that extends the host
  with one store of each kind and the session register of a provider.
\<close>

record memory_world = host +
  w_tokens :: MemoryTokenStore
  w_pending :: MemoryPendingStore
  w_sessions :: "string \<Rightarrow> nat option"

definition wr_tokens :: "MemoryTokenStore \<Rightarrow> memory_world \<Rightarrow> memory_world" where
  "wr_tokens s w = w\<lparr>w_tokens := s\<rparr>"

definition wr_pending :: "MemoryPendingStore \<Rightarrow> memory_world \<Rightarrow> memory_world" where
  "wr_pending s w = w\<lparr>w_pending := s\<rparr>"

definition mem_lookup :: "memory_world \<Rightarrow> string \<Rightarrow> gomap option" where
  "mem_lookup w k = (case data (w_tokens w) k of None \<Rightarrow> None | Some v \<Rightarrow> v)"

text \<open>No waiter is between the receipt of a result and its removal.\<close>

definition mem_quiet :: "MemoryPendingStore \<Rightarrow> bool" where
  "mem_quiet s \<longleftrightarrow> mem_inv s \<and>
     (\<forall>k p. done_map s k = Some p \<and> fired (dheap s ! p) \<longrightarrow> ch (dheap s ! p) \<noteq> [])"

definition mem_entries :: "memory_world \<Rightarrow> string \<Rightarrow> (gomap option \<times> int) option" where
  "mem_entries w k = map_option (\<lambda>e. (metadata e, expires e)) (pending (w_pending w) k)"

definition store_signal :: "MemoryPendingStore \<Rightarrow> string \<Rightarrow> gomap option option" where
  "store_signal s k =
     (case done_map s k of
        None \<Rightarrow> None
      | Some p \<Rightarrow> if ch (dheap s ! p) = [] then None else Some (dresult (dheap s ! p)))"

text \<open>
  A scheduler that considers the parked goroutine at once, before its timer has fired and before
  the context is done.
\<close>

definition mem_prompt :: "(duration \<Rightarrow> memory_world \<Rightarrow> (wake \<times> memory_world) option)
    \<Rightarrow> string \<Rightarrow> float64 \<Rightarrow> memory_world \<Rightarrow> bool" where
  "mem_prompt env k t w \<longleftrightarrow>
     (\<forall>d w1. \<exists>n. env d w1 = Some (\<lparr>timer_fired = False, ctx_done = None, pick = n\<rparr>, w1))"

lemma mem_quiet_pending [simp]: "mem_quiet (s\<lparr>pending := m\<rparr>) = mem_quiet s"
  by (simp add: mem_quiet_def)

lemma store_signal_pending [simp]: "store_signal (s\<lparr>pending := m\<rparr>) = store_signal s"
  by (simp add: store_signal_def fun_eq_iff split: option.splits)

interpretation mem_ts: token_store_contract
  "memory_token_store w_tokens wr_tokens" "\<lambda>w. mem_quiet (w_pending w)" mem_lookup "\<lambda>_. True" "\<lambda>v. v" UNIV
  "\<lambda>w. w\<lparr>w_tokens := NewMemoryTokenStore\<rparr>"
  by unfold_locales
    (auto simp: store_defs mem_lookup_def wr_tokens_def split: option.splits)

lemma store_signal_set:
  assumes "mem_quiet s" and "store_signal s k = None"
  shows "\<exists>s'. MemoryPendingStore_SetResult k r ttl s = Some (None, s') \<and> mem_quiet s' \<and>
    pending s' = pending s \<and> (\<forall>k'. store_signal s' k' = (if k' = k then Some r else store_signal s k'))"
proof -
  from assms(1) have inv: "mem_inv s" by (simp add: mem_quiet_def)
  obtain p s1 where d: "done_entry k s = (p, s1)" by (cases "done_entry k s")
  note P = done_entry_props [OF d inv]
  have nf: "\<not> fired (dheap s1 ! p)" "ch (dheap s1 ! p) = []"
    using assms P(8,9) by (cases "done_map s k"; auto simp: mem_quiet_def store_signal_def split: if_splits)+
  define s' where "s' = s1\<lparr>dheap := (dheap s1)[p := (dheap s1 ! p)\<lparr>fired := True, dresult := r, ch := [r]\<rparr>]\<rparr>"
  have set: "MemoryPendingStore_SetResult k r ttl s = Some (None, s')"
    using d nf by (simp add: MemoryPendingStore_SetResult_def chan_send_def s'_def Let_def)
  have inv': "mem_inv s'" by (rule SetResult_inv [OF set inv])
  have other: "q \<noteq> p \<and> dheap s1 ! q = dheap s ! q \<and> done_map s k' = Some q"
    if "done_map s1 k' = Some q" "k' \<noteq> k" for k' q
  proof -
    have "q \<noteq> p" using mem_invD(2) [OF P(1) that(1)] P(2) that(2) by auto
    moreover have m: "done_map s k' = Some q" using that P(7) by simp
    moreover have "dheap s1 ! q = dheap s ! q" by (rule P(6) [OF mem_invD(1) [OF inv m]])
    ultimately show ?thesis by simp
  qed
  have "mem_quiet s'"
    unfolding mem_quiet_def
  proof (intro conjI allI impI)
    fix k' q
    assume q: "done_map s' k' = Some q \<and> fired (dheap s' ! q)"
    then show "ch (dheap s' ! q) \<noteq> []"
      using P(2,3) other [of k' q] assms(1)
      by (cases "k' = k") (auto simp: s'_def mem_quiet_def)
  qed (rule inv')
  moreover have "store_signal s' k' = (if k' = k then Some r else store_signal s k')" for k'
  proof (cases "k' = k")
    case False
    with P(7) other [of k'] show ?thesis
      by (cases "done_map s k'") (auto simp: s'_def store_signal_def)
  qed (use P(2,3) in \<open>simp add: s'_def store_signal_def\<close>)
  ultimately show ?thesis using set P(4) by (auto simp: s'_def)
qed

lemma store_signal_wait:
  assumes "mem_quiet s" and "store_signal s k = Some r"
  shows "\<exists>p s'. done_entry k s = (p, s) \<and> ch (dheap s ! p) \<noteq> [] \<and> wait_receive p s = Some (r, s') \<and>
    mem_quiet (wait_consume k s') \<and> pending (wait_consume k s') = pending s \<and>
    (\<forall>k'. store_signal (wait_consume k s') k' = (if k' = k then None else store_signal s k'))"
proof -
  from assms(1) have inv: "mem_inv s" by (simp add: mem_quiet_def)
  from assms(2) obtain p where p: "done_map s k = Some p" "ch (dheap s ! p) \<noteq> []" "dresult (dheap s ! p) = r"
    by (auto simp: store_signal_def split: option.splits if_splits)
  have l: "p < length (dheap s)" by (rule mem_invD(1) [OF inv p(1)])
  from mem_invD(3) [OF inv l] p have c: "ch (dheap s ! p) = [r]" by (auto simp: entry_ok_def)
  define s' where "s' = s\<lparr>dheap := (dheap s)[p := (dheap s ! p)\<lparr>ch := []\<rparr>]\<rparr>"
  have rc: "wait_receive p s = Some (r, s')" using c by (simp add: wait_receive_def s'_def)
  have other: "q \<noteq> p" if "done_map s k' = Some q" "k' \<noteq> k" for k' q
    using mem_invD(2) [OF inv that(1)] p(1) that(2) by auto
  have "mem_quiet (wait_consume k s')"
    unfolding mem_quiet_def
  proof (intro conjI allI impI)
    show "mem_inv (wait_consume k s')" by (rule wait_consume_inv [OF wait_receive_inv [OF rc inv]])
  next
    fix k' q
    assume q: "done_map (wait_consume k s') k' = Some q \<and> fired (dheap (wait_consume k s') ! q)"
    then have "done_map s k' = Some q" "k' \<noteq> k"
      by (auto simp: wait_consume_def s'_def split: if_splits)
    with other [of k' q] q assms(1) show "ch (dheap (wait_consume k s') ! q) \<noteq> []"
      by (auto simp: wait_consume_def s'_def mem_quiet_def)
  qed
  moreover have "store_signal (wait_consume k s') k' = (if k' = k then None else store_signal s k')" for k'
    using other [of k'] by (cases "k' = k"; cases "done_map s k'")
      (auto simp: wait_consume_def store_signal_def s'_def)
  ultimately show ?thesis
    using p rc by (auto simp: done_entry_def wait_consume_def s'_def)
qed

interpretation mem_ps: pending_store_contract
  "memory_pending_store w_pending wr_pending env" "\<lambda>w. mem_quiet (w_pending w)" mem_entries
  "\<lambda>w. store_signal (w_pending w)" "\<lambda>w. clock w (tick w)" "\<lambda>w. clock w (tick w)" "\<lambda>t ttl. t + sint (ttl * Second)"
  "\<lambda>t e. e < t" "\<lambda>_. True" "\<lambda>v. v" "mem_prompt env" "\<lambda>_ _. True" UNIV
  "\<lambda>w. (w_tokens w, w_sessions w, clock w, entropy w, faults w, f2i_oob w)"
  for env :: "duration \<Rightarrow> memory_world \<Rightarrow> (wake \<times> memory_world) option"
proof (unfold_locales, goal_cases)
  case (1 w k m ttl e w')
  then show ?case
    by (auto simp: store_defs go_runtime wr_pending_def mem_entries_def time_Add_def)
next
  case (2 w k x w')
  then show ?case
    by (auto simp: store_defs go_runtime wr_pending_def mem_entries_def time_After_def split: option.splits if_splits)
next
  case (3 w k x w')
  then show ?case
    by (auto simp: store_defs go_runtime wr_pending_def mem_entries_def time_After_def Let_def split: option.splits if_splits)
next
  case (4 w k r ttl)
  from store_signal_set [OF 4(1,4), of r ttl] show ?case
    by (auto simp: memory_pending_store_def wr_pending_def mem_entries_def)
next
  case (5 w k t r)
  from store_signal_wait [OF 5(1,4)] obtain p s' where
    "done_entry k (w_pending w) = (p, w_pending w)" and "ch (dheap (w_pending w) ! p) \<noteq> []"
    and "wait_receive p (w_pending w) = Some (r, s')"
    and "mem_quiet (wait_consume k s')" and "pending (wait_consume k s') = pending (w_pending w)"
    and "\<forall>k'. store_signal (wait_consume k s') k' = (if k' = k then None else store_signal (w_pending w) k')"
    by blast
  moreover obtain n where "env (f64_to_int64 (f2i_oob w) (f64_scale t 1000000000)) w =
      Some (\<lparr>timer_fired = False, ctx_done = None, pick = n\<rparr>, w)"
    using 5(3) by (meson mem_prompt_def)
  ultimately show ?case
    by (simp add: memory_pending_store_def MemoryPendingStore_WaitForResult_def
        select_pick_def ready_cases_def wr_pending_def mem_entries_def)
qed

interpretation mem: provider_stores
  "memory_token_store w_tokens wr_tokens" "memory_pending_store w_pending wr_pending env"
  "\<lambda>w. mem_quiet (w_pending w)" mem_lookup "\<lambda>_. True" "\<lambda>v. v" UNIV
  "\<lambda>w. w\<lparr>w_tokens := NewMemoryTokenStore\<rparr>" mem_entries "\<lambda>w. store_signal (w_pending w)"
  "\<lambda>w. clock w (tick w)" "\<lambda>w. clock w (tick w)" "\<lambda>t ttl. t + sint (ttl * Second)" "\<lambda>t e. e < t" "\<lambda>_. True" "\<lambda>v. v"
  "mem_prompt env" "\<lambda>_ _. True" UNIV "\<lambda>w. (w_tokens w, w_sessions w, clock w, entropy w, faults w, f2i_oob w)"
  for env :: "duration \<Rightarrow> memory_world \<Rightarrow> (wake \<times> memory_world) option"
proof (unfold_locales, goal_cases)
  case (1 w w' k)
  then show ?case by (simp add: mem_lookup_def)
next
  case (2 w w' k)
  then have "w_pending w = w_pending w'" by (cases w; cases w') simp
  then show ?case by (simp add: mem_entries_def)
next
  case (3 w w' k)
  then have "w_pending w = w_pending w'" by (cases w; cases w') simp
  then show ?case by simp
next
  case (8 w w')
  then show ?case by (cases w; cases w') auto
qed (auto simp: mem_lookup_def mem_entries_def)

end
