(* ===== verification/Oauth_Contract.thy ===== *)
theory Oauth_Contract
  imports Oauth_Provider Store_Memory_Contract
begin

text \<open>
  The flows of \<^verbatim>\<open>oauthprovider\<close> on any pair of stores that keep their contracts: what a stored
  or expiring token yields, what a callback with a live, an expired, an unknown or an already used
  state does, and that a blocking call whose user completes the authorization returns the token.
  The facts are proved once in \<open>provider_stores\<close> and are available for the in-process backend
  through its interpretation \<open>mem\<close>.
\<close>

context provider_stores
begin

text \<open>A stored token within the expiry buffer is refreshed in the store.\<close>

lemma getOrRefreshToken_refreshes:
  assumes u: "usable w" and sub: "sub \<in> tkeys" and pts: "tokenStore p = ts" and l: "lookup w sub = Some f"
    and e: "any_float (gomap_get (Some f) ''expires_at'') = Some e" "\<And>n. \<not> outlives_buffer (clock w n) e"
    and rt: "any_string (gomap_get (Some f) ''refresh_token'') = rt" "rt \<noteq> []"
    and r: "refreshTokenFn p = Some refresh" "\<And>w1. \<exists>w2. refresh rt w1 = (Inr new, w2) \<and> keeps w1 w2"
    and stor: "\<And>n. tstorable (Some (refreshed_entry new rt n))"
  shows "\<exists>w' n. getOrRefreshToken p sub w = (Inr (any_string (gomap_get new ''access_token'')), w') \<and>
    usable w' \<and> lookup w' sub = trepr (Some (refreshed_entry new rt (clock w n)))"
proof -
  obtain w1 where w1: "ts_Get ts sub w = (Inr (Some f), w1)" "keeps w w1"
    using get_eq [OF u sub] l by metis
  define w2 where "w2 = w1\<lparr>tick := Suc (tick w1)\<rparr>"
  obtain w3 where w3: "refresh rt w2 = (Inr new, w3)" "keeps w2 w3" using r(2) by blast
  have k: "keeps w w3" using w1(2) w3(2) keeps_tick [of w1 "Suc (tick w1)"] keeps_trans unfolding w2_def by metis
  have k4: "keeps w (w3\<lparr>tick := Suc (tick w3)\<rparr>)" using keeps_trans [OF k keeps_tick] .
  then have u4: "usable (w3\<lparr>tick := Suc (tick w3)\<rparr>)" using u by (simp add: keeps_def)
  obtain w5 where w5: "ts_Set ts sub (Some (refreshed_entry new rt (clock w3 (tick w3)))) (w3\<lparr>tick := Suc (tick w3)\<rparr>) = (None, w5)"
      "usable w5" and "\<forall>k \<in> tkeys. lookup w5 k = (if k = sub then trepr (Some (refreshed_entry new rt (clock w3 (tick w3))))
        else lookup (w3\<lparr>tick := Suc (tick w3)\<rparr>) k)"
    by (rule set_eq [OF u4 sub stor [of "clock w3 (tick w3)"]]) (rule that)
  then have l5: "lookup w5 sub = trepr (Some (refreshed_entry new rt (clock w3 (tick w3))))" using sub by simp
  have "try_refresh p sub (Some f) w2 = (Inr (any_string (gomap_get new ''access_token'')), w5)"
    by (rule try_refresh_stores [OF r(1) rt w3(1)]) (use w5(1) pts in simp)
  moreover have "\<not> outlives_buffer (clock w1 (tick w1)) e" using e(2) w1(2) by (simp add: keeps_def)
  ultimately have "getOrRefreshToken p sub w = (Inr (any_string (gomap_get new ''access_token'')), w5)"
    using w1(1) e(1) pts unfolding getOrRefreshToken_def time_Now_def w2_def by simp
  with w5(2) l5 k show ?thesis by (auto simp: keeps_def)
qed

lemma getOrRefreshToken_stored:
  assumes "usable w" and "sub \<in> tkeys" and "tokenStore p = ts" and "lookup w sub = Some f"
  obtains w1 where "keeps w w1"
    and "getOrRefreshToken p sub w =
      (case any_float (gomap_get (Some f) ''expires_at'') of
         None \<Rightarrow> (Inr (any_string (gomap_get (Some f) ''access_token'')), w1)
       | Some e \<Rightarrow>
           if outlives_buffer (clock w1 (tick w1)) e
           then (Inr (any_string (gomap_get (Some f) ''access_token'')), w1\<lparr>tick := Suc (tick w1)\<rparr>)
           else try_refresh p sub (Some f) (w1\<lparr>tick := Suc (tick w1)\<rparr>))"
proof -
  obtain w1 where "ts_Get ts sub w = (Inr (lookup w sub), w1)" and "keeps w w1"
    using get_eq [OF assms(1,2)] .
  with assms(3,4) show thesis
    by (intro that [of w1]) (auto simp: getOrRefreshToken_def time_Now_def split: option.splits)
qed

lemma callback_rejected:
  assumes "usable w" and "tokenStore p = ts" and "o_pendingStore p = ps"
    and "values_Get (Query r) ''error'' = []" and "values_Get (Query r) ''code'' \<noteq> []"
    and "values_Get (Query r) ''state'' = st" and "st \<noteq> []" and "st \<in> pkeys"
    and "\<forall>m t. entries w st = Some (m, t) \<longrightarrow> expired (now w) t \<or> m = None"
  obtains w1 where
    "HandleCallback p r w = Some (writeCallbackPage 400 ''Authorization failed''
       ''unknown or expired authorization request'', w1)"
    and "usable w1" and "clock w1 = clock w" and "\<forall>k \<in> tkeys. lookup w1 k = lookup w k"
    and "\<forall>k \<in> pkeys. signal w1 k = signal w k"
    and "\<forall>k \<in> pkeys. entries w1 k = (if k = st then None else entries w k)"
proof -
  obtain w1 where w1: "ps_Pop ps st w = (Inr None, w1)" "usable w1" "clock w1 = clock w"
    and f: "\<forall>k \<in> tkeys. lookup w1 k = lookup w k"
      "\<forall>k \<in> pkeys. entries w1 k = (if k = st then None else entries w k) \<and> signal w1 k = signal w k"
    by (rule pop_dead [OF assms(1,8,9)]) (rule that)
  from w1(1) have "HandleCallback p r w = Some (writeCallbackPage 400 ''Authorization failed''
       ''unknown or expired authorization request'', w1)"
    using assms(3-7) by (simp add: HandleCallback_def Let_def)
  with w1(2,3) f show thesis by (intro that [of w1]) auto
qed

lemma callback_accepted:
  assumes "usable w" and "tokenStore p = ts" and "o_pendingStore p = ps"
    and "values_Get (Query r) ''error'' = []" and "values_Get (Query r) ''code'' = code" and "code \<noteq> []"
    and "values_Get (Query r) ''state'' = st" and "st \<noteq> []" and "st \<in> pkeys"
    and "entries w st = Some (Some m, t)" and "\<not> expired (now w) t"
    and "any_string (gomap_get (Some m) ''sub'') = sub" and "sub \<in> tkeys"
    and exch: "\<And>w1. \<exists>w2. exchangeCode p code w1 = (Inr td, w2) \<and> keeps w1 w2"
    and "\<And>n. tstorable (Some (normalizeTokenData td n))" and "pstorable (signal_metadata sub)"
    and "signal w st = None" and "lasting w 120"
  obtains w' n where
    "HandleCallback p r w = Some (writeCallbackPage 200 ''Authorization successful''
       ''You can close this window and return to your MCP client.'', w')"
    and "usable w'" and "clock w' = clock w"
    and "\<forall>k \<in> tkeys. lookup w' k =
        (if k = sub then trepr (Some (normalizeTokenData td (clock w n))) else lookup w k)"
    and "\<forall>k \<in> pkeys. entries w' k = (if k = st then None else entries w k)"
    and "\<forall>k \<in> pkeys. signal w' k = (if k = st then Some (prepr (signal_metadata sub)) else signal w k)"
proof -
  obtain w1 where w1: "ps_Pop ps st w = (Inr (Some m), w1)" "usable w1" "clock w1 = clock w"
    and f1: "\<forall>k \<in> tkeys. lookup w1 k = lookup w k"
      "\<forall>k \<in> pkeys. entries w1 k = (if k = st then None else entries w k) \<and> signal w1 k = signal w k"
    by (rule pop_live [OF assms(1,9,10,11)]) (rule that)
  obtain w2 where w2: "exchangeCode p code w1 = (Inr td, w2)" "keeps w1 w2" using exch by blast
  define w3 where "w3 = w2\<lparr>tick := Suc (tick w2)\<rparr>"
  have k3: "keeps w1 w3" unfolding w3_def by (rule keeps_trans [OF w2(2) keeps_tick])
  define e where "e = Some (normalizeTokenData td (clock w2 (tick w2)))"
  have "usable w3" using k3 w1(2) by (simp add: keeps_def)
  then obtain w4 where w4: "ts_Set ts sub e w3 = (None, w4)" "usable w4" "clock w4 = clock w3"
    and f4: "\<forall>k \<in> tkeys. lookup w4 k = (if k = sub then trepr e else lookup w3 k)"
      "\<forall>k \<in> pkeys. entries w4 k = entries w3 k \<and> signal w4 k = signal w3 k"
    using set_eq [OF _ assms(13)] assms(15) unfolding e_def by metis
  have "signal w4 st = None" using f4(2) k3 f1(2) assms(9,17) by (simp add: keeps_def)
  moreover have l4: "lasting w4 120" using lasting_clock [of w4 w 120] assms(18) w4(3) k3 w1(3) by (simp add: keeps_def)
  ultimately obtain w5 where w5: "ps_SetResult ps st (signal_metadata sub) 120 w4 = Some (None, w5)" "usable w5"
      "clock w5 = clock w4"
    and f5: "\<forall>k \<in> tkeys. lookup w5 k = lookup w4 k"
      "\<forall>k \<in> pkeys. entries w5 k = entries w4 k \<and>
        signal w5 k = (if k = st then Some (prepr (signal_metadata sub)) else signal w4 k)"
    using set_result_eq [OF w4(2) assms(9,16)] l4 by metis
  have ck: "clock w2 = clock w" using w2(2) w1(3) by (simp add: keeps_def)
  have "HandleCallback p r w = Some (writeCallbackPage 200 ''Authorization successful''
       ''You can close this window and return to your MCP client.'', w5)"
    using assms(2-8,12) w1(1) w2(1) w4(1) w5(1)
    by (simp add: HandleCallback_def Let_def time_Now_def w3_def e_def)
  with w5(2) ck show thesis
    using f1 f4 f5 k3 w1(3) w4(3) w5(3) e_def
    by (intro that [of w5 "tick w2"]) (auto simp: keeps_def w3_def)
qed


text \<open>Whatever the outcome, a callback that carries a code uses its state up.\<close>

lemma callback_consumes:
  assumes "usable w" and "tokenStore p = ts" and "o_pendingStore p = ps"
    and "values_Get (Query r) ''error'' = []" and "values_Get (Query r) ''code'' \<noteq> []"
    and "values_Get (Query r) ''state'' = st" and "st \<noteq> []" and "st \<in> pkeys"
    and exch: "\<And>c w1. keeps w1 (snd (exchangeCode p c w1))"
    and sub: "\<forall>m t. entries w st = Some (Some m, t) \<longrightarrow> any_string (gomap_get (Some m) ''sub'') \<in> tkeys"
    and stor: "\<And>td n. tstorable (Some (normalizeTokenData td n))"
      "\<And>s. pstorable (signal_metadata s)" "\<And>s. pstorable (error_metadata s)"
    and "signal w st = None" and last: "lasting w 120"
  shows "\<exists>resp w'. HandleCallback p r w = Some (resp, w') \<and> usable w' \<and> entries w' st = None"
proof (cases "\<exists>m t. entries w st = Some (Some m, t) \<and> \<not> expired (now w) t")
  case False
  have "\<forall>m t. entries w st = Some (m, t) \<longrightarrow> expired (now w) t \<or> m = None" using False by auto
  then show ?thesis
    by (rule callback_rejected [OF assms(1-8)]) (use assms(8) in auto)
next
  case True
  then obtain m t where e: "entries w st = Some (Some m, t)" "\<not> expired (now w) t" by blast
  obtain w1 where w1: "ps_Pop ps st w = (Inr (Some m), w1)" "usable w1" "clock w1 = clock w"
    and f1: "\<forall>k \<in> pkeys. entries w1 k = (if k = st then None else entries w k) \<and> signal w1 k = signal w k"
    by (rule pop_live [OF assms(1,8) e]) (rule that)
  let ?code = "values_Get (Query r) ''code''" and ?sub = "any_string (gomap_get (Some m) ''sub'')"
  obtain x w2 where x: "exchangeCode p ?code w1 = (x, w2)" by (cases "exchangeCode p ?code w1")
  have k2: "usable w2" "entries w2 st = None" "signal w2 st = None" "clock w2 = clock w"
    using exch [of w1 ?code] x w1(2,3) f1 assms(8,14) by (auto simp: keeps_def)
  have sig: "\<exists>w'. ps_SetResult ps st r' 120 w4 = Some (None, w') \<and> usable w' \<and> entries w' st = None"
    if "usable w4" "entries w4 st = None" "signal w4 st = None" "clock w4 = clock w" "pstorable r'" for w4 r'
  proof -
    have "lasting w4 120" using lasting_clock [OF that(4)] last by simp
    then show ?thesis
      by (rule set_result_eq [OF that(1) assms(8) that(5,3)]) (use that(2) assms(8) in auto)
  qed
  show ?thesis
  proof (cases x)
    case (Inl err)
    then show ?thesis
      using sig [OF k2 stor(3) [of "''exchange_failed''"]] assms(3-7) w1(1) x by (auto simp: HandleCallback_def Let_def)
  next
    case (Inr td)
    define w3 where "w3 = w2\<lparr>tick := Suc (tick w2)\<rparr>"
    have k3: "usable w3" "entries w3 st = None" "signal w3 st = None" "clock w3 = clock w"
      using keeps_tick [of w2 "Suc (tick w2)"] k2 assms(8) unfolding w3_def by (auto simp: keeps_def)
    obtain w4 where w4: "ts_Set ts ?sub (Some (normalizeTokenData td (clock w2 (tick w2)))) w3 = (None, w4)" "usable w4" "clock w4 = clock w3"
      and f4: "\<forall>k \<in> pkeys. entries w4 k = entries w3 k \<and> signal w4 k = signal w3 k"
      by (rule set_eq [OF k3(1) sub [rule_format, OF e(1)] stor(1) [of td "clock w2 (tick w2)"]])
      (rule that)
    show ?thesis
      using sig [OF w4(2) _ _ _ stor(2) [of ?sub]] w4(3) f4 k3 assms(2-8) w1(1) x Inr w4(1)
      by (auto simp: HandleCallback_def Let_def time_Now_def w3_def)
  qed
qed

lemma callback_replay:
  assumes "usable w" and "tokenStore p = ts" and "o_pendingStore p = ps"
    and "values_Get (Query r) ''error'' = []" and "values_Get (Query r) ''code'' \<noteq> []"
    and "values_Get (Query r) ''state'' = st" and "st \<noteq> []" and "st \<in> pkeys"
    and "\<And>c w1. keeps w1 (snd (exchangeCode p c w1))"
    and "\<forall>m t. entries w st = Some (Some m, t) \<longrightarrow> any_string (gomap_get (Some m) ''sub'') \<in> tkeys"
    and "\<And>td n. tstorable (Some (normalizeTokenData td n))"
    and "\<And>s. pstorable (signal_metadata s)" and "\<And>s. pstorable (error_metadata s)"
    and "signal w st = None" and "lasting w 120"
    and r': "values_Get (Query r') ''error'' = []" "values_Get (Query r') ''code'' \<noteq> []"
      "values_Get (Query r') ''state'' = st"
  shows "\<exists>resp w1 w2. HandleCallback p r w = Some (resp, w1) \<and>
    HandleCallback p r' w1 = Some (writeCallbackPage 400 ''Authorization failed''
       ''unknown or expired authorization request'', w2) \<and>
    (\<forall>k \<in> tkeys. lookup w2 k = lookup w1 k) \<and> (\<forall>k \<in> pkeys. signal w2 k = signal w1 k)"
proof -
  from callback_consumes [OF assms(1-15)] obtain resp w1 where
    1: "HandleCallback p r w = Some (resp, w1)" "usable w1" "entries w1 st = None" by blast
  have "\<forall>m t. entries w1 st = Some (m, t) \<longrightarrow> expired (now w1) t \<or> m = None" using 1(3) by simp
  from callback_rejected [OF 1(2) assms(2,3) r' assms(7,8) this] obtain w2 where
    "HandleCallback p r' w1 = Some (writeCallbackPage 400 ''Authorization failed''
       ''unknown or expired authorization request'', w2)"
    "\<forall>k \<in> tkeys. lookup w2 k = lookup w1 k" "\<forall>k \<in> pkeys. signal w2 k = signal w1 k"
    by metis
  with 1(1) show ?thesis by blast
qed

text \<open>The browser side of a flow: the redirect carries a code and the state of the elicited URL.\<close>

lemma blocking_flow_completes:
  assumes u: "usable w" and pts: "tokenStore p = ts" and pps: "o_pendingStore p = ps"
    and sess: "\<And>m w. keeps w (o_sess_wr p m w)"
    and el: "\<And>prm w w' resp. HandleCallback p (cb prm) w = Some (resp, w') \<Longrightarrow>
        Elicit session prm w = Some (Inr ''accept'', w')"
    and cb: "\<And>prm. values_Get (Query (cb prm)) ''error'' = []"
        "\<And>prm. values_Get (Query (cb prm)) ''code'' = code"
        "\<And>st eid. values_Get (Query (cb (o_elicit_params p st eid))) ''state'' = st"
    and code: "code \<noteq> []" and sub: "sub \<in> tkeys"
    and st: "st = fst (generateID 24 w)" "st \<in> pkeys" "signal w st = None"
    and exch: "\<And>w1. \<exists>w2. exchangeCode p code w1 = (Inr td, w2) \<and> keeps w1 w2"
    and stor: "\<And>n. tstorable (Some (normalizeTokenData td n))" "pstorable (signal_metadata sub)"
        "pstorable (sub_metadata sub)"
    and prepr: "\<exists>m. prepr (sub_metadata sub) = Some m \<and> any_string (gomap_get (Some m) ''sub'') = sub"
        "prepr (signal_metadata sub) \<noteq> None"
    and live: "\<And>i j. \<not> expired (clock w i) (expiry (clock w j) (timeout_seconds (o_tokenTimeout p) w + 60))"
    and pr: "\<And>k t w. prompt k t w" and last: "lasting w 120"
    and fresh: "\<And>n. \<exists>f. trepr (Some (normalizeTokenData td (clock w n))) = Some f \<and>
        any_string (gomap_get (Some f) ''access_token'') = tok \<and>
        (\<forall>e i. any_float (gomap_get (Some f) ''expires_at'') = Some e \<longrightarrow> outlives_buffer (clock w i) e)"
  shows "\<exists>w'. ensureTokenBlocking p session sub w = Some (Inr tok, w')"
proof -
  let ?md = "sub_metadata sub"
  obtain w1 where g1: "generateID 24 w = (st, w1)" using st(1) by (cases "generateID 24 w") auto
  obtain eid w2 where g2: "generateID 16 w1 = (eid, w2)" by (cases "generateID 16 w1")
  have k2: "keeps w w2" using keeps_trans [OF keeps_generateID [OF g1] keeps_generateID [OF g2]] .
  define ttl where "ttl = timeout_seconds (o_tokenTimeout p) w2 + 60"
  have ttl: "ttl = timeout_seconds (o_tokenTimeout p) w + 60"
    using g1 g2 by (auto simp: ttl_def timeout_seconds_def generateID_eq)
  have "usable w2" using k2 u by (simp add: keeps_def)
  then obtain w3 where w3: "ps_Create ps st ?md ttl w2 = (None, w3)" "usable w3" "clock w3 = clock w2"
    and f3: "\<forall>k \<in> tkeys. lookup w3 k = lookup w2 k"
      "\<forall>k \<in> pkeys. signal w3 k = signal w2 k \<and>
        entries w3 k = (if k = st then Some (prepr ?md, expiry (stamp w2) ttl) else entries w2 k)"
    using create_eq [OF _ st(2) stor(3)] by metis
  define w4 where "w4 = o_sess_wr p ((o_sess_rd p w3)(st \<mapsto> sess_id session)) w3"
  have k4: "keeps w3 w4" unfolding w4_def by (rule sess)
  obtain m where m: "prepr ?md = Some m" "any_string (gomap_get (Some m) ''sub'') = sub"
    using prepr(1) by blast
  have u4: "usable w4" and e4: "entries w4 st = Some (Some m, expiry (stamp w2) ttl)"
    and s4: "signal w4 st = None" and c4: "clock w4 = clock w"
    using k4 w3 f3 k2 m(1) st(2,3) by (auto simp: keeps_def)
  have stne: "st \<noteq> []" unfolding st(1) by (simp add: generateID_nonempty)
  have ne: "\<not> expired (now w4) (expiry (stamp w2) ttl)"
    using now_clock [of w4] stamp_clock [of w2] c4 k2 live unfolding ttl by (auto simp: keeps_def)
  have l4: "lasting w4 120" using lasting_clock [OF c4] last by simp
  obtain w5 n where cb5: "HandleCallback p (cb (o_elicit_params p st eid)) w4 = Some (writeCallbackPage 200
       ''Authorization successful'' ''You can close this window and return to your MCP client.'', w5)"
    and u5: "usable w5" "clock w5 = clock w4"
    and f5: "\<forall>k \<in> tkeys. lookup w5 k =
        (if k = sub then trepr (Some (normalizeTokenData td (clock w4 n))) else lookup w4 k)"
      "\<forall>k \<in> pkeys. entries w5 k = (if k = st then None else entries w4 k)"
      "\<forall>k \<in> pkeys. signal w5 k = (if k = st then Some (prepr (signal_metadata sub)) else signal w4 k)"
    by (rule callback_accepted [OF u4 pts pps cb(1) cb(2) code cb(3) [of st eid] stne st(2) e4 ne m(2) sub exch stor(1,2) s4 l4]) (rule that)
  obtain s5 where s5: "signal w5 st = Some (Some s5)" using f5(3) st(2) prepr(2) by auto
  obtain w6 where w6: "ps_WaitForResult ps st (duration_Seconds (o_tokenTimeout p)) w5 = Some (Inr (Some s5), w6)"
    "usable w6" "clock w6 = clock w5" "\<forall>k \<in> tkeys. lookup w6 k = lookup w5 k"
    using wait_eq [OF u5(1) st(2) pr s5] by metis
  obtain f where f: "lookup w6 sub = Some f" "any_string (gomap_get (Some f) ''access_token'') = tok"
    "\<And>e i. any_float (gomap_get (Some f) ''expires_at'') = Some e \<Longrightarrow> outlives_buffer (clock w i) e"
    using fresh [of n] w6(4) f5(1) sub c4 by auto
  obtain w7 where k7: "keeps w6 w7" and g7: "getOrRefreshToken p sub w6 =
      (case any_float (gomap_get (Some f) ''expires_at'') of
         None \<Rightarrow> (Inr (any_string (gomap_get (Some f) ''access_token'')), w7)
       | Some e \<Rightarrow>
           if outlives_buffer (clock w7 (tick w7)) e
           then (Inr (any_string (gomap_get (Some f) ''access_token'')), w7\<lparr>tick := Suc (tick w7)\<rparr>)
           else try_refresh p sub (Some f) (w7\<lparr>tick := Suc (tick w7)\<rparr>))"
    using getOrRefreshToken_stored [OF w6(2) sub pts f(1)] .
  have "clock w7 = clock w" using k7 w6(3) u5(2) c4 by (simp add: keeps_def)
  then have "\<exists>w8. getOrRefreshToken p sub w6 = (Inr tok, w8)"
    using g7 f(2,3) by (auto split: option.splits)
  then show ?thesis
    using g1 g2 w3(1) el [OF cb5] w6(1) pps
    by (auto simp: ensureTokenBlocking_def Let_def ttl_def w4_def)
qed

end

end
