(* ===== verification/Url.thy ===== *)
theory Url
  imports Go_Runtime "HOL-Library.Char_ord" "HOL-Library.List_Lexorder" "HOL-Library.Multiset"
begin

text \<open>
  The parts of \<^verbatim>\<open>net/url\<close> the providers build and read URLs with: the escaping of a query
  component, \<^verbatim>\<open>url.Values.Encode\<close> and the parser behind \<^verbatim>\<open>URL.Query()\<close>. A
  \<^verbatim>\<open>url.Values\<close> with one value per key is the list of its pairs. The lemmas are the round
  trips: what is encoded into a query comes back when the query is parsed.
\<close>

definition upper_hex_digit :: "nat \<Rightarrow> char" where
  "upper_hex_digit n = ''0123456789ABCDEF'' ! n"

definition unreserved :: "char \<Rightarrow> bool" where
  "unreserved c \<longleftrightarrow>
     (let n = of_char c :: nat
      in 97 \<le> n \<and> n \<le> 122 \<or> 65 \<le> n \<and> n \<le> 90 \<or> 48 \<le> n \<and> n \<le> 57) \<or>
     c \<in> {CHR ''-'', CHR ''_'', CHR ''.'', CHR ''~''}"

definition query_escape_char :: "char \<Rightarrow> string" where
  "query_escape_char c =
     (if unreserved c then [c]
      else if c = CHR '' '' then ''+''
      else [CHR ''%'', upper_hex_digit (of_char c div 16), upper_hex_digit (of_char c mod 16)])"

definition url_QueryEscape :: "string \<Rightarrow> string" where
  "url_QueryEscape s = concat (map query_escape_char s)"

definition unhex :: "char \<Rightarrow> nat option" where
  "unhex c =
     (let n = of_char c :: nat
      in if 48 \<le> n \<and> n \<le> 57 then Some (n - 48)
         else if 97 \<le> n \<and> n \<le> 102 then Some (n - 97 + 10)
         else if 65 \<le> n \<and> n \<le> 70 then Some (n - 65 + 10)
         else None)"

text \<open>\<open>None\<close> is the escape error of \<^verbatim>\<open>url.QueryUnescape\<close>.\<close>

fun url_QueryUnescape :: "string \<Rightarrow> string option" where
  "url_QueryUnescape [] = Some []"
| "url_QueryUnescape (c # cs) =
     (if c = CHR ''%''
      then (case cs of
              a # b # r \<Rightarrow>
                (case (unhex a, unhex b) of
                   (Some x, Some y) \<Rightarrow> map_option (Cons (char_of (16 * x + y))) (url_QueryUnescape r)
                 | _ \<Rightarrow> None)
            | _ \<Rightarrow> None)
      else map_option (Cons (if c = CHR ''+'' then CHR '' '' else c)) (url_QueryUnescape cs))"

text \<open>\<^verbatim>\<open>strings.Cut\<close> at a one-byte separator.\<close>

definition strings_Cut :: "char \<Rightarrow> string \<Rightarrow> string \<times> string" where
  "strings_Cut sep s =
     (let before = takeWhile (\<lambda>c. c \<noteq> sep) s in (before, drop (Suc (length before)) s))"

definition query_pair :: "string \<times> string \<Rightarrow> string" where
  "query_pair kv = url_QueryEscape (fst kv) @ ''='' @ url_QueryEscape (snd kv)"

fun join_amp :: "string list \<Rightarrow> string" where
  "join_amp [] = []"
| "join_amp [x] = x"
| "join_amp (x # y # ys) = x @ ''&'' @ join_amp (y # ys)"

definition values_Encode :: "(string \<times> string) list \<Rightarrow> string" where
  "values_Encode vs = join_amp (map query_pair (sort_key fst vs))"

text \<open>The pairs of a segment: none when it is empty, holds a semicolon or does not unescape.\<close>

definition query_segment :: "string \<Rightarrow> (string \<times> string) list" where
  "query_segment seg =
     (if CHR '';'' \<in> set seg \<or> seg = [] then []
      else let (k, v) = strings_Cut (CHR ''='') seg
           in case (url_QueryUnescape k, url_QueryUnescape v) of
                (Some k', Some v') \<Rightarrow> [(k', v')]
              | _ \<Rightarrow> [])"

function url_ParseQuery :: "string \<Rightarrow> (string \<times> string) list" where
  "url_ParseQuery s =
     (if s = [] then []
      else let (seg, rest) = strings_Cut (CHR ''&'') s in query_segment seg @ url_ParseQuery rest)"
  by pat_completeness auto

termination url_ParseQuery
  by (relation "measure length") (auto simp: strings_Cut_def Let_def)

declare url_ParseQuery.simps [simp del]

subsection \<open>Round trips\<close>

lemma unhex_upper: "n < 16 \<Longrightarrow> unhex (upper_hex_digit n) = Some n"
proof -
  have "\<forall>n \<in> {0..<16}. unhex (upper_hex_digit n) = Some n" by code_simp
  then show "n < 16 \<Longrightarrow> unhex (upper_hex_digit n) = Some n" by simp
qed

lemma reserved_chars: "c \<in> set ''%+&=; '' \<Longrightarrow> \<not> unreserved c"
  by (auto simp: unreserved_def)

lemma char_of_37: "char_of (37 :: nat) = CHR ''%''"
  by code_simp

lemma unescape_char: "url_QueryUnescape (query_escape_char c @ t) = map_option (Cons c) (url_QueryUnescape t)"
  using reserved_chars [of "CHR ''%''"] reserved_chars [of "CHR ''+''"]
  by (auto simp: query_escape_char_def unhex_upper char_of_37 less_mult_imp_div_less split: option.splits)

lemma QueryUnescape_QueryEscape: "url_QueryUnescape (url_QueryEscape s) = Some s"
  unfolding url_QueryEscape_def by (induction s) (simp_all add: unescape_char)

lemma upper_hex_plain: "n < 16 \<Longrightarrow> upper_hex_digit n \<notin> set ''&=; <>%+''"
proof -
  have "\<forall>n \<in> {0..<16}. upper_hex_digit n \<notin> set ''&=; <>%+''" by code_simp
  then show "n < 16 \<Longrightarrow> upper_hex_digit n \<notin> set ''&=; <>%+''" by simp
qed

lemma escape_char_plain: "x \<in> set (query_escape_char c) \<Longrightarrow> x \<notin> {CHR ''&'', CHR ''='', CHR '';''}"
  using reserved_chars [of x] upper_hex_plain [of "of_char c div 16"] upper_hex_plain [of "of_char c mod 16"]
  by (auto simp: query_escape_char_def less_mult_imp_div_less split: if_splits)

lemma QueryEscape_plain: "x \<in> set (url_QueryEscape s) \<Longrightarrow> x \<notin> {CHR ''&'', CHR ''='', CHR '';''}"
  unfolding url_QueryEscape_def using escape_char_plain by fastforce

lemma Cut_append: "sep \<notin> set a \<Longrightarrow> strings_Cut sep (a @ sep # b) = (a, b)"
proof -
  assume "sep \<notin> set a"
  then have "takeWhile (\<lambda>c. c \<noteq> sep) (a @ sep # b) = a" by (induction a) auto
  then show ?thesis by (simp add: strings_Cut_def)
qed

lemma Cut_absent: "sep \<notin> set a \<Longrightarrow> strings_Cut sep a = (a, [])"
  unfolding strings_Cut_def Let_def by (subst takeWhile_eq_all_conv [THEN iffD2]) auto+

lemma query_segment_pair: "query_segment (query_pair kv) = [kv]"
proof -
  have "CHR ''='' \<notin> set (url_QueryEscape (fst kv))" using QueryEscape_plain by blast
  then have "strings_Cut (CHR ''='') (query_pair kv) = (url_QueryEscape (fst kv), url_QueryEscape (snd kv))"
    by (simp add: query_pair_def Cut_append)
  moreover have "CHR '';'' \<notin> set (query_pair kv)" using QueryEscape_plain by (auto simp: query_pair_def)
  ultimately show ?thesis
    by (simp add: query_segment_def QueryUnescape_QueryEscape) (simp add: query_pair_def)
qed

lemma query_pair_amp: "CHR ''&'' \<notin> set (query_pair kv)"
  using QueryEscape_plain by (auto simp: query_pair_def)

lemma query_pair_nonempty: "query_pair kv \<noteq> []"
  by (simp add: query_pair_def)

lemma ParseQuery_join: "url_ParseQuery (join_amp (map query_pair kvs)) = kvs"
proof (induction kvs rule: induct_list012)
  case 1
  show ?case by (simp add: url_ParseQuery.simps)
next
  case (2 x)
  show ?case
    by (simp add: url_ParseQuery.simps [of "query_pair x"] Cut_absent query_pair_amp query_segment_pair
        query_pair_nonempty) (simp add: url_ParseQuery.simps)
next
  case (3 x y zs)
  let ?t = "join_amp (map query_pair (y # zs))"
  have "url_ParseQuery (query_pair x @ CHR ''&'' # ?t) = query_segment (query_pair x) @ url_ParseQuery ?t"
    using Cut_append [OF query_pair_amp, of x ?t] by (subst url_ParseQuery.simps) simp
  with 3 show ?case by (simp add: query_segment_pair)
qed

lemma ParseQuery_Encode: "url_ParseQuery (values_Encode kvs) = sort_key fst kvs"
  by (simp add: values_Encode_def ParseQuery_join)

lemma map_of_sort_key: "distinct (map fst kvs) \<Longrightarrow> map_of (sort_key fst kvs) = map_of kvs"
proof -
  assume d: "distinct (map fst kvs)"
  have "mset (map fst (sort_key fst kvs)) = mset (map fst kvs)" by simp
  with d have "distinct (map fst (sort_key fst kvs))" by (metis mset_eq_imp_distinct_iff)
  with d show ?thesis by (metis map_of_inject_set set_sort)
qed

lemma QueryEscape_unreserved: "list_all unreserved s \<Longrightarrow> url_QueryEscape s = s"
  by (induction s) (auto simp: url_QueryEscape_def query_escape_char_def)

lemma hex_unreserved: "list_all unreserved (hex_EncodeToString bs)"
proof -
  have "\<forall>n \<in> {0..<16}. unreserved (hex_digit n)" by code_simp
  then show ?thesis
    by (induction bs) (auto simp: hex_EncodeToString_def hex_byte_def less_mult_imp_div_less)
qed

end
