(* ===== verification/Credentials_Provider.thy ===== *)
theory Credentials_Provider
  imports Gate Url
begin

text \<open>
  \<^verbatim>\<open>credentialsprovider/credentialsprovider.go\<close>: tool gating behind a self-hosted credentials
  form. The structure is that of \<open>Oauth_Provider\<close>. A \<^verbatim>\<open>range\<close> over the map of form variables
  visits it in an order the language leaves open: the functions that loop over it take the order
  of that loop as the argument \<open>ord\<close>, a rearrangement of the list of entries. The rendering of
  non-ASCII runes by \<^verbatim>\<open>%q\<close> is the argument \<open>q\<close>.
\<close>

subsection \<open>Data\<close>

type_synonym FieldType = string

definition FieldText :: FieldType where "FieldText = ''text''"

definition FieldPassword :: FieldType where "FieldPassword = ''password''"

definition FieldURL :: FieldType where "FieldURL = ''url''"

definition FieldTextarea :: FieldType where "FieldTextarea = ''textarea''"

record Variable =
  Label :: string
  VType :: FieldType
  Hint :: string
  Required :: bool

definition NewVariable :: "string \<Rightarrow> FieldType \<Rightarrow> Variable" where
  "NewVariable label fieldType = \<lparr>Label = label, VType = fieldType, Hint = [], Required = True\<rparr>"

type_synonym variables = "(string \<times> Variable) list"

record 'w creds_provider =
  c_name :: string
  c_variables :: variables
  c_serverBaseURL :: string
  credsStore :: "'w token_store"
  c_pendingStore :: "'w pending_store"
  c_doc :: string
  c_tokenTimeout :: duration
  entryPath :: string
  submitPath :: string
  c_sess_rd :: "'w \<Rightarrow> string \<Rightarrow> nat option"
  c_sess_wr :: "(string \<Rightarrow> nat option) \<Rightarrow> 'w \<Rightarrow> 'w"

definition c_OpenPaths :: "'w creds_provider \<Rightarrow> string list" where
  "c_OpenPaths p = [entryPath p, submitPath p]"

definition InvalidateCredentials :: "'w creds_provider \<Rightarrow> string \<Rightarrow> 'w \<Rightarrow> go_error option \<times> 'w" where
  "InvalidateCredentials p sub w = ts_Delete (credsStore p) sub w"

definition c_errPromptDeclined :: go_error where
  "c_errPromptDeclined = ErrNew ''credentialsprovider: user declined the credentials prompt''"

subsection \<open>The gate\<close>

definition withCredentials :: "ctx \<Rightarrow> gomap option \<Rightarrow> ctx" where
  "withCredentials c creds = WithValue c CredentialsContextKey (VCreds creds)"

definition CredentialsFromContext :: "ctx \<Rightarrow> gomap option option" where
  "CredentialsFromContext c =
     (case c CredentialsContextKey of Some (VCreds m) \<Rightarrow> Some m | _ \<Rightarrow> None)"

definition entryURL :: "'w creds_provider \<Rightarrow> string \<Rightarrow> string" where
  "entryURL p entryToken = c_serverBaseURL p @ entryPath p @ ''?t='' @ entryToken"

definition c_elicit_params :: "'w creds_provider \<Rightarrow> string \<Rightarrow> string \<Rightarrow> elicit_params" where
  "c_elicit_params p entryToken elicitationID =
     \<lparr>Mode = ''url'',
      Message = ''Provide '' @ c_name p @ '' credentials to continue'',
      URL = entryURL p entryToken,
      ElicitationID = elicitationID\<rparr>"

definition c_sub_metadata :: "string \<Rightarrow> gomap option" where
  "c_sub_metadata sub = Some [''sub'' \<mapsto> AStr sub]"

definition c_buildFailFastError ::
  "'a host_scheme creds_provider \<Rightarrow> string \<Rightarrow> 'a host_scheme \<Rightarrow> go_error \<times> 'a host_scheme" where
  "c_buildFailFastError p sub w =
     (let (entryToken, w1) = generateID 32 w;
          (elicitationID, w2) = generateID 16 w1;
          (_, w3) = ps_Create (c_pendingStore p) entryToken (c_sub_metadata sub)
                      (timeout_seconds (c_tokenTimeout p) w2) w2
      in (URLElicitationRequired [c_elicit_params p entryToken elicitationID], w3))"

definition c_unregister :: "'w creds_provider \<Rightarrow> string \<Rightarrow> 'w \<Rightarrow> 'w" where
  "c_unregister p entryToken w = c_sess_wr p ((c_sess_rd p w)(entryToken := None)) w"

definition ensureCredentialsBlocking ::
  "'a host_scheme creds_provider \<Rightarrow> 'a host_scheme session \<Rightarrow> string \<Rightarrow> 'a host_scheme
     \<Rightarrow> ((go_error + gomap option) \<times> 'a host_scheme) option" where
  "ensureCredentialsBlocking p session sub w =
     (let (entryToken, w1) = generateID 32 w;
          (elicitationID, w2) = generateID 16 w1
      in case ps_Create (c_pendingStore p) entryToken (c_sub_metadata sub)
                (timeout_seconds (c_tokenTimeout p) w2) w2 of
           (Some e, w3) \<Rightarrow> Some (Inl (Errorw ''credentialsprovider: creating pending entry: %w'' [] e), w3)
         | (None, w3) \<Rightarrow>
    (let w4 = c_sess_wr p ((c_sess_rd p w3)(entryToken \<mapsto> sess_id session)) w3
     in case Elicit session (c_elicit_params p entryToken elicitationID) w4 of
          None \<Rightarrow> None
        | Some (Inl e, w5) \<Rightarrow>
            Some (Inl (Errorw ''credentialsprovider: elicitation request failed: %w'' [] e),
                  c_unregister p entryToken w5)
        | Some (Inr action, w5) \<Rightarrow>
            if action \<noteq> ''accept''
            then Some (Inl c_errPromptDeclined,
                       c_unregister p entryToken (snd (ps_Pop (c_pendingStore p) entryToken w5)))
            else (case ps_WaitForResult (c_pendingStore p) entryToken
                         (duration_Seconds (c_tokenTimeout p)) w5 of
                   None \<Rightarrow> None
                 | Some (Inl e, w6) \<Rightarrow>
                     Some (Inl (Errorw ''credentialsprovider: waiting for submission: %w'' [] e),
                           c_unregister p entryToken w6)
                 | Some (Inr None, w6) \<Rightarrow> Some (Inr None, c_unregister p entryToken w6)
                 | Some (Inr (Some _), w6) \<Rightarrow>
                     (let (x, w7) = ts_Get (credsStore p) sub w6
                      in Some (x, c_unregister p entryToken w7)))))"

definition RequireCredentials ::
  "'a host_scheme creds_provider \<Rightarrow> bool \<Rightarrow> 'a host_scheme tool_handler \<Rightarrow> 'a host_scheme tool_handler" where
  "RequireCredentials p failFast next_h c req w =
     (case UserFromContext c of
        None \<Rightarrow> Some (Inr (error_result ''credentialsprovider: no authenticated user in context''), w)
      | Some user \<Rightarrow>
    (let sub = Sub user
     in case ts_Get (credsStore p) sub w of
          (Inl e, w1) \<Rightarrow> Some (Inl (Errorw ''credentialsprovider: checking existing credentials: %w'' [] e), w1)
        | (Inr (Some creds), w1) \<Rightarrow> next_h (withCredentials c (Some creds)) req w1
        | (Inr None, w1) \<Rightarrow>
            if failFast
            then (let (e, w2) = c_buildFailFastError p sub w1 in Some (Inl e, w2))
            else (case ensureCredentialsBlocking p (Session req) sub w1 of
                   None \<Rightarrow> None
                 | Some (Inl e, w2) \<Rightarrow> Some (Inl e, w2)
                 | Some (Inr None, w2) \<Rightarrow>
                     Some (Inr (error_result (c_name p @ '' credentials were not provided'')), w2)
                 | Some (Inr (Some creds), w2) \<Rightarrow> next_h (withCredentials c (Some creds)) req w2)))"

subsection \<open>Pages\<close>

definition quoted :: "string \<Rightarrow> string" where
  "quoted s = [CHR 0x22] @ s @ [CHR 0x22]"

definition html_page :: "nat \<Rightarrow> string \<Rightarrow> response" where
  "html_page status body =
     \<lparr>Status = status, Headers = [''Content-Type'' \<mapsto> ''text/html; charset=utf-8''], Body = BodyText body\<rparr>"

definition writeStatusPage :: "nat \<Rightarrow> string \<Rightarrow> string \<Rightarrow> response" where
  "writeStatusPage status title message =
     html_page status
       (''<!DOCTYPE html><html><head><title>'' @ html_EscapeString title @ ''</title></head><body><h1>'' @
        html_EscapeString title @ ''</h1><p>'' @ html_EscapeString message @ ''</p></body></html>'')"

definition requiredAttr :: "bool \<Rightarrow> string" where
  "requiredAttr required = (if required then '' required'' else [])"

text \<open>The body of the loop over the form variables.\<close>

definition form_field :: "string \<times> Variable \<Rightarrow> string" where
  "form_field fv =
     (let (fieldName, v) = fv;
          inputType = (if VType v = FieldPassword then ''password''
                       else if VType v = FieldURL then ''url'' else ''text'')
      in ''<label>'' @ html_EscapeString (Label v) @ ''</label>'' @
         (if VType v = FieldTextarea
          then ''<textarea name='' @ quoted (html_EscapeString fieldName) @ '' autocomplete='' @ quoted ''off'' @
               requiredAttr (Required v) @ ''></textarea>''
          else ''<input type='' @ quoted inputType @ '' name='' @ quoted (html_EscapeString fieldName) @
               '' autocomplete='' @ quoted ''off'' @ requiredAttr (Required v) @ ''>'') @
         (if Hint v \<noteq> [] then ''<small>'' @ html_EscapeString (Hint v) @ ''</small>'' else []))"

definition writeEntryForm :: "string \<Rightarrow> string \<Rightarrow> variables \<Rightarrow> string \<Rightarrow> response" where
  "writeEntryForm name submitURL variables doc =
     html_page 200
       (''<!DOCTYPE html><html><head><title>'' @ html_EscapeString name @
        '' credentials</title></head><body>'' @
        ''<h1>'' @ html_EscapeString name @ '' credentials</h1>'' @
        ''<p>Your credentials are stored securely on the MCP server and are never exposed to the AI assistant.</p>'' @
        (if doc \<noteq> [] then ''<pre>'' @ html_EscapeString doc @ ''</pre>'' else []) @
        ''<form method='' @ quoted ''POST'' @ '' action='' @ quoted (html_EscapeString submitURL) @ ''>'' @
        concat (map form_field variables) @
        ''<button type='' @ quoted ''submit'' @ ''>Save</button></form></body></html>'')"

subsection \<open>The form handlers\<close>

definition em_dash :: string where
  "em_dash = [CHR 0xE2, CHR 0x80, CHR 0x94]"

definition HandleEntry ::
  "'a host_scheme creds_provider \<Rightarrow> (variables \<Rightarrow> variables) \<Rightarrow> request \<Rightarrow> 'a host_scheme
     \<Rightarrow> response \<times> 'a host_scheme" where
  "HandleEntry p ord r w =
     (let entryToken = values_Get (Query r) ''t''
      in if entryToken = [] then (writeStatusPage 400 ''Error'' ''Missing entry token'', w)
         else (case ps_Get (c_pendingStore p) entryToken w of
                (Inr (Some _), w1) \<Rightarrow>
                  (writeEntryForm (c_name p) (submitPath p @ ''?t='' @ url_QueryEscape entryToken)
                     (ord (c_variables p)) (c_doc p), w1)
              | (_, w1) \<Rightarrow>
                  (writeStatusPage 400 ''Error''
                     (''This link has expired or is invalid '' @ em_dash @
                      '' please retry from your MCP client.''), w1)))"

text \<open>The collecting loop: the label of the first required field left blank, or the collected map.\<close>

fun collect_fields :: "(string \<times> string) list \<Rightarrow> variables \<Rightarrow> gomap \<Rightarrow> string + gomap" where
  "collect_fields form [] collected = Inr collected"
| "collect_fields form ((name, v) # vs) collected =
     (let val = values_Get form name
      in if Required v \<and> strings_TrimSpace val = [] then Inl (Label v)
         else collect_fields form vs (collected(name \<mapsto> AStr val)))"

definition c_signal_metadata :: "string \<Rightarrow> gomap option" where
  "c_signal_metadata sub = Some [''sub'' \<mapsto> AStr sub, ''_elicit_sent'' \<mapsto> ABool False]"

definition saved_message :: "string \<Rightarrow> string" where
  "saved_message name =
     ''Your '' @ name @ '' credentials were saved. Your credentials are stored securely on the MCP server '' @
     ''and are never exposed to the AI assistant. You can close this window and return to your MCP client.''"

definition used_link_page :: response where
  "used_link_page =
     writeStatusPage 400 ''Error'' ''This link has expired, is invalid, or was already used.''"

definition HandleSubmit ::
  "(string \<Rightarrow> string \<times> nat) \<Rightarrow> 'a host_scheme creds_provider \<Rightarrow> (variables \<Rightarrow> variables) \<Rightarrow> request
     \<Rightarrow> 'a host_scheme \<Rightarrow> (response \<times> 'a host_scheme) option" where
  "HandleSubmit q p ord r w =
     (let entryToken = values_Get (Query r) ''t''
      in if entryToken = [] then Some (writeStatusPage 400 ''Error'' ''Missing entry token'', w)
         else (case ps_Pop (c_pendingStore p) entryToken w of
                (Inl e, w1) \<Rightarrow> Some (used_link_page, w1)
              | (Inr None, w1) \<Rightarrow> Some (used_link_page, w1)
              | (Inr (Some pending), w1) \<Rightarrow>
    (let sub = any_string (gomap_get (Some pending) ''sub'')
     in case PostForm r of
          Inl e \<Rightarrow> Some (writeStatusPage 400 ''Error'' ''Invalid form submission'', w1)
        | Inr form \<Rightarrow>
            (case collect_fields form (ord (c_variables p)) Map.empty of
               Inl label \<Rightarrow>
                 Some (writeStatusPage 400 ''Error'' (''Field '' @ strconv_Quote q label @ '' is required''), w1)
             | Inr collected \<Rightarrow>
                 (case ts_Set (credsStore p) sub (Some collected) w1 of
                    (Some e, w2) \<Rightarrow> Some (writeStatusPage 500 ''Error'' ''Storing credentials failed'', w2)
                  | (None, w2) \<Rightarrow>
                      map_option (\<lambda>(_, w3).
                          (writeStatusPage 200 ''Success'' (saved_message (c_name p)), w3))
                        (ps_SetResult (c_pendingStore p) entryToken (c_signal_metadata sub) 120 w2))))))"

lemmas [provider_defs] = c_sub_metadata_def c_signal_metadata_def withCredentials_def
  CredentialsFromContext_def

subsection \<open>Behaviour of the operations\<close>

text \<open>An order of iteration visits every entry once.\<close>

definition range_order :: "(variables \<Rightarrow> variables) \<Rightarrow> bool" where
  "range_order ord \<longleftrightarrow> (\<forall>vs. mset (ord vs) = mset vs)"

lemma range_order_set: "range_order ord \<Longrightarrow> set (ord vs) = set vs"
  unfolding range_order_def by (metis set_mset_mset)

lemma CredentialsFromContext_withCredentials [simp]:
  "CredentialsFromContext (withCredentials c m) = Some m"
  by (simp add: provider_defs http_defs)

text \<open>The loop succeeds exactly when every required field is filled in, and then keeps every value.\<close>

lemma collect_fields_ok:
  "(\<forall>(name, v) \<in> set vs. Required v \<longrightarrow> strings_TrimSpace (values_Get form name) \<noteq> []) \<Longrightarrow>
     collect_fields form vs m =
       Inr (\<lambda>k. if k \<in> fst ` set vs then Some (AStr (values_Get form k)) else m k)"
  by (induction vs arbitrary: m) (auto simp: fun_eq_iff Let_def)

lemma collect_fields_missing:
  assumes "(name, v) \<in> set vs" and "Required v" and "strings_TrimSpace (values_Get form name) = []"
  shows "\<exists>n u. (n, u) \<in> set vs \<and> Required u \<and> strings_TrimSpace (values_Get form n) = [] \<and>
    collect_fields form vs m = Inl (Label u)"
  using assms(1)
proof (induction vs arbitrary: m)
  case (Cons x vs)
  obtain n u where x: "x = (n, u)" by (cases x)
  show ?case
  proof (cases "Required u \<and> strings_TrimSpace (values_Get form n) = []")
    case True
    with x show ?thesis by (intro exI [of _ n] exI [of _ u]) (simp add: Let_def)
  next
    case False
    with Cons.prems assms x have "(name, v) \<in> set vs" by auto
    from Cons.IH [OF this] obtain n' u' where "(n', u') \<in> set vs" "Required u'"
      "strings_TrimSpace (values_Get form n') = []"
      "collect_fields form vs (m(n \<mapsto> AStr (values_Get form n))) = Inl (Label u')" by blast
    with False x show ?thesis by (intro exI [of _ n'] exI [of _ u']) (auto simp: Let_def)
  qed
qed simp

text \<open>What the form asks for, whatever order the map is visited in.\<close>

definition form_complete :: "(string \<times> string) list \<Rightarrow> variables \<Rightarrow> bool" where
  "form_complete form vs \<longleftrightarrow>
     list_all (\<lambda>(name, v). Required v \<longrightarrow> strings_TrimSpace (values_Get form name) \<noteq> []) vs"

definition form_values :: "(string \<times> string) list \<Rightarrow> variables \<Rightarrow> gomap" where
  "form_values form vs k = (if k \<in> fst ` set vs then Some (AStr (values_Get form k)) else None)"

lemma collect_fields_complete:
  assumes "set vs' = set vs" and "form_complete form vs"
  shows "collect_fields form vs' Map.empty = Inr (form_values form vs)"
  using assms collect_fields_ok [of vs' form Map.empty]
  by (auto simp: form_complete_def form_values_def list_all_iff fun_eq_iff)

lemma collect_fields_incomplete:
  assumes "set vs' = set vs" and "\<not> form_complete form vs"
  shows "\<exists>l. collect_fields form vs' Map.empty = Inl l"
proof -
  from assms obtain name v where "(name, v) \<in> set vs'" "Required v" "strings_TrimSpace (values_Get form name) = []"
    by (auto simp: form_complete_def list_all_iff)
  from collect_fields_missing [OF this, of Map.empty] show ?thesis by blast
qed

lemma ensureCredentialsBlocking_creds:
  assumes "ensureCredentialsBlocking p session sub w = Some (Inr (Some m), w')"
  shows "\<exists>w6 w7. ts_Get (credsStore p) sub w6 = (Inr (Some m), w7)"
  using assms
  by (auto simp: ensureCredentialsBlocking_def Let_def
      split: prod.splits option.splits sum.splits if_splits)

lemma ensureCredentialsBlocking_unregisters:
  assumes "\<And>m w. c_sess_rd p (c_sess_wr p m w) = m"
    and "ensureCredentialsBlocking p session sub w = Some (x, w')"
  shows "c_sess_rd p w' (fst (generateID 32 w)) = None \<or>
    (\<exists>e. x = Inl (Errorw ''credentialsprovider: creating pending entry: %w'' [] e))"
  using assms(2)
  by (auto simp: ensureCredentialsBlocking_def Let_def c_unregister_def assms(1)
      split: prod.splits option.splits sum.splits if_splits)

text \<open>
  C8: the gate of \<^verbatim>\<open>RequireCredentials\<close>. Either the wrapped handler is called with the non-nil
  credentials the store holds for the authenticated user, or the outcome is fixed without the
  handler, and is then an error, an error result or a call that never returns.
\<close>

theorem RequireCredentials_gate:
  "(\<exists>u m w0 w1 w'. UserFromContext c = Some u \<and>
      ts_Get (credsStore p) (Sub u) w0 = (Inr (Some m), w1) \<and>
      (\<forall>next_h. RequireCredentials p ff next_h c req w = next_h (withCredentials c (Some m)) req w')) \<or>
   (\<exists>x. (\<forall>next_h. RequireCredentials p ff next_h c req w = x) \<and>
      (case x of Some (Inr r, w') \<Rightarrow> IsError r | _ \<Rightarrow> True))"
proof (cases "UserFromContext c")
  case None
  then show ?thesis by (intro disjI2) (auto simp: RequireCredentials_def error_result_def)
next
  case (Some u)
  obtain x w1 where g: "ts_Get (credsStore p) (Sub u) w = (x, w1)" by (cases "ts_Get (credsStore p) (Sub u) w")
  show ?thesis
  proof (cases "\<exists>m. x = Inr (Some m)")
    case True
    then obtain m where "x = Inr (Some m)" by blast
    with Some g show ?thesis
      by (intro disjI1 exI [of _ u] exI [of _ m] exI [of _ w] exI [of _ w1]) (simp add: RequireCredentials_def)
  next
    case False
    note no_creds = this
    show ?thesis
    proof (cases "\<exists>m w2. \<not> ff \<and> x = Inr None \<and>
        ensureCredentialsBlocking p (Session req) (Sub u) w1 = Some (Inr (Some m), w2)")
      case True
      then obtain m w2 where b: "\<not> ff" "x = Inr None"
        "ensureCredentialsBlocking p (Session req) (Sub u) w1 = Some (Inr (Some m), w2)" by blast
      from ensureCredentialsBlocking_creds [OF b(3)] obtain w6 w7 where
        "ts_Get (credsStore p) (Sub u) w6 = (Inr (Some m), w7)" by blast
      with Some g b show ?thesis
        by (intro disjI1 exI [of _ u] exI [of _ m] exI [of _ w6] exI [of _ w7] exI [of _ w2])
          (simp add: RequireCredentials_def)
    next
      case False
      with Some g no_creds show ?thesis
        by (intro disjI2 exI [of _ "RequireCredentials p ff (\<lambda>_ _ _. None) c req w"])
          (auto simp: RequireCredentials_def error_result_def Let_def
            split: prod.splits option.splits sum.splits if_splits)
    qed
  qed
qed

subsection \<open>The pages carry no foreign markup\<close>

text \<open>The characters that can open or close a tag or an attribute.\<close>

definition markup :: "string \<Rightarrow> string" where
  "markup s = filter (\<lambda>c. c \<in> {CHR ''<'', CHR ''>'', CHR 0x22, CHR 0x27}) s"

definition page_markup :: "response \<Rightarrow> string" where
  "page_markup r = (case Body r of BodyText b \<Rightarrow> markup b | _ \<Rightarrow> [])"

definition blank_field :: "string \<times> Variable \<Rightarrow> string \<times> Variable" where
  "blank_field fv =
     ([], (snd fv)\<lparr>Label := [], Hint := (if Hint (snd fv) = [] then [] else ''x'')\<rparr>)"

lemma markup_append: "markup (a @ b) = markup a @ markup b"
  by (simp add: markup_def)

lemma markup_escaped: "markup (html_EscapeString s) = []"
  using html_EscapeString_safe [of s] by (auto simp: markup_def filter_empty_conv)

lemmas markup_simps = markup_append markup_escaped

lemma markup_form_field: "markup (form_field fv) = markup (form_field (blank_field fv))"
proof (cases "Hint (snd fv) = []")
  case True
  then show ?thesis by (cases fv) (simp add: form_field_def blank_field_def Let_def quoted_def markup_simps del: append_Cons)
next
  case False
  then show ?thesis by (cases fv) (simp add: form_field_def blank_field_def Let_def quoted_def markup_simps del: append_Cons)
qed

text \<open>
  C38: the markup of a status page does not depend on its title and its message: text from the
  request cannot open or close a tag or an attribute.
\<close>

theorem status_page_injection_free:
  "page_markup (writeStatusPage status title message) = page_markup (writeStatusPage status [] [])"
  by (simp add: page_markup_def writeStatusPage_def html_page_def markup_simps del: append_Cons)

text \<open>
  C39: the markup of the credentials form depends on the kinds of its fields only, not on the
  provider name, the submit URL, the documentation, the labels, the names or the hints.
\<close>

theorem entry_form_injection_free:
  "page_markup (writeEntryForm name url vs doc) =
     page_markup (writeEntryForm [] [] (map blank_field vs) (if doc = [] then [] else ''x''))"
proof -
  have "markup (concat (map form_field vs)) = markup (concat (map form_field (map blank_field vs)))"
    by (induction vs) (simp_all add: markup_append markup_form_field [symmetric])
  then show ?thesis
    by (simp add: page_markup_def writeEntryForm_def html_page_def quoted_def markup_simps del: append_Cons)
qed

end
