(* ===== verification/Credentials_Contract.thy ===== *)
theory Credentials_Contract
  imports Credentials_Provider Store_Memory_Contract
begin

text \<open>
  The flows of \<^verbatim>\<open>credentialsprovider\<close> on any pair of stores that keep their contracts: what a
  submitted form does with a live, a dead and an already used link, and that a blocking call whose
  user completes the form returns the submitted values. Proved once in \<open>provider_stores\<close>.
\<close>

context provider_stores
begin

lemma submit_rejected:
  assumes "usable w" and "credsStore p = ts" and "c_pendingStore p = ps"
    and "values_Get (Query r) ''t'' = tk" and "tk \<noteq> []" and "tk \<in> pkeys"
    and "\<forall>m t. entries w tk = Some (m, t) \<longrightarrow> expired (now w) t \<or> m = None"
  obtains w1 where "HandleSubmit q p ord r w = Some (used_link_page, w1)"
    and "usable w1" and "clock w1 = clock w" and "\<forall>k \<in> tkeys. lookup w1 k = lookup w k"
    and "\<forall>k \<in> pkeys. entries w1 k = (if k = tk then None else entries w k) \<and> signal w1 k = signal w k"
proof -
  obtain w1 where w1: "ps_Pop ps tk w = (Inr None, w1)" "usable w1" "clock w1 = clock w"
    "\<forall>k \<in> tkeys. lookup w1 k = lookup w k"
    "\<forall>k \<in> pkeys. entries w1 k = (if k = tk then None else entries w k) \<and> signal w1 k = signal w k"
    by (rule pop_dead [OF assms(1,6,7)]) (rule that)
  moreover have "HandleSubmit q p ord r w = Some (used_link_page, w1)"
    using w1(1) assms(3-5) by (simp add: HandleSubmit_def Let_def)
  ultimately show thesis by (intro that [of w1])
qed

lemma submit_accepted:
  assumes "usable w" and "credsStore p = ts" and "c_pendingStore p = ps"
    and "values_Get (Query r) ''t'' = tk" and "tk \<noteq> []" and "tk \<in> pkeys"
    and "entries w tk = Some (Some m, t)" and "\<not> expired (now w) t"
    and "any_string (gomap_get (Some m) ''sub'') = sub" and "sub \<in> tkeys"
    and "PostForm r = Inr form" and "range_order ord"
    and "form_complete form (c_variables p)"
    and "tstorable (Some (form_values form (c_variables p)))" and "pstorable (c_signal_metadata sub)"
    and "signal w tk = None" and "lasting w 120"
  obtains w' where
    "HandleSubmit q p ord r w = Some (writeStatusPage 200 ''Success'' (saved_message (c_name p)), w')"
    and "usable w'" and "clock w' = clock w"
    and "\<forall>k \<in> tkeys. lookup w' k =
        (if k = sub then trepr (Some (form_values form (c_variables p))) else lookup w k)"
    and "\<forall>k \<in> pkeys. entries w' k = (if k = tk then None else entries w k) \<and>
        signal w' k = (if k = tk then Some (prepr (c_signal_metadata sub)) else signal w k)"
proof -
  let ?v = "Some (form_values form (c_variables p))"
  obtain w1 where w1: "ps_Pop ps tk w = (Inr (Some m), w1)" "usable w1" "clock w1 = clock w"
    and f1: "\<forall>k \<in> tkeys. lookup w1 k = lookup w k"
      "\<forall>k \<in> pkeys. entries w1 k = (if k = tk then None else entries w k) \<and> signal w1 k = signal w k"
    by (rule pop_live [OF assms(1,6,7,8)]) (rule that)
  obtain w2 where w2: "ts_Set ts sub ?v w1 = (None, w2)" "usable w2" "clock w2 = clock w1"
    and f2: "\<forall>k \<in> tkeys. lookup w2 k = (if k = sub then trepr ?v else lookup w1 k)"
      "\<forall>k \<in> pkeys. entries w2 k = entries w1 k \<and> signal w2 k = signal w1 k"
    by (rule set_eq [OF w1(2) assms(10,14)]) (rule that)
  have "signal w2 tk = None" using f1(2) f2(2) assms(6,16) by simp
  moreover have "lasting w2 120" using lasting_clock [of w2 w 120] assms(17) w2(3) w1(3) by simp
  ultimately obtain w3 where w3: "ps_SetResult ps tk (c_signal_metadata sub) 120 w2 = Some (None, w3)" "usable w3"
      "clock w3 = clock w2" "\<forall>k \<in> tkeys. lookup w3 k = lookup w2 k"
    and f3: "\<forall>k \<in> pkeys. entries w3 k = entries w2 k \<and>
        signal w3 k = (if k = tk then Some (prepr (c_signal_metadata sub)) else signal w2 k)"
    using set_result_eq [OF w2(2) assms(6,15)] by metis
  have "HandleSubmit q p ord r w = Some (writeStatusPage 200 ''Success'' (saved_message (c_name p)), w3)"
    using assms(2-5,9,11) collect_fields_complete [OF range_order_set [OF assms(12)] assms(13)] w1(1) w2(1) w3(1)
    by (simp add: HandleSubmit_def Let_def)
  with w3(2) show thesis
    using f1 f2 f3 w1(3) w2(3) w3(3,4) by (intro that [of w3]) auto
qed

text \<open>A form that does not parse or misses a required field stores nothing, but uses the link up.\<close>

lemma submit_refused:
  assumes "usable w" and "c_pendingStore p = ps"
    and "values_Get (Query r) ''t'' = tk" and "tk \<noteq> []" and "tk \<in> pkeys"
    and "entries w tk = Some (Some m, t)" and "\<not> expired (now w) t" and "range_order ord"
    and bad: "\<not> (\<exists>form. PostForm r = Inr form \<and> form_complete form (c_variables p))"
  obtains resp w1 where "HandleSubmit q p ord r w = Some (resp, w1)" and "Status resp = 400"
    and "usable w1" and "\<forall>k \<in> tkeys. lookup w1 k = lookup w k"
    and "\<forall>k \<in> pkeys. entries w1 k = (if k = tk then None else entries w k) \<and> signal w1 k = signal w k"
proof -
  obtain w1 where w1: "ps_Pop ps tk w = (Inr (Some m), w1)" "usable w1" "clock w1 = clock w"
    "\<forall>k \<in> tkeys. lookup w1 k = lookup w k"
    "\<forall>k \<in> pkeys. entries w1 k = (if k = tk then None else entries w k) \<and> signal w1 k = signal w k"
    by (rule pop_live [OF assms(1,5,6,7)]) (rule that)
  have "\<exists>resp. HandleSubmit q p ord r w = Some (resp, w1) \<and> Status resp = 400"
  proof (cases "PostForm r")
    case (Inl err)
    then show ?thesis
      using w1(1) assms(2-4) by (simp add: HandleSubmit_def Let_def writeStatusPage_def html_page_def)
  next
    case (Inr form)
    with bad have "\<not> form_complete form (c_variables p)" by auto
    from collect_fields_incomplete [OF range_order_set [OF assms(8)] this] Inr show ?thesis
      using w1(1) assms(2-4) by (auto simp: HandleSubmit_def Let_def writeStatusPage_def html_page_def)
  qed
  with w1(2,4,5) show thesis by (blast intro: that)
qed

text \<open>The single-use guarantee: whatever became of the first submission, the second is rejected.\<close>

lemma submit_consumes:
  assumes "usable w" and "credsStore p = ts" and "c_pendingStore p = ps"
    and "values_Get (Query r) ''t'' = tk" and "tk \<noteq> []" and "tk \<in> pkeys"
    and sub: "\<forall>m t. entries w tk = Some (Some m, t) \<longrightarrow> any_string (gomap_get (Some m) ''sub'') \<in> tkeys"
    and ord: "range_order ord"
    and stor: "\<And>form. tstorable (Some (form_values form (c_variables p)))" "\<And>s. pstorable (c_signal_metadata s)"
    and "signal w tk = None" and "lasting w 120"
  shows "\<exists>resp w'. HandleSubmit q p ord r w = Some (resp, w') \<and> usable w' \<and> entries w' tk = None"
proof (cases "\<exists>m t. entries w tk = Some (Some m, t) \<and> \<not> expired (now w) t")
  case False
  then have "\<forall>m t. entries w tk = Some (m, t) \<longrightarrow> expired (now w) t \<or> m = None" by auto
  then show ?thesis by (rule submit_rejected [OF assms(1-6), of q ord]) (use assms(6) in auto)
next
  case True
  then obtain m t where e: "entries w tk = Some (Some m, t)" "\<not> expired (now w) t" by blast
  show ?thesis
  proof (cases "\<exists>form. PostForm r = Inr form \<and> form_complete form (c_variables p)")
    case True
    then obtain form where f: "PostForm r = Inr form" "form_complete form (c_variables p)" by blast
    from submit_accepted [OF assms(1-6) e refl sub [rule_format, OF e(1)] f(1) ord f(2) stor assms(11,12)]
    show ?thesis using assms(6) by metis
  next
    case False
    show ?thesis
      by (rule submit_refused [OF assms(1,3-6) e ord False, of q]) (use assms(6) in auto)
  qed
qed

lemma submit_replay:
  assumes "usable w" and "credsStore p = ts" and "c_pendingStore p = ps"
    and "values_Get (Query r) ''t'' = tk" and "tk \<noteq> []" and "tk \<in> pkeys"
    and "\<forall>m t. entries w tk = Some (Some m, t) \<longrightarrow> any_string (gomap_get (Some m) ''sub'') \<in> tkeys"
    and "range_order ord"
    and "\<And>form. tstorable (Some (form_values form (c_variables p)))" and "\<And>s. pstorable (c_signal_metadata s)"
    and "signal w tk = None" and "lasting w 120" and r': "values_Get (Query r') ''t'' = tk"
  shows "\<exists>resp w1 w2. HandleSubmit q p ord r w = Some (resp, w1) \<and>
    HandleSubmit q p ord' r' w1 = Some (used_link_page, w2) \<and>
    (\<forall>k \<in> tkeys. lookup w2 k = lookup w1 k) \<and> (\<forall>k \<in> pkeys. signal w2 k = signal w1 k)"
proof -
  from submit_consumes [OF assms(1-12)] obtain resp w1 where
    1: "HandleSubmit q p ord r w = Some (resp, w1)" "usable w1" "entries w1 tk = None" by blast
  have "\<forall>m t. entries w1 tk = Some (m, t) \<longrightarrow> expired (now w1) t \<or> m = None" using 1(3) by simp
  from submit_rejected [OF 1(2) assms(2,3) r' assms(5,6) this, of q ord'] obtain w2 where
    "HandleSubmit q p ord' r' w1 = Some (used_link_page, w2)"
    "\<forall>k \<in> tkeys. lookup w2 k = lookup w1 k" "\<forall>k \<in> pkeys. signal w2 k = signal w1 k" by metis
  with 1(1) show ?thesis by blast
qed

text \<open>
  The browser side of a flow: the user opens the elicited link and submits a complete form while
  the session's elicitation call is in progress.
\<close>

lemma credentials_flow_completes:
  assumes u: "usable w" and pts: "credsStore p = ts" and pps: "c_pendingStore p = ps"
    and sess: "\<And>m w. keeps w (c_sess_wr p m w)"
    and el: "\<And>prm w w' resp. HandleSubmit q p ord (sb prm) w = Some (resp, w') \<Longrightarrow>
        Elicit session prm w = Some (Inr ''accept'', w')"
    and sb: "\<And>tk eid. values_Get (Query (sb (c_elicit_params p tk eid))) ''t'' = tk"
        "\<And>prm. PostForm (sb prm) = Inr form"
    and ord: "range_order ord" and fc: "form_complete form (c_variables p)"
    and sub: "sub \<in> tkeys"
    and tk: "tk = fst (generateID 32 w)" "tk \<in> pkeys" "signal w tk = None"
    and stor: "tstorable (Some (form_values form (c_variables p)))" "pstorable (c_signal_metadata sub)"
        "pstorable (c_sub_metadata sub)"
    and prepr: "\<exists>m. prepr (c_sub_metadata sub) = Some m \<and> any_string (gomap_get (Some m) ''sub'') = sub"
        "prepr (c_signal_metadata sub) \<noteq> None"
    and live: "\<And>i j. \<not> expired (clock w i) (expiry (clock w j) (timeout_seconds (c_tokenTimeout p) w))"
    and pr: "\<And>k t w. prompt k t w" and last: "lasting w 120"
  shows "\<exists>w'. ensureCredentialsBlocking p session sub w =
    Some (Inr (trepr (Some (form_values form (c_variables p)))), w')"
proof -
  let ?md = "c_sub_metadata sub" and ?v = "Some (form_values form (c_variables p))"
  obtain w1 where g1: "generateID 32 w = (tk, w1)" using tk(1) by (cases "generateID 32 w") auto
  obtain eid w2 where g2: "generateID 16 w1 = (eid, w2)" by (cases "generateID 16 w1")
  have k2: "keeps w w2" using keeps_trans [OF keeps_generateID [OF g1] keeps_generateID [OF g2]] .
  define ttl where "ttl = timeout_seconds (c_tokenTimeout p) w2"
  have ttl: "ttl = timeout_seconds (c_tokenTimeout p) w"
    using g1 g2 by (auto simp: ttl_def timeout_seconds_def generateID_eq)
  have "usable w2" using k2 u by (simp add: keeps_def)
  then obtain w3 where w3: "ps_Create ps tk ?md ttl w2 = (None, w3)" "usable w3" "clock w3 = clock w2"
      "\<forall>k \<in> tkeys. lookup w3 k = lookup w2 k"
    and f3: "\<forall>k \<in> pkeys. signal w3 k = signal w2 k \<and>
        entries w3 k = (if k = tk then Some (prepr ?md, expiry (stamp w2) ttl) else entries w2 k)"
    using create_eq [OF _ tk(2) stor(3)] by metis
  define w4 where "w4 = c_sess_wr p ((c_sess_rd p w3)(tk \<mapsto> sess_id session)) w3"
  have k4: "keeps w3 w4" unfolding w4_def by (rule sess)
  obtain m where m: "prepr ?md = Some m" "any_string (gomap_get (Some m) ''sub'') = sub"
    using prepr(1) by blast
  have u4: "usable w4" and e4: "entries w4 tk = Some (Some m, expiry (stamp w2) ttl)"
    and s4: "signal w4 tk = None" and c4: "clock w4 = clock w"
    using k4 w3 f3 k2 m(1) tk(2,3) by (auto simp: keeps_def)
  have tkne: "tk \<noteq> []" unfolding tk(1) by (simp add: generateID_nonempty)
  have ne: "\<not> expired (now w4) (expiry (stamp w2) ttl)"
    using now_clock [of w4] stamp_clock [of w2] c4 k2 live unfolding ttl by (auto simp: keeps_def)
  have l4: "lasting w4 120" using lasting_clock [OF c4] last by simp
  obtain w5 where s5: "HandleSubmit q p ord (sb (c_elicit_params p tk eid)) w4 =
      Some (writeStatusPage 200 ''Success'' (saved_message (c_name p)), w5)" "usable w5" "clock w5 = clock w4"
    and f5: "\<forall>k \<in> tkeys. lookup w5 k = (if k = sub then trepr ?v else lookup w4 k)"
      "\<forall>k \<in> pkeys. entries w5 k = (if k = tk then None else entries w4 k) \<and>
        signal w5 k = (if k = tk then Some (prepr (c_signal_metadata sub)) else signal w4 k)"
    by (rule submit_accepted [OF u4 pts pps sb(1) [of tk eid] tkne tk(2) e4 ne m(2) sub sb(2) ord fc stor(1,2) s4 l4])
      (rule that)
  obtain r where r: "signal w5 tk = Some (Some r)" using f5(2) tk(2) prepr(2) by auto
  obtain w6 where w6: "ps_WaitForResult ps tk (duration_Seconds (c_tokenTimeout p)) w5 = Some (Inr (Some r), w6)"
    "usable w6" "\<forall>k \<in> tkeys. lookup w6 k = lookup w5 k"
    using wait_eq [OF s5(2) tk(2) pr r] by metis
  obtain w7 where "ts_Get ts sub w6 = (Inr (lookup w6 sub), w7)" using get_eq [OF w6(2) sub] by metis
  moreover have "lookup w6 sub = trepr ?v" using w6(3) f5(1) sub by simp
  ultimately show ?thesis
    using g1 g2 w3(1) el [OF s5(1)] w6(1) pps pts
    by (auto simp: ensureCredentialsBlocking_def Let_def ttl_def w4_def)
qed

end

end
