(* ===== verification/Demo.thy ===== *)
theory Demo
  imports Oauth_Contract Credentials_Contract
begin

text \<open>
  Concrete instances for the witnesses of the flow properties: a world of the in-process backend, an
  OAuth and a credentials provider on it, and an MCP session whose user completes the external flow
  while the elicitation is in progress.
\<close>

definition demo_world :: memory_world where
  "demo_world = \<lparr>clock = (\<lambda>_. 0), entropy = (\<lambda>_ _. CHR ''a''), faults = (\<lambda>_. None), f2i_oob = (\<lambda>_. 0), tick = 0,
     w_tokens = NewMemoryTokenStore, w_pending = NewMemoryPendingStore, w_sessions = Map.empty\<rparr>"

definition demo_env :: "duration \<Rightarrow> memory_world \<Rightarrow> (wake \<times> memory_world) option" where
  "demo_env d w = Some (\<lparr>timer_fired = False, ctx_done = None, pick = 0\<rparr>, w)"

definition demo_token :: "gomap option" where
  "demo_token = Some [''access_token'' \<mapsto> AStr ''tok'', ''expires_in'' \<mapsto> AFloat (Fin 3600)]"

definition demo_oauth :: "memory_world oauth_provider" where
  "demo_oauth =
     \<lparr>o_name = ''demo'', buildAuthURL = (\<lambda>state _. state),
      exchangeCode = (\<lambda>_ w. (Inr demo_token, w)), redirectURI = [], callbackPath = ''/callback'',
      tokenStore = memory_token_store w_tokens wr_tokens,
      o_pendingStore = memory_pending_store w_pending wr_pending demo_env,
      refreshTokenFn = Some (\<lambda>_ w. (Inr demo_token, w)), o_tokenTimeout = 120 * Second,
      o_sess_rd = w_sessions, o_sess_wr = (\<lambda>m w. w\<lparr>w_sessions := m\<rparr>)\<rparr>"

definition demo_user :: User where
  "demo_user = \<lparr>Sub = ''u1'', PreferredUsername = [], Email = [], UName = [], Issuer = [], Claims = None\<rparr>"

definition get_request :: "(string \<times> string) list \<Rightarrow> request" where
  "get_request q = \<lparr>Method = ''GET'', Path = ''/callback'', Query = q, Header = (\<lambda>_. []), PostForm = Inr [],
     RContext = Map.empty\<rparr>"

definition demo_redirect :: "elicit_params \<Rightarrow> request" where
  "demo_redirect prm = get_request [(''code'', ''c''), (''state'', URL prm)]"

definition demo_call :: "memory_world CallToolRequest" where
  "demo_call = \<lparr>Session = \<lparr>sess_id = 0, Elicit = (\<lambda>prm w.
       map_option (\<lambda>(_, w'). (Inr ''accept'', w')) (HandleCallback demo_oauth (demo_redirect prm) w))\<rparr>,
     Arguments = []\<rparr>"

lemmas demo_defs = demo_world_def demo_env_def demo_token_def demo_oauth_def demo_user_def get_request_def
  demo_redirect_def demo_call_def

definition demo_creds :: "memory_world creds_provider" where
  "demo_creds =
     \<lparr>c_name = ''demo'', c_variables = [(''pat'', NewVariable ''Token'' FieldPassword)],
      c_serverBaseURL = [], credsStore = memory_token_store w_tokens wr_tokens,
      c_pendingStore = memory_pending_store w_pending wr_pending demo_env, c_doc = [],
      c_tokenTimeout = 300 * Second, entryPath = ''/credentials/demo/entry'',
      submitPath = ''/credentials/demo/submit'', c_sess_rd = w_sessions,
      c_sess_wr = (\<lambda>m w. w\<lparr>w_sessions := m\<rparr>)\<rparr>"

definition demo_form :: "(string \<times> string) list" where
  "demo_form = [(''pat'', ''secret'')]"

text \<open>The browser submits the form of the link: the token follows the question mark of the URL.\<close>

definition demo_post :: "elicit_params \<Rightarrow> request" where
  "demo_post prm = (get_request [(''t'', drop 26 (URL prm))])\<lparr>Method := ''POST'', PostForm := Inr demo_form\<rparr>"

definition demo_creds_call :: "memory_world CallToolRequest" where
  "demo_creds_call = \<lparr>Session = \<lparr>sess_id = 0, Elicit = (\<lambda>prm w.
       map_option (\<lambda>(_, w'). (Inr ''accept'', w'))
         (HandleSubmit (\<lambda>_. (''?'', 1)) demo_creds (\<lambda>vs. vs) (demo_post prm) w))\<rparr>, Arguments = []\<rparr>"

definition demo_stale :: memory_world where
  "demo_stale = demo_world\<lparr>w_tokens := \<lparr>data = [''u1'' \<mapsto> Some
     [''access_token'' \<mapsto> AStr ''old'', ''refresh_token'' \<mapsto> AStr ''rt'', ''expires_at'' \<mapsto> AFloat (Fin 10)]]\<rparr>\<rparr>"

definition demo_invited :: memory_world where
  "demo_invited = demo_world\<lparr>w_pending := NewMemoryPendingStore\<lparr>pending :=
     [''s'' \<mapsto> \<lparr>metadata = Some [''sub'' \<mapsto> AStr ''u1''], expires = 5\<rparr>]\<rparr>\<rparr>"

lemmas demo_creds_defs = demo_creds_def demo_form_def demo_post_def demo_creds_call_def

text \<open>No waiter is under way and no result is pending for the key.\<close>

definition mem_ready :: "memory_world \<Rightarrow> string \<Rightarrow> bool" where
  "mem_ready w key \<longleftrightarrow> mem_quiet (w_pending w) \<and> store_signal (w_pending w) key = None"

lemma demo_quiet: "mem_quiet NewMemoryPendingStore"
  by (auto simp: mem_quiet_def mem_inv_def NewMemoryPendingStore_def)

lemma demo_ready: "mem_ready demo_world key"
  using demo_quiet by (simp add: mem_ready_def demo_world_def store_signal_def NewMemoryPendingStore_def)

lemma demo_ttl: "sint ((timeout_seconds (120 * Second) w + 60) * Second) = 180000000000"
  using timeout_seconds_whole [of 120 w] by (simp add: Second_def)

lemma demo_expiry: "outlives_buffer 0 (f64_add (f64_of_int (sint (time_Unix 0))) (Fin 3600))"
proof -
  have t: "sint (time_Unix 0) = 0" using time_Unix_sint [of 0] by simp
  have "f64_of_int 0 = Fin 0" using f64_of_int_exact [of 0] by simp
  moreover have "f64_add (Fin 0) (Fin 3600) = Fin 3600" using f64_add_int_exact [of 0 3600] by simp
  ultimately show ?thesis using outlives_buffer_iff [of 0 3600] t by simp
qed

lemma demo_order: "range_order (\<lambda>vs. vs)"
  by (simp add: range_order_def)

lemma demo_complete: "form_complete demo_form (c_variables demo_creds)"
  by (simp add: form_complete_def demo_form_def demo_creds_def values_Get_def) code_simp

lemma demo_creds_ttl: "sint (timeout_seconds (300 * Second) w * Second) = 300000000000"
  using timeout_seconds_whole [of 300 w] by (simp add: Second_def)

end
