(* ===== verification/Jwt_Validator.thy ===== *)
theory Jwt_Validator
  imports Http
begin

text \<open>
  \<^verbatim>\<open>jwtvalidator/jwtvalidator.go\<close>: the checks around the JOSE library. The HTTP client, the JSON
  decoder of the discovery document, the key-set cache and the token parser of the third-party
  modules are fields of \<open>Validator\<close>, arbitrary functions on the world. The map \<open>oidcConfigs\<close> is the
  validator's own state; \<open>cfg_rd\<close> and \<open>cfg_wr\<close> say where in the world it lives.
\<close>

datatype FailReason = FailReasonInvalid | FailReasonExpired

definition allowedAlgorithms :: "string list" where
  "allowedAlgorithms =
     [''RS256'', ''RS384'', ''RS512'', ''PS256'', ''PS384'', ''PS512'', ''ES256'', ''ES384'',
      ''ES512'', ''EdDSA'']"

record oidcConfig =
  OIssuer :: string
  JWKSURI :: string

text \<open>A verified token of the library: its issuer claim, its claim names and their values.\<close>

record jwt_token =
  tok_Issuer :: "string option"
  tok_Keys :: "string list"
  tok_Get :: "string \<Rightarrow> go_error + go_any"

record ('w, 'ks) Validator =
  new_request :: "string \<Rightarrow> go_error option"
  http_get :: "string \<Rightarrow> 'w \<Rightarrow> (go_error + nat \<times> string) \<times> 'w"
  decode_config :: "string \<Rightarrow> go_error + oidcConfig"
  cache_IsRegistered :: "string \<Rightarrow> 'w \<Rightarrow> bool \<times> 'w"
  cache_Register :: "string \<Rightarrow> 'w \<Rightarrow> go_error option \<times> 'w"
  cache_Lookup :: "string \<Rightarrow> 'w \<Rightarrow> (go_error + 'ks) \<times> 'w"
  jws_Parse :: "string \<Rightarrow> go_error + string option list"
  jwt_Parse :: "string \<Rightarrow> 'ks \<Rightarrow> 'w \<Rightarrow> (go_error + jwt_token) \<times> 'w"
  cfg_rd :: "'w \<Rightarrow> string \<Rightarrow> oidcConfig option"
  cfg_wr :: "(string \<Rightarrow> oidcConfig option) \<Rightarrow> 'w \<Rightarrow> 'w"

subsection \<open>Discovery\<close>

definition getOIDCConfig ::
  "('w, 'ks) Validator \<Rightarrow> string \<Rightarrow> 'w \<Rightarrow> (go_error + oidcConfig) \<times> 'w" where
  "getOIDCConfig v issuerURL w =
     (case cfg_rd v w issuerURL of
        Some cfg \<Rightarrow> (Inr cfg, w)
      | None \<Rightarrow>
          (let u = issuerURL @ ''/.well-known/openid-configuration''
           in case new_request v u of
                Some e \<Rightarrow> (Inl e, w)
              | None \<Rightarrow>
                  (case http_get v u w of
                     (Inl e, w1) \<Rightarrow> (Inl (Errorw ''jwtvalidator: fetching OIDC config: %w'' [] e), w1)
                   | (Inr (status, body), w1) \<Rightarrow>
                       if status \<noteq> 200
                       then (Inl (Errorf ''jwtvalidator: OIDC discovery returned status %d'' [ArgD (int status)]), w1)
                       else (case decode_config v body of
                              Inl e \<Rightarrow> (Inl (Errorw ''jwtvalidator: decoding OIDC config: %w'' [] e), w1)
                            | Inr cfg \<Rightarrow>
                                if JWKSURI cfg = []
                                then (Inl (Errorf ''jwtvalidator: OIDC config has no jwks_uri'' []), w1)
                                else (Inr cfg, cfg_wr v ((cfg_rd v w1)(issuerURL \<mapsto> cfg)) w1)))))"

definition ensureRegistered :: "('w, 'ks) Validator \<Rightarrow> string \<Rightarrow> 'w \<Rightarrow> go_error option \<times> 'w" where
  "ensureRegistered v jwksURI w =
     (let (registered, w1) = cache_IsRegistered v jwksURI w
      in if registered then (None, w1) else cache_Register v jwksURI w1)"

subsection \<open>Verification\<close>

definition checkAlgorithm :: "('w, 'ks) Validator \<Rightarrow> string \<Rightarrow> go_error option" where
  "checkAlgorithm v token =
     (case jws_Parse v token of
        Inl e \<Rightarrow> Some (Errorw ''jwtvalidator: parsing token header: %w'' [] e)
      | Inr [] \<Rightarrow> Some (Errorf ''jwtvalidator: token has no signatures'' [])
      | Inr (None # _) \<Rightarrow> Some (Errorf ''jwtvalidator: token header has no alg'' [])
      | Inr (Some alg # _) \<Rightarrow>
          if alg \<notin> set allowedAlgorithms
          then Some (Errorf ''jwtvalidator: disallowed signing algorithm %q'' [ArgS alg])
          else None)"

text \<open>The loop over the claim names: the first claim that cannot be read ends it.\<close>

fun tokenToMap_loop :: "jwt_token \<Rightarrow> string list \<Rightarrow> gomap \<Rightarrow> go_error + gomap" where
  "tokenToMap_loop tok [] claims = Inr claims"
| "tokenToMap_loop tok (key # ks) claims =
     (case tok_Get tok key of
        Inl e \<Rightarrow> Inl (Errorw ''jwtvalidator: reading claim %q: %w'' [ArgS key] e)
      | Inr val \<Rightarrow> tokenToMap_loop tok ks (claims(key \<mapsto> val)))"

definition tokenToMap :: "jwt_token \<Rightarrow> go_error + gomap" where
  "tokenToMap tok = tokenToMap_loop tok (tok_Keys tok) Map.empty"

definition issuer_mismatch :: "oidcConfig \<Rightarrow> jwt_token \<Rightarrow> bool" where
  "issuer_mismatch cfg tok \<longleftrightarrow>
     OIssuer cfg \<noteq> [] \<and> (case tok_Issuer tok of None \<Rightarrow> [] | Some iss \<Rightarrow> iss) \<noteq> OIssuer cfg"

definition Validate ::
  "('w, 'ks) Validator \<Rightarrow> string \<Rightarrow> string \<Rightarrow> 'w \<Rightarrow> ((FailReason \<times> go_error) + gomap) \<times> 'w" where
  "Validate v token issuerURL w =
     (case checkAlgorithm v token of
        Some e \<Rightarrow> (Inl (FailReasonInvalid, e), w)
      | None \<Rightarrow>
    (case getOIDCConfig v issuerURL w of
       (Inl e, w1) \<Rightarrow> (Inl (FailReasonInvalid, e), w1)
     | (Inr cfg, w1) \<Rightarrow>
    (case ensureRegistered v (JWKSURI cfg) w1 of
       (Some e, w2) \<Rightarrow>
         (Inl (FailReasonInvalid, Errorw ''jwtvalidator: registering JWKS: %w'' [] e), w2)
     | (None, w2) \<Rightarrow>
    (case cache_Lookup v (JWKSURI cfg) w2 of
       (Inl e, w3) \<Rightarrow> (Inl (FailReasonInvalid, Errorw ''jwtvalidator: fetching JWKS: %w'' [] e), w3)
     | (Inr keySet, w3) \<Rightarrow>
    (case jwt_Parse v token keySet w3 of
       (Inl e, w4) \<Rightarrow>
         if errors_Is e ErrTokenExpired then (Inl (FailReasonExpired, e), w4)
         else (Inl (FailReasonInvalid, Errorw ''jwtvalidator: verifying token: %w'' [] e), w4)
     | (Inr tok, w4) \<Rightarrow>
         if issuer_mismatch cfg tok
         then (Inl (FailReasonInvalid,
                 Errorf ''jwtvalidator: issuer mismatch: token has %q, expected %q''
                   [ArgS (case tok_Issuer tok of None \<Rightarrow> [] | Some iss \<Rightarrow> iss), ArgS (OIssuer cfg)]), w4)
         else (case tokenToMap tok of
                Inl e \<Rightarrow> (Inl (FailReasonInvalid, e), w4)
              | Inr claims \<Rightarrow> (Inr claims, w4)))))))"

subsection \<open>Lemmas\<close>

lemma tokenToMap_loop_ok:
  "tokenToMap_loop tok ks c = Inr m \<Longrightarrow>
     (\<forall>k. if k \<in> set ks then \<exists>v. tok_Get tok k = Inr v \<and> m k = Some v else m k = c k)"
proof (induction ks arbitrary: c)
  case (Cons key ks)
  then obtain v where v: "tok_Get tok key = Inr v" and r: "tokenToMap_loop tok ks (c(key \<mapsto> v)) = Inr m"
    by (auto split: sum.splits)
  from Cons.IH [OF r] v show ?case by (auto split: if_splits)
qed simp

lemma tokenToMap_loop_err:
  "tokenToMap_loop tok ks c = Inl e \<Longrightarrow> \<exists>k \<in> set ks. \<exists>e'. tok_Get tok k = Inl e'"
  by (induction ks arbitrary: c) (auto split: sum.splits)

lemma checkAlgorithm_ok:
  "checkAlgorithm v token = None \<longleftrightarrow>
     (\<exists>alg rest. jws_Parse v token = Inr (Some alg # rest) \<and> alg \<in> set allowedAlgorithms)"
  by (auto simp: checkAlgorithm_def split: sum.splits list.splits option.splits if_splits)

lemma getOIDCConfig_cached:
  assumes "getOIDCConfig v u w = (Inr cfg, w1)" and "\<And>m x. cfg_rd v (cfg_wr v m x) = m"
  shows "cfg_rd v w1 u = Some cfg"
  using assms
  by (auto simp: getOIDCConfig_def Let_def split: option.splits prod.splits sum.splits if_splits)

lemma getOIDCConfig_jwks:
  assumes "getOIDCConfig v u w = (Inr cfg, w1)" and "cfg_rd v w u = None"
  shows "JWKSURI cfg \<noteq> []"
  using assms
  by (auto simp: getOIDCConfig_def Let_def split: option.splits prod.splits sum.splits if_splits)

lemma Validate_success:
  assumes "Validate v token u w = (Inr claims, w')"
  obtains cfg w1 w2 keySet w3 tok where
    "checkAlgorithm v token = None"
    "getOIDCConfig v u w = (Inr cfg, w1)"
    "ensureRegistered v (JWKSURI cfg) w1 = (None, w2)"
    "cache_Lookup v (JWKSURI cfg) w2 = (Inr keySet, w3)"
    "jwt_Parse v token keySet w3 = (Inr tok, w')"
    "\<not> issuer_mismatch cfg tok"
    "tokenToMap tok = Inr claims"
  using assms
  by (auto simp: Validate_def split: option.splits prod.splits sum.splits if_splits)

subsection \<open>Properties\<close>

text \<open>A validator over concrete library functions, for the witnesses.\<close>

definition demo_validator :: "(string \<Rightarrow> oidcConfig option, nat) Validator" where
  "demo_validator =
     \<lparr>new_request = (\<lambda>_. None),
      http_get = (\<lambda>u w. (Inr (200, u), w)),
      decode_config = (\<lambda>_. Inr \<lparr>OIssuer = ''iss'', JWKSURI = ''jwks''\<rparr>),
      cache_IsRegistered = (\<lambda>_ w. (False, w)),
      cache_Register = (\<lambda>_ w. (None, w)),
      cache_Lookup = (\<lambda>_ w. (Inr 7, w)),
      jws_Parse = (\<lambda>t. Inr [Some (if t = ''sym'' then ''HS256'' else ''RS256'')]),
      jwt_Parse = (\<lambda>t _ w. (if t = ''old'' then Inl (Errorw ''parse: %w'' [] ErrTokenExpired)
        else Inr \<lparr>tok_Issuer = Some ''iss'', tok_Keys = [''sub''], tok_Get = (\<lambda>_. Inr (AStr ''u1''))\<rparr>, w)),
      cfg_rd = (\<lambda>w. w), cfg_wr = (\<lambda>m _. m)\<rparr>"

lemma demo_Validate:
  "Validate demo_validator ''tok'' ''iss'' Map.empty =
     (Inr [''sub'' \<mapsto> AStr ''u1''], [''iss'' \<mapsto> \<lparr>OIssuer = ''iss'', JWKSURI = ''jwks''\<rparr>])"
  by (simp add: demo_validator_def Validate_def checkAlgorithm_def getOIDCConfig_def ensureRegistered_def
      issuer_mismatch_def tokenToMap_def allowedAlgorithms_def)

text \<open>
  C4: a token is accepted only if its algorithm is on the allow-list, the library verified it
  against the key set the issuer's own discovery document points to, and its issuer is the one the
  document names; the claims returned are those of the verified token, no more and no less.
\<close>

theorem Validate_sound:
  assumes "Validate v token u w = (Inr claims, w')"
  shows "\<exists>alg sigs cfg w1 w2 keySet w3 tok.
    jws_Parse v token = Inr (Some alg # sigs) \<and> alg \<in> set allowedAlgorithms \<and>
    getOIDCConfig v u w = (Inr cfg, w1) \<and> ensureRegistered v (JWKSURI cfg) w1 = (None, w2) \<and>
    cache_Lookup v (JWKSURI cfg) w2 = (Inr keySet, w3) \<and> jwt_Parse v token keySet w3 = (Inr tok, w') \<and>
    (OIssuer cfg = [] \<or> tok_Issuer tok = Some (OIssuer cfg)) \<and>
    (\<forall>k. claims k = (if k \<in> set (tok_Keys tok)
       then (case tok_Get tok k of Inr x \<Rightarrow> Some x | Inl _ \<Rightarrow> None) else None))"
proof -
  obtain cfg w1 w2 keySet w3 tok where
    h: "checkAlgorithm v token = None" "getOIDCConfig v u w = (Inr cfg, w1)"
    "ensureRegistered v (JWKSURI cfg) w1 = (None, w2)" "cache_Lookup v (JWKSURI cfg) w2 = (Inr keySet, w3)"
    "jwt_Parse v token keySet w3 = (Inr tok, w')" "\<not> issuer_mismatch cfg tok" "tokenToMap tok = Inr claims"
    using Validate_success [OF assms] .
  from h(6) have "OIssuer cfg = [] \<or> tok_Issuer tok = Some (OIssuer cfg)"
    by (auto simp: issuer_mismatch_def split: option.splits)
  moreover have "\<forall>k. claims k = (if k \<in> set (tok_Keys tok)
       then (case tok_Get tok k of Inr x \<Rightarrow> Some x | Inl _ \<Rightarrow> None) else None)"
  proof
    fix k
    from tokenToMap_loop_ok [OF h(7) [unfolded tokenToMap_def], rule_format, of k]
    show "claims k = (if k \<in> set (tok_Keys tok)
       then (case tok_Get tok k of Inr x \<Rightarrow> Some x | Inl _ \<Rightarrow> None) else None)"
      by (auto split: if_splits)
  qed
  ultimately show ?thesis using h(1-5) unfolding checkAlgorithm_ok by blast
qed

theorem Validate_sound_witness:
  "\<exists>claims w'. Validate demo_validator ''tok'' ''iss'' Map.empty = (Inr claims, w') \<and>
     (\<exists>alg sigs. jws_Parse demo_validator ''tok'' = Inr (Some alg # sigs) \<and> alg \<in> set allowedAlgorithms)"
  using Validate_sound [OF demo_Validate] demo_Validate by blast

text \<open>
  C34: a token whose header names an algorithm outside the allow-list is rejected before any
  network access or cache update: the world is unchanged.
\<close>

theorem disallowed_algorithm_rejected:
  assumes "jws_Parse v token = Inr (Some alg # sigs)" and "alg \<notin> set allowedAlgorithms"
  shows "Validate v token u w =
    (Inl (FailReasonInvalid, Errorf ''jwtvalidator: disallowed signing algorithm %q'' [ArgS alg]), w)"
  using assms by (simp add: Validate_def checkAlgorithm_def)

theorem disallowed_algorithm_rejected_witness:
  "\<forall>u w. Validate demo_validator ''sym'' u w =
    (Inl (FailReasonInvalid, Errorf ''jwtvalidator: disallowed signing algorithm %q'' [ArgS ''HS256'']), w)"
  by (intro allI, rule disallowed_algorithm_rejected [where sigs = "[]"])
    (simp_all add: demo_validator_def allowedAlgorithms_def)



end
