(* ===== verification/Middleware.thy ===== *)
theory Middleware
  imports Jwt_Validator
begin

text \<open>
  \<^verbatim>\<open>middleware/middleware.go\<close>: the session-auth wrapper. A handler is a function from a request
  and a world to a response and a world; \<open>New\<close> returns the wrapped handler. The rendering of
  non-ASCII runes by the verb \<^verbatim>\<open>%q\<close> is the argument \<open>q\<close> of the functions that quote.
\<close>

type_synonym 'w handler = "request \<Rightarrow> 'w \<Rightarrow> response \<times> 'w"

record ('w, 'ks) Options =
  OValidator :: "('w, 'ks) Validator"
  OIssuerURL :: string
  OServerBaseURL :: string
  OpenPaths :: "string list"

fun isOpenPath :: "string \<Rightarrow> string list \<Rightarrow> bool" where
  "isOpenPath path [] = False"
| "isOpenPath path (p # ps) = (if strings_HasPrefix path p then True else isOpenPath path ps)"

definition extractBearerToken :: "request \<Rightarrow> string option" where
  "extractBearerToken r =
     (let header = Header r ''Authorization''; pre = ''Bearer ''
      in if \<not> strings_HasPrefix header pre then None
         else let token = strings_TrimPrefix header pre
              in if token = [] then None else Some token)"

definition userFromClaims :: "gomap \<Rightarrow> User" where
  "userFromClaims claims =
     (let sub = any_string (gomap_get (Some claims) ''sub'');
          preferredUsername = any_string (gomap_get (Some claims) ''preferred_username'');
          sub' = (if sub = []
                  then if preferredUsername \<noteq> [] then preferredUsername else ''unknown''
                  else sub)
      in \<lparr>Sub = sub', PreferredUsername = preferredUsername,
          Email = any_string (gomap_get (Some claims) ''email''),
          UName = any_string (gomap_get (Some claims) ''name''),
          Issuer = any_string (gomap_get (Some claims) ''iss''),
          Claims = Some claims\<rparr>)"

definition challenge_base :: "(string \<Rightarrow> string \<times> nat) \<Rightarrow> string \<Rightarrow> string" where
  "challenge_base q serverBaseURL =
     ''Bearer realm='' @ strconv_Quote q (serverBaseURL @ ''/mcp'') @ '', resource_metadata='' @
     strconv_Quote q (serverBaseURL @ ''/.well-known/oauth-protected-resource'')"

definition unauthorized :: "string \<Rightarrow> response" where
  "unauthorized challenge =
     \<lparr>Status = 401, Headers = [''WWW-Authenticate'' \<mapsto> challenge], Body = BodyEmpty\<rparr>"

definition writeUnauthorized :: "(string \<Rightarrow> string \<times> nat) \<Rightarrow> string \<Rightarrow> string \<Rightarrow> response" where
  "writeUnauthorized q serverBaseURL errorCode =
     unauthorized
       (challenge_base q serverBaseURL @
        (if errorCode \<noteq> [] then '', error='' @ strconv_Quote q errorCode else []))"

definition writeTokenExpired :: "(string \<Rightarrow> string \<times> nat) \<Rightarrow> string \<Rightarrow> response" where
  "writeTokenExpired q serverBaseURL =
     unauthorized
       (challenge_base q serverBaseURL @ '', error='' @ [CHR 0x22] @ ''invalid_token'' @ [CHR 0x22] @
        '', error_description='' @ [CHR 0x22] @ ''The access token expired'' @ [CHR 0x22])"

definition New ::
  "(string \<Rightarrow> string \<times> nat) \<Rightarrow> ('w, 'ks) Options \<Rightarrow> 'w handler \<Rightarrow> 'w handler" where
  "New q opts next_h r w =
     (if Method r = ''OPTIONS'' \<or> isOpenPath (Path r) (OpenPaths opts) then next_h r w
      else (case extractBearerToken r of
             None \<Rightarrow> (writeUnauthorized q (OServerBaseURL opts) [], w)
           | Some token \<Rightarrow>
               (case Validate (OValidator opts) token (OIssuerURL opts) w of
                  (Inl (reason, e), w1) \<Rightarrow>
                    (if reason = FailReasonExpired then writeTokenExpired q (OServerBaseURL opts)
                     else writeUnauthorized q (OServerBaseURL opts) ''invalid_token'', w1)
                | (Inr claims, w1) \<Rightarrow>
                    (let user = userFromClaims claims;
                         c = WithValue (RContext r) UserContextKey (VUser user)
                     in next_h (r\<lparr>RContext := c\<rparr>) w1))))"

lemma isOpenPath_iff: "isOpenPath path ps \<longleftrightarrow> (\<exists>p \<in> set ps. \<exists>t. path = p @ t)"
  by (induction ps) (auto simp: strings_HasPrefix_iff)

lemma extractBearerToken_iff:
  "extractBearerToken r = Some t \<longleftrightarrow> Header r ''Authorization'' = ''Bearer '' @ t \<and> t \<noteq> []"
  by (auto simp: extractBearerToken_def Let_def strings_TrimPrefix_def strings_HasPrefix_iff)

lemma userFromClaims_Sub: "Sub (userFromClaims claims) \<noteq> []"
  by (simp add: userFromClaims_def Let_def)

lemma challenge_base_printable:
  "(\<And>t. list_all printable (fst (q t))) \<Longrightarrow> list_all printable (challenge_base q u)"
  by (simp add: challenge_base_def strconv_Quote_printable) (simp add: printable_def)

subsection \<open>Properties\<close>


text \<open>
  C37: the challenge header is one line of printable characters whatever the configured base URL
  and error code are, so neither can inject a header. The hypothesis states that the rendering of
  non-ASCII runes by \<^verbatim>\<open>%q\<close> is printable, which is what that verb is documented to produce.
\<close>

theorem challenge_single_line:
  assumes "\<And>t. list_all printable (fst (q t))"
  shows "list_all printable (the (Headers (writeUnauthorized q base errorCode) ''WWW-Authenticate'')) \<and>
    list_all printable (the (Headers (writeTokenExpired q base) ''WWW-Authenticate''))"
proof -
  have "list_all printable '', error=''" "list_all printable '', error_description=''"
    "list_all printable ([CHR 0x22] @ ''invalid_token'' @ [CHR 0x22])"
    "list_all printable ([CHR 0x22] @ ''The access token expired'' @ [CHR 0x22])"
    by (simp_all add: printable_def)
  with challenge_base_printable [OF assms] strconv_Quote_printable [OF assms] show ?thesis
    by (simp add: writeUnauthorized_def writeTokenExpired_def unauthorized_def)
qed

theorem challenge_single_line_witness:
  "list_all printable (the (Headers (writeUnauthorized (\<lambda>_. (''?'', 1)) [CHR 0x0D, CHR 0x0A] ''e'') ''WWW-Authenticate''))"
  using challenge_single_line [of "\<lambda>_. (''?'', 1)" "[CHR 0x0D, CHR 0x0A]" "''e''"] by (simp add: printable_def)

end
