(* ===== verification/Middleware_Routes.thy ===== *)
theory Middleware_Routes
  imports Middleware
begin

text \<open>
  \<^verbatim>\<open>middleware/routes.go\<close>: the discovery endpoints and the client-registration facade. The HTTP
  fetch of the upstream discovery document is the argument \<open>fetch\<close> (request creation, transport and
  JSON decoding, in the order of the nested conditions), the dispatch of \<^verbatim>\<open>http.ServeMux\<close> on the
  four registered patterns is \<open>RegisterWellKnownRoutes\<close>.
\<close>

record WellKnownOptions =
  WServerBaseURL :: string
  WIssuerURL :: string
  WClientID :: string

record oidcDiscoveryDoc =
  AuthorizationEndpoint :: string
  TokenEndpoint :: string
  DJWKSURI :: string

text \<open>What the upstream request yields, where it fails included.\<close>

datatype upstream =
    RequestError
  | TransportError
  | Reply nat "oidcDiscoveryDoc option"

definition writeProtectedResourceMetadata :: "string \<Rightarrow> response" where
  "writeProtectedResourceMetadata serverBaseURL =
     writeJSON 200
       [''resource'' \<mapsto> AStr (serverBaseURL @ ''/mcp''),
        ''authorization_servers'' \<mapsto> AStrings [serverBaseURL],
        ''bearer_methods_supported'' \<mapsto> AStrings [''header''],
        ''scopes_supported'' \<mapsto> AStrings [''openid'', ''profile'', ''email'']]"

definition fetchUpstreamDiscovery ::
  "(string \<Rightarrow> 'w \<Rightarrow> upstream \<times> 'w) \<Rightarrow> string \<Rightarrow> 'w \<Rightarrow> oidcDiscoveryDoc \<times> 'w" where
  "fetchUpstreamDiscovery fetch issuerURL w =
     (let (up, w1) = fetch (issuerURL @ ''/.well-known/openid-configuration'') w;
          fallback = \<lparr>AuthorizationEndpoint = issuerURL @ ''/protocol/openid-connect/auth'',
                      TokenEndpoint = issuerURL @ ''/protocol/openid-connect/token'',
                      DJWKSURI = issuerURL @ ''/protocol/openid-connect/certs''\<rparr>
      in case up of
           Reply status decoded \<Rightarrow>
             (if status = 200
              then (case decoded of Some doc \<Rightarrow> (doc, w1) | None \<Rightarrow> (fallback, w1))
              else (fallback, w1))
         | _ \<Rightarrow> (fallback, w1))"

definition writeAuthorizationServerMetadata ::
  "(string \<Rightarrow> 'w \<Rightarrow> upstream \<times> 'w) \<Rightarrow> WellKnownOptions \<Rightarrow> 'w \<Rightarrow> response \<times> 'w" where
  "writeAuthorizationServerMetadata fetch opts w =
     (let (doc, w1) = fetchUpstreamDiscovery fetch (WIssuerURL opts) w
      in (writeJSON 200
            [''issuer'' \<mapsto> AStr (WServerBaseURL opts),
             ''authorization_endpoint'' \<mapsto> AStr (AuthorizationEndpoint doc),
             ''token_endpoint'' \<mapsto> AStr (TokenEndpoint doc),
             ''jwks_uri'' \<mapsto> AStr (DJWKSURI doc),
             ''registration_endpoint'' \<mapsto> AStr (WServerBaseURL opts @ ''/register''),
             ''response_types_supported'' \<mapsto> AStrings [''code''],
             ''grant_types_supported'' \<mapsto> AStrings [''authorization_code''],
             ''code_challenge_methods_supported'' \<mapsto> AStrings [''S256''],
             ''token_endpoint_auth_methods_supported'' \<mapsto> AStrings [''none'']], w1))"

text \<open>The request body is decoded for logging only: it does not reach the response.\<close>

definition handleRegister :: "string \<Rightarrow> 'a host_scheme \<Rightarrow> response \<times> 'a host_scheme" where
  "handleRegister clientID w =
     (let (now, w1) = time_Now w
      in (writeJSON 201
            [''client_id'' \<mapsto> AStr clientID,
             ''client_id_issued_at'' \<mapsto> AInt64 (time_Unix now),
             ''grant_types'' \<mapsto> AStrings [''authorization_code''],
             ''token_endpoint_auth_method'' \<mapsto> AStr ''none''], w1))"

definition protected_resource_path :: string where
  "protected_resource_path = ''/.well-known/oauth-protected-resource''"

text \<open>
  The four patterns. A \<^verbatim>\<open>GET\<close> pattern also matches \<^verbatim>\<open>HEAD\<close>, and
  \<^verbatim>\<open>\{path...\}\<close> matches the rest of the path, the empty one included. \<open>None\<close> is "no pattern
  of these matches".
\<close>

definition RegisterWellKnownRoutes ::
  "(string \<Rightarrow> 'a host_scheme \<Rightarrow> upstream \<times> 'a host_scheme) \<Rightarrow> WellKnownOptions
     \<Rightarrow> request \<Rightarrow> 'a host_scheme \<Rightarrow> (response \<times> 'a host_scheme) option" where
  "RegisterWellKnownRoutes fetch opts r w =
     (let get = Method r = ''GET'' \<or> Method r = ''HEAD''
      in if get \<and> (Path r = protected_resource_path \<or>
                   strings_HasPrefix (Path r) (protected_resource_path @ ''/''))
         then Some (writeProtectedResourceMetadata (WServerBaseURL opts), w)
         else if get \<and> Path r = ''/.well-known/oauth-authorization-server''
         then Some (writeAuthorizationServerMetadata fetch opts w)
         else if Method r = ''POST'' \<and> Path r = ''/register''
         then Some (handleRegister (WClientID opts) w)
         else None)"

subsection \<open>Properties\<close>


end
