(* ===== verification/Store_Memory_Concurrency.thy ===== *)
theory Store_Memory_Concurrency
  imports Store_Memory
begin

text \<open>
  Any number of goroutines on one \<open>MemoryPendingStore\<close>. A waiter is a call of
  \<^verbatim>\<open>WaitForResult\<close> with its program counter: it enters (first critical section), is parked
  in the \<^verbatim>\<open>select\<close>, and then either receives and afterwards runs the second critical
  section, or leaves by the timer or the context. All other methods are single steps of other
  goroutines. \<open>signals\<close> (the arguments of the \<^verbatim>\<open>SetResult\<close> calls so far) and \<open>sig_of\<close>
  (the call that fired an entry) are history variables: no step depends on them.
\<close>

datatype waiter =
    Idle
  | Parked string nat
  | Received string nat "gomap option"
  | Delivered string nat "gomap option"
  | TimedOut string nat
  | Cancelled string nat go_error

record msys =
  st :: MemoryPendingStore
  wt :: "nat \<Rightarrow> waiter"
  signals :: "(string \<times> gomap option) list"
  sig_of :: "nat \<Rightarrow> nat"

definition msys_init :: msys where
  "msys_init = \<lparr>st = NewMemoryPendingStore, wt = (\<lambda>_. Idle), signals = [], sig_of = (\<lambda>_. 0)\<rparr>"

text \<open>The entry a \<^verbatim>\<open>SetResult\<close> call fires is the entry of its key, if it has not fired yet.\<close>

definition fires :: "string \<Rightarrow> MemoryPendingStore \<Rightarrow> nat option" where
  "fires key s = (let (p, s1) = done_entry key s in if fired (dheap s1 ! p) then None else Some p)"

definition after_signal :: "string \<Rightarrow> gomap option \<Rightarrow> MemoryPendingStore \<Rightarrow> msys \<Rightarrow> msys" where
  "after_signal key r s' c =
     c\<lparr>st := s', signals := signals c @ [(key, r)],
       sig_of := (case fires key (st c) of
          None \<Rightarrow> sig_of c | Some p \<Rightarrow> (sig_of c)(p := length (signals c)))\<rparr>"

inductive msys_step :: "msys \<Rightarrow> msys \<Rightarrow> bool" where
  enter: "wt c i = Idle \<Longrightarrow> done_entry key (st c) = (p, s') \<Longrightarrow>
     msys_step c (c\<lparr>st := s', wt := (wt c)(i := Parked key p)\<rparr>)"
| receive: "wt c i = Parked key p \<Longrightarrow> wait_receive p (st c) = Some (r, s') \<Longrightarrow>
     msys_step c (c\<lparr>st := s', wt := (wt c)(i := Received key p r)\<rparr>)"
| consume: "wt c i = Received key p r \<Longrightarrow>
     msys_step c (c\<lparr>st := wait_consume key (st c), wt := (wt c)(i := Delivered key p r)\<rparr>)"
| timeout: "wt c i = Parked key p \<Longrightarrow> msys_step c (c\<lparr>wt := (wt c)(i := TimedOut key p)\<rparr>)"
| cancel: "wt c i = Parked key p \<Longrightarrow> msys_step c (c\<lparr>wt := (wt c)(i := Cancelled key p e)\<rparr>)"
| set_result: "MemoryPendingStore_SetResult key r ttl (st c) = Some (e, s') \<Longrightarrow>
     msys_step c (after_signal key r s' c)"
| create: "MemoryPendingStore_Create key m ttl (st c) (h :: host) = (e, s', h') \<Longrightarrow>
     msys_step c (c\<lparr>st := s'\<rparr>)"
| get: "MemoryPendingStore_Get key (st c) (h :: host) = (x, s', h') \<Longrightarrow>
     msys_step c (c\<lparr>st := s'\<rparr>)"
| pop: "MemoryPendingStore_Pop key (st c) (h :: host) = (x, s', h') \<Longrightarrow>
     msys_step c (c\<lparr>st := s'\<rparr>)"

inductive msys_reachable :: "msys \<Rightarrow> bool" where
  start: "msys_reachable msys_init"
| step: "msys_reachable c \<Longrightarrow> msys_step c c' \<Longrightarrow> msys_reachable c'"

subsection \<open>The invariant\<close>

definition spent :: "MemoryPendingStore \<Rightarrow> nat \<Rightarrow> bool" where
  "spent s p \<longleftrightarrow> fired (dheap s ! p) \<and> ch (dheap s ! p) = []"

definition signalled :: "msys \<Rightarrow> string \<Rightarrow> nat \<Rightarrow> bool" where
  "signalled c key p \<longleftrightarrow> sig_of c p < length (signals c) \<and>
     signals c ! sig_of c p = (key, dresult (dheap (st c) ! p))"

fun waiter_ok :: "msys \<Rightarrow> waiter \<Rightarrow> bool" where
  "waiter_ok c (Parked key p) \<longleftrightarrow> p < length (dheap (st c)) \<and>
     (done_map (st c) key = Some p \<or> spent (st c) p) \<and>
     (fired (dheap (st c) ! p) \<longrightarrow> signalled c key p)"
| "waiter_ok c (Received key p r) \<longleftrightarrow> p < length (dheap (st c)) \<and> spent (st c) p \<and>
     done_map (st c) key = Some p \<and> dresult (dheap (st c) ! p) = r \<and> signalled c key p"
| "waiter_ok c (Delivered key p r) \<longleftrightarrow> p < length (dheap (st c)) \<and> spent (st c) p \<and>
     (\<forall>k. done_map (st c) k \<noteq> Some p) \<and> dresult (dheap (st c) ! p) = r \<and> signalled c key p"
| "waiter_ok c _ = True"

fun took :: "waiter \<Rightarrow> nat option" where
  "took (Received key p r) = Some p"
| "took (Delivered key p r) = Some p"
| "took _ = None"

definition msys_inv :: "msys \<Rightarrow> bool" where
  "msys_inv c \<longleftrightarrow> mem_inv (st c) \<and>
     (\<forall>i. waiter_ok c (wt c i)) \<and>
     (\<forall>i j p. took (wt c i) = Some p \<and> took (wt c j) = Some p \<longrightarrow> i = j) \<and>
     (\<forall>k p. done_map (st c) k = Some p \<and> fired (dheap (st c) ! p) \<longrightarrow> signalled c k p) \<and>
     (\<forall>p q. p < length (dheap (st c)) \<and> q < length (dheap (st c)) \<and> fired (dheap (st c) ! p) \<and>
        fired (dheap (st c) ! q) \<and> sig_of c p = sig_of c q \<longrightarrow> p = q) \<and>
     (\<forall>p < length (dheap (st c)). fired (dheap (st c) ! p) \<longrightarrow> sig_of c p < length (signals c))"

lemma SetResult_cases:
  assumes "MemoryPendingStore_SetResult key r ttl s = Some (e, s')" and "mem_inv s"
  obtains (dropped) "fires key s = None" "s' = s"
  | (fresh) p s1 where "fires key s = Some p" "done_entry key s = (p, s1)"
      "s' = s1\<lparr>dheap := (dheap s1)[p := \<lparr>ch = [r], dresult = r, fired = True\<rparr>]\<rparr>"
      "\<not> fired (dheap s1 ! p)"
proof -
  obtain p s1 where d: "done_entry key s = (p, s1)" by (cases "done_entry key s")
  note P = done_entry_props [OF d assms(2)]
  show thesis
  proof (cases "fired (dheap s1 ! p)")
    case True
    with P(9) have "done_map s key \<noteq> None" by (cases "done_map s key") auto
    with P(8) have "s1 = s" by auto
    with True d assms(1) have "fires key s = None" "s' = s"
      by (auto simp: fires_def MemoryPendingStore_SetResult_def Let_def)
    then show thesis by (rule dropped)
  next
    case False
    with mem_invD(3) [OF P(1) P(3)] have "ch (dheap s1 ! p) = []" by (auto simp: entry_ok_def)
    with False d assms(1) show thesis
      by (intro fresh; cases "dheap s1 ! p")
        (auto simp: fires_def MemoryPendingStore_SetResult_def chan_send_def Let_def)
  qed
qed

lemma msys_invD:
  assumes "msys_inv c"
  shows "mem_inv (st c)"
    and "waiter_ok c (wt c i)"
    and "took (wt c i) = Some p \<Longrightarrow> took (wt c j) = Some p \<Longrightarrow> i = j"
    and "done_map (st c) k = Some p \<Longrightarrow> fired (dheap (st c) ! p) \<Longrightarrow> signalled c k p"
    and "p < length (dheap (st c)) \<Longrightarrow> q < length (dheap (st c)) \<Longrightarrow> fired (dheap (st c) ! p) \<Longrightarrow>
      fired (dheap (st c) ! q) \<Longrightarrow> sig_of c p = sig_of c q \<Longrightarrow> p = q"
    and "p < length (dheap (st c)) \<Longrightarrow> fired (dheap (st c) ! p) \<Longrightarrow> sig_of c p < length (signals c)"
  using assms by (auto simp: msys_inv_def)

lemma msys_invI:
  assumes "mem_inv (st c)"
    and "\<And>i. waiter_ok c (wt c i)"
    and "\<And>i j p. took (wt c i) = Some p \<Longrightarrow> took (wt c j) = Some p \<Longrightarrow> i = j"
    and "\<And>k p. done_map (st c) k = Some p \<Longrightarrow> fired (dheap (st c) ! p) \<Longrightarrow> signalled c k p"
    and "\<And>p q. p < length (dheap (st c)) \<Longrightarrow> q < length (dheap (st c)) \<Longrightarrow> fired (dheap (st c) ! p) \<Longrightarrow>
      fired (dheap (st c) ! q) \<Longrightarrow> sig_of c p = sig_of c q \<Longrightarrow> p = q"
    and "\<And>p. p < length (dheap (st c)) \<Longrightarrow> fired (dheap (st c) ! p) \<Longrightarrow> sig_of c p < length (signals c)"
  shows "msys_inv c"
  using assms unfolding msys_inv_def by blast

lemma msys_inv_pending:
  "msys_inv c \<Longrightarrow> msys_inv (c\<lparr>st := (st c)\<lparr>pending := m\<rparr>\<rparr>)"
proof -
  have "waiter_ok (c\<lparr>st := (st c)\<lparr>pending := m\<rparr>\<rparr>) w = waiter_ok c w" for w
    by (cases w) (simp_all add: spent_def signalled_def)
  then show "msys_inv c \<Longrightarrow> ?thesis"
    by (auto simp: msys_inv_def signalled_def)
qed

lemma waiter_ok_enter:
  assumes d: "done_entry key (st c) = (p, s')" and m: "mem_inv (st c)" and w: "waiter_ok c w"
  shows "waiter_ok (c\<lparr>st := s'\<rparr>) w"
proof (cases w)
  case (Parked k q)
  with w done_entry_props [OF d m] show ?thesis
    by (cases "k = key"; cases "done_map (st c) key") (auto simp: spent_def signalled_def)
next
  case (Received k q r)
  with w done_entry_props [OF d m] show ?thesis
    by (cases "k = key") (auto simp: spent_def signalled_def)
next
  case (Delivered k q r)
  have "done_map s' k' \<noteq> Some q" for k'
    using Delivered w done_entry_props [OF d m]
    by (cases "k' = key"; cases "done_map (st c) key") auto
  with Delivered w done_entry_props [OF d m] show ?thesis
    by (auto simp: spent_def signalled_def)
qed (use w in auto)

lemma msys_inv_enter_store:
  assumes inv: "msys_inv c" and d: "done_entry key (st c) = (p, s')"
  shows "msys_inv (c\<lparr>st := s'\<rparr>)" (is "msys_inv ?c")
proof -
  note I = msys_invD [OF inv] and P = done_entry_props [OF d msys_invD(1) [OF inv]]
  have sgn: "signalled ?c k q" if "done_map s' k = Some q" "fired (dheap s' ! q)" for k q
  proof (cases "k = key \<and> done_map (st c) key = None")
    case True
    with that P(2,9) show ?thesis by auto
  next
    case False
    then have k: "done_map (st c) k = Some q" using that(1) P(2,7,8)
      by (cases "k = key") auto
    then have "q < length (dheap (st c))" by (rule mem_invD(1) [OF I(1)])
    then show ?thesis using I(4) [OF k] P(6) that(2) by (simp add: signalled_def)
  qed
  have old: "q < length (dheap (st c)) \<and> fired (dheap (st c) ! q)"
    if "q < length (dheap s')" "fired (dheap s' ! q)" for q
  proof -
    from that(1) P(10) have "q < Suc (length (dheap (st c)))" by simp
    with that P(6,8,9) show ?thesis by (cases "done_map (st c) key") (auto simp: less_Suc_eq)
  qed
  show ?thesis
  proof (rule msys_invI)
    show "waiter_ok ?c (wt ?c j)" for j
      using waiter_ok_enter [OF d I(1) I(2)] by simp
  qed (use P(1) sgn old I(3,5,6) in auto)
qed

lemma msys_inv_enter:
  assumes inv: "msys_inv c" and "wt c i = Idle" and d: "done_entry key (st c) = (p, s')"
  shows "msys_inv (c\<lparr>st := s', wt := (wt c)(i := Parked key p)\<rparr>)" (is "msys_inv ?c")
proof -
  note I = msys_invD [OF msys_inv_enter_store [OF inv d], simplified]
    and P = done_entry_props [OF d msys_invD(1) [OF inv]]
  have sgn: "signalled ?c k q = signalled (c\<lparr>st := s'\<rparr>) k q" for k q
    by (simp add: signalled_def)
  have "waiter_ok ?c w = waiter_ok (c\<lparr>st := s'\<rparr>) w" for w
    by (cases w) (simp_all add: sgn)
  with I(2,4) P(2,3) have "waiter_ok ?c (wt ?c j)" for j
    by (cases "j = i") (auto simp: sgn)
  then show ?thesis
    using I(1,3-6) sgn by (intro msys_invI) (auto split: if_splits)
qed

lemma receive_props:
  assumes "wait_receive p s = Some (r, s')" and "mem_inv s" and "p < length (dheap s)"
  shows "s' = s\<lparr>dheap := (dheap s)[p := (dheap s ! p)\<lparr>ch := []\<rparr>]\<rparr>"
    and "fired (dheap s ! p)" and "dresult (dheap s ! p) = r" and "ch (dheap s ! p) \<noteq> []"
  using assms(1) mem_invD(3) [OF assms(2,3)]
  by (auto simp: wait_receive_def entry_ok_def split: list.splits)

lemma msys_inv_receive:
  assumes inv: "msys_inv c" and w: "wt c i = Parked key p"
    and r: "wait_receive p (st c) = Some (r, s')"
  shows "msys_inv (c\<lparr>st := s', wt := (wt c)(i := Received key p r)\<rparr>)" (is "msys_inv ?c")
proof -
  note I = msys_invD [OF inv]
  from I(2) [of i] w have p: "p < length (dheap (st c))"
    and m: "done_map (st c) key = Some p \<or> spent (st c) p"
    and sg: "fired (dheap (st c) ! p) \<longrightarrow> signalled c key p" by auto
  note R = receive_props [OF r I(1) p]
  have free: "took (wt c j) \<noteq> Some p" for j
  proof (cases "wt c j")
    case (Received k q r')
    with I(2) [of j] R(4) show ?thesis by (auto simp: spent_def)
  next
    case (Delivered k q r')
    with I(2) [of j] R(4) show ?thesis by (auto simp: spent_def)
  qed auto
  have same: "fired (dheap s' ! q) = fired (dheap (st c) ! q)"
    "dresult (dheap s' ! q) = dresult (dheap (st c) ! q)"
    "spent (st c) q \<Longrightarrow> spent s' q" "done_map s' = done_map (st c)"
    "length (dheap s') = length (dheap (st c))" for q
    using R(1) p by (auto simp: nth_list_update spent_def)
  have sgn: "signalled ?c k q = signalled c k q" for k q
    using same by (simp add: signalled_def)
  have "waiter_ok ?c x" if "waiter_ok c x" for x
    using that same sgn by (cases x) auto
  with I(2) have "waiter_ok ?c (wt c j)" for j by blast
  moreover have "waiter_ok ?c (Received key p r)"
    using R p m sg same sgn by (auto simp: spent_def)
  moreover have "mem_inv s'" by (rule wait_receive_inv [OF r I(1)])
  ultimately show ?thesis
    using I(3-6) free same(1,4,5) sgn by (intro msys_invI) (auto split: if_splits)
qed

lemma msys_inv_consume:
  assumes inv: "msys_inv c" and w: "wt c i = Received key p r"
  shows "msys_inv (c\<lparr>st := wait_consume key (st c), wt := (wt c)(i := Delivered key p r)\<rparr>)"
    (is "msys_inv ?c")
proof -
  note I = msys_invD [OF inv]
  from I(2) [of i] w have k: "done_map (st c) key = Some p" and sp: "spent (st c) p" by auto
  have same: "dheap (wait_consume key (st c)) = dheap (st c)"
    "done_map (wait_consume key (st c)) k' = (if k' = key then None else done_map (st c) k')" for k'
    by (auto simp: wait_consume_def)
  have sgn: "signalled ?c k' q = signalled c k' q" for k' q
    by (simp add: signalled_def same)
  have own: "k' = key" if "done_map (st c) k' = Some p" for k'
    using mem_invD(2) [OF I(1) that k] .
  have "waiter_ok ?c (wt c j)" if "j \<noteq> i" for j
  proof (cases "wt c j")
    case (Received k' q r')
    with I(2) [of j] have q: "done_map (st c) k' = Some q" by auto
    have "k' \<noteq> key"
    proof
      assume "k' = key"
      with q k have "q = p" by simp
      with I(3) [of i p j] w Received that show False by auto
    qed
    with I(2) [of j] Received same sgn show ?thesis by (auto simp: spent_def)
  qed (use I(2) [of j] k sp same sgn in \<open>auto simp: spent_def\<close>)
  moreover have "waiter_ok ?c (Delivered key p r)"
    using I(2) [of i] w same sgn own by (auto simp: spent_def)
  moreover have "took (wt ?c j) = took (wt c j)" for j
    using w by auto
  moreover have "mem_inv (wait_consume key (st c))" by (rule wait_consume_inv [OF I(1)])
  ultimately show ?thesis
    using I(3-6) same sgn by (intro msys_invI) (auto split: if_splits)
qed

lemma msys_inv_leave:
  assumes "msys_inv c" and "wt c i = Parked key p" and "x = TimedOut key p \<or> x = Cancelled key p e"
  shows "msys_inv (c\<lparr>wt := (wt c)(i := x)\<rparr>)"
proof -
  have "waiter_ok (c\<lparr>wt := (wt c)(i := x)\<rparr>) y = waiter_ok c y" for y
    by (cases y) (simp_all add: signalled_def)
  moreover have "took (((wt c)(i := x)) j) = took (wt c j)" for j
    using assms(2,3) by auto
  ultimately show ?thesis
    using msys_invD [OF assms(1)] assms(3) by (intro msys_invI) (auto simp: signalled_def)
qed

lemma msys_inv_set_result:
  assumes inv: "msys_inv c" and r: "MemoryPendingStore_SetResult key r ttl (st c) = Some (e, s')"
  shows "msys_inv (after_signal key r s' c)"
  using r msys_invD(1) [OF inv]
proof (cases rule: SetResult_cases)
  case dropped
  let ?c = "c\<lparr>signals := signals c @ [(key, r)]\<rparr>"
  note I = msys_invD [OF inv]
  have sgn: "signalled c k q \<Longrightarrow> signalled ?c k q" for k q
    by (auto simp: signalled_def nth_append)
  have "waiter_ok c w \<Longrightarrow> waiter_ok ?c w" for w
    by (cases w) (auto simp: sgn)
  then have "msys_inv ?c"
    using I sgn by (intro msys_invI) (auto simp: less_SucI)
  with dropped show ?thesis by (simp add: after_signal_def)
next
  case (fresh p s1)
  let ?c = "c\<lparr>st := s', signals := signals c @ [(key, r)], sig_of := (sig_of c)(p := length (signals c))\<rparr>"
  let ?c1 = "c\<lparr>st := s1\<rparr>"
  note P = done_entry_props [OF fresh(2) msys_invD(1) [OF inv]]
  have inv1: "msys_inv ?c1"
    using msys_inv_enter_store [OF inv fresh(2)] .
  note I = msys_invD [OF inv1, simplified]
  have heap: "dheap s' ! q = (if q = p then \<lparr>ch = [r], dresult = r, fired = True\<rparr> else dheap s1 ! q)"
    "length (dheap s') = length (dheap s1)" "done_map s' = done_map s1" for q
    using fresh(3) P(3) by auto
  have new: "signalled ?c key p"
    by (simp add: signalled_def heap)
  have sgn: "signalled ?c1 k q \<Longrightarrow> q \<noteq> p \<Longrightarrow> signalled ?c k q" for k q
    by (auto simp: signalled_def nth_append heap)
  have own: "k = key" if "done_map s1 k = Some p" for k
    using mem_invD(2) [OF P(1) that P(2)] .
  have ok: "waiter_ok ?c w" if "waiter_ok ?c1 w" for w
  proof (cases w)
    case (Parked k q)
    with that new sgn own fresh(4) heap show ?thesis
      by (cases "q = p") (auto simp: spent_def)
  qed (use that sgn fresh(4) heap in \<open>auto simp: spent_def\<close>)
  have "msys_inv ?c"
  proof (rule msys_invI)
    show "mem_inv (st ?c)" using SetResult_inv [OF r msys_invD(1) [OF inv]] by simp
    show "waiter_ok ?c (wt ?c j)" for j using ok I(2) by simp
    show "i = j" if "took (wt ?c i) = Some q" "took (wt ?c j) = Some q" for i j q
      using I(3) that by simp
    show "signalled ?c k q" if "done_map (st ?c) k = Some q" "fired (dheap (st ?c) ! q)" for k q
      using that I(4) new sgn own heap by (cases "q = p") auto
    show "a = b" if "a < length (dheap (st ?c))" "b < length (dheap (st ?c))"
      "fired (dheap (st ?c) ! a)" "fired (dheap (st ?c) ! b)" "sig_of ?c a = sig_of ?c b" for a b
      using that I(5) [of a b] I(6) [of a] I(6) [of b] heap by (cases "a = p"; cases "b = p") simp_all
    show "sig_of ?c q < length (signals ?c)"
      if "q < length (dheap (st ?c))" "fired (dheap (st ?c) ! q)" for q
      using that I(6) heap by (auto simp: less_SucI split: if_splits)
  qed
  with fresh(1) show ?thesis by (simp add: after_signal_def)
qed

lemma msys_step_inv: "msys_step c c' \<Longrightarrow> msys_inv c \<Longrightarrow> msys_inv c'"
proof (induction rule: msys_step.induct)
  case (create key m ttl c h e s' h')
  then show ?case
    using msys_inv_pending by (auto simp: MemoryPendingStore_Create_def time_Now_def Let_def)
next
  case (get key c h x s' h')
  then show ?case
    using msys_inv_pending
    by (auto simp: MemoryPendingStore_Get_def time_Now_def Let_def split: option.splits if_splits)
next
  case (pop key c h x s' h')
  then show ?case
    using msys_inv_pending
    by (auto simp: MemoryPendingStore_Pop_def time_Now_def Let_def split: option.splits if_splits)
qed (auto intro: msys_inv_enter msys_inv_receive msys_inv_consume msys_inv_leave msys_inv_set_result)

lemma msys_reachable_inv: "msys_reachable c \<Longrightarrow> msys_inv c"
proof (induction rule: msys_reachable.induct)
  case start
  show ?case
    by (rule msys_invI) (auto simp: msys_init_def NewMemoryPendingStore_def mem_inv_def)
next
  case (step c c')
  then show ?case by (blast intro: msys_step_inv)
qed

subsection \<open>An executable scheduler\<close>

text \<open>
  The steps of waiters and signallers as a function of an explicit schedule, for evaluating
  concrete interleavings; every scheduled step is a step of the relation.
\<close>

datatype sched =
    Enter nat string
  | Receive nat
  | Consume nat
  | Timeout nat
  | Signal string "gomap option"

fun drive :: "sched \<Rightarrow> msys \<Rightarrow> msys option" where
  "drive (Enter i key) c =
     (case wt c i of
        Idle \<Rightarrow> (let (p, s') = done_entry key (st c)
                 in Some (c\<lparr>st := s', wt := (wt c)(i := Parked key p)\<rparr>))
      | _ \<Rightarrow> None)"
| "drive (Receive i) c =
     (case wt c i of
        Parked key p \<Rightarrow>
          (case wait_receive p (st c) of
             None \<Rightarrow> None
           | Some (r, s') \<Rightarrow> Some (c\<lparr>st := s', wt := (wt c)(i := Received key p r)\<rparr>))
      | _ \<Rightarrow> None)"
| "drive (Consume i) c =
     (case wt c i of
        Received key p r \<Rightarrow>
          Some (c\<lparr>st := wait_consume key (st c), wt := (wt c)(i := Delivered key p r)\<rparr>)
      | _ \<Rightarrow> None)"
| "drive (Timeout i) c =
     (case wt c i of
        Parked key p \<Rightarrow> Some (c\<lparr>wt := (wt c)(i := TimedOut key p)\<rparr>)
      | _ \<Rightarrow> None)"
| "drive (Signal key r) c =
     (case MemoryPendingStore_SetResult key r 120 (st c) of
        None \<Rightarrow> None
      | Some (e, s') \<Rightarrow>
          Some (after_signal key r s' c))"

fun drive_all :: "sched list \<Rightarrow> msys \<Rightarrow> msys option" where
  "drive_all [] c = Some c"
| "drive_all (x # xs) c = (case drive x c of None \<Rightarrow> None | Some c' \<Rightarrow> drive_all xs c')"

lemma drive_step: "drive x c = Some c' \<Longrightarrow> msys_step c c'"
  by (cases x)
    (auto split: waiter.splits option.splits prod.splits intro: msys_step.intros simp: Let_def)

lemma drive_all_reachable: "drive_all xs c = Some c' \<Longrightarrow> msys_reachable c \<Longrightarrow> msys_reachable c'"
  by (induction xs arbitrary: c)
    (auto split: option.splits intro: msys_reachable.step dest!: drive_step)

lemmas drive_eval = msys_init_def NewMemoryPendingStore_def done_entry_def wait_receive_def
  wait_consume_def MemoryPendingStore_SetResult_def chan_send_def fires_def after_signal_def Let_def

subsection \<open>Properties\<close>

text \<open>
  C5: a result is delivered at most once. In every reachable state of any number of goroutines, two
  waiters that returned a result got it from two different \<^verbatim>\<open>SetResult\<close> calls, each with the key
  and the value of its own call.
\<close>

theorem signal_delivered_once:
  assumes "msys_reachable c" and "wt c i = Delivered k p r" and "wt c j = Delivered k' p' r'" and "i \<noteq> j"
  shows "\<exists>m n. m < length (signals c) \<and> n < length (signals c) \<and> m \<noteq> n \<and>
           signals c ! m = (k, r) \<and> signals c ! n = (k', r')"
proof -
  note I = msys_invD [OF msys_reachable_inv [OF assms(1)]]
  from I(2) [of i] I(2) [of j] assms(2,3)
  have s: "signalled c k p" "signalled c k' p'" "spent (st c) p" "spent (st c) p'"
    and l: "p < length (dheap (st c))" "p' < length (dheap (st c))"
    and r: "dresult (dheap (st c) ! p) = r" "dresult (dheap (st c) ! p') = r'" by auto
  from I(3) [of i p j] assms(2-4) have "p \<noteq> p'" by auto
  with I(5) [of p p'] s(3,4) l have "sig_of c p \<noteq> sig_of c p'" by (auto simp: spent_def)
  with s r show ?thesis unfolding signalled_def by blast
qed

theorem signal_delivered_once_witness:
  "\<exists>c. msys_reachable c \<and> wt c 0 = Delivered ''k'' 0 (Some Map.empty) \<and>
     wt c 1 = Delivered ''k'' 1 None \<and>
     (\<exists>m n. m < length (signals c) \<and> n < length (signals c) \<and> m \<noteq> n \<and>
           signals c ! m = (''k'', Some Map.empty) \<and> signals c ! n = (''k'', None))"
proof -
  let ?run = "drive_all [Signal ''k'' (Some Map.empty), Enter 0 ''k'', Receive 0, Consume 0,
    Enter 1 ''k'', Signal ''k'' None, Receive 1, Consume 1] msys_init"
  obtain c where c: "?run = Some c" and w: "wt c 0 = Delivered ''k'' 0 (Some Map.empty)"
    "wt c 1 = Delivered ''k'' 1 None"
    by (simp add: drive_eval)
  from c have "msys_reachable c" by (rule drive_all_reachable) (rule msys_reachable.start)
  with signal_delivered_once [OF this w] w show ?thesis by auto
qed



text \<open>
  C31: \<^verbatim>\<open>SetResult\<close> returns in every reachable state: its send on the buffered channel, made with
  the mutex held, never blocks.
\<close>

theorem set_result_never_blocks:
  assumes "msys_reachable c"
  shows "\<exists>s'. MemoryPendingStore_SetResult key r ttl (st c) = Some (None, s')"
  using SetResult_total [OF msys_invD(1) [OF msys_reachable_inv [OF assms]]] by blast

theorem set_result_never_blocks_witness:
  "\<exists>s'. MemoryPendingStore_SetResult ''k'' None 120 (st msys_init) = Some (None, s')"
  using set_result_never_blocks [OF msys_reachable.start] by blast

end
