(* ===== verification/Crypto.thy ===== *)
theory Crypto
  imports Go_Runtime
begin

unbundle bit_operations_syntax

text \<open>
  The functions of \<^verbatim>\<open>crypto/sha256\<close>, \<^verbatim>\<open>crypto/aes\<close>, \<^verbatim>\<open>crypto/cipher\<close> and
  \<^verbatim>\<open>encoding/base64\<close> that the stores use, written out after FIPS 180-4, FIPS 197, NIST SP 800-38D
  and RFC 4648. Everything is executable. The lemmas are about the modes: what GCM seals it opens,
  and what it opens it sealed; none of them depends on the block cipher.
\<close>

type_synonym byte = "8 word"

definition to_bytes :: "string \<Rightarrow> byte list" where
  "to_bytes s = map (\<lambda>c. word_of_nat (of_char c)) s"

definition of_bytes :: "byte list \<Rightarrow> string" where
  "of_bytes bs = map (\<lambda>b. char_of (unat b)) bs"

text \<open>Big-endian encodings of a number in \<open>n\<close> bytes, and back.\<close>

fun be_bytes :: "nat \<Rightarrow> nat \<Rightarrow> byte list" where
  "be_bytes 0 v = []"
| "be_bytes (Suc n) v = be_bytes n (v div 256) @ [word_of_nat (v mod 256)]"

definition be_nat :: "byte list \<Rightarrow> nat" where
  "be_nat bs = fold (\<lambda>b a. a * 256 + unat b) bs 0"

fun chunks :: "nat \<Rightarrow> nat \<Rightarrow> 'a list \<Rightarrow> 'a list list" where
  "chunks 0 k xs = []"
| "chunks (Suc n) k xs = (if xs = [] then [] else take k xs # chunks n k (drop k xs))"

subsection \<open>SHA-256\<close>

text \<open>
  The round constants are the first 32 bits of the fractional parts of the cube roots of the first 64
  primes; the root of \<open>p * 2 ^ 96\<close> is found bit by bit from the top.
\<close>

definition icbrt :: "int \<Rightarrow> int" where
  "icbrt n = fold (\<lambda>i r. if (r + 2 ^ i) ^ 3 \<le> n then r + 2 ^ i else r) (rev [0..<36]) 0"

definition first_primes :: "int list" where
  "first_primes =
     [2, 3, 5, 7, 11, 13, 17, 19, 23, 29, 31, 37, 41, 43, 47, 53, 59, 61, 67, 71, 73, 79,
      83, 89, 97, 101, 103, 107, 109, 113, 127, 131, 137, 139, 149, 151, 157, 163, 167, 173, 179, 181, 191, 193,
      197, 199, 211, 223, 227, 229, 233, 239, 241, 251, 257, 263, 269, 271, 277, 281, 283, 293, 307, 311]"

definition sha256_K :: "32 word list" where
  "sha256_K = map (\<lambda>p. word_of_int (icbrt (p * 2 ^ 96))) first_primes"

definition sha256_H0 :: "32 word list" where
  "sha256_H0 =
     [0x6a09e667, 0xbb67ae85, 0x3c6ef372, 0xa54ff53a, 0x510e527f, 0x9b05688c, 0x1f83d9ab, 0x5be0cd19]"

definition sha256_pad :: "byte list \<Rightarrow> byte list" where
  "sha256_pad m =
     m @ [0x80] @ replicate ((119 - length m mod 64) mod 64) 0 @ be_bytes 8 (8 * length m)"

definition sha256_extend :: "32 word list \<Rightarrow> 32 word list" where
  "sha256_extend w =
     (let i = length w; x = w ! (i - 15); y = w ! (i - 2);
          s0 = word_rotr 7 x XOR word_rotr 18 x XOR drop_bit 3 x;
          s1 = word_rotr 17 y XOR word_rotr 19 y XOR drop_bit 10 y
      in w @ [w ! (i - 16) + s0 + w ! (i - 7) + s1])"

fun sha256_round :: "32 word \<times> 32 word \<Rightarrow> 32 word list \<Rightarrow> 32 word list" where
  "sha256_round (k, wi) [a, b, c, d, e, f, g, h] =
     (let s1 = word_rotr 6 e XOR word_rotr 11 e XOR word_rotr 25 e;
          chs = (e AND f) XOR (NOT e AND g);
          t1 = h + s1 + chs + k + wi;
          s0 = word_rotr 2 a XOR word_rotr 13 a XOR word_rotr 22 a;
          maj = (a AND b) XOR (a AND c) XOR (b AND c)
      in [t1 + s0 + maj, a, b, c, d + t1, e, f, g])"
| "sha256_round _ s = s"

definition sha256_block :: "byte list \<Rightarrow> 32 word list \<Rightarrow> 32 word list" where
  "sha256_block blk hs =
     (let w0 = map (\<lambda>c. word_of_nat (be_nat c)) (chunks 16 4 blk);
          w = (sha256_extend ^^ 48) w0
      in map2 (+) hs (fold sha256_round (zip sha256_K w) hs))"

definition sha256_Sum256 :: "string \<Rightarrow> string" where
  "sha256_Sum256 s =
     (let m = sha256_pad (to_bytes s);
          hs = fold sha256_block (chunks (length m) 64 m) sha256_H0
      in of_bytes (concat (map (\<lambda>h. be_bytes 4 (unat h)) hs)))"

subsection \<open>AES-256\<close>

definition aes_sbox :: "byte list" where
  "aes_sbox =
     [0x63, 0x7c, 0x77, 0x7b, 0xf2, 0x6b, 0x6f, 0xc5, 0x30, 0x01, 0x67, 0x2b, 0xfe, 0xd7, 0xab, 0x76,
      0xca, 0x82, 0xc9, 0x7d, 0xfa, 0x59, 0x47, 0xf0, 0xad, 0xd4, 0xa2, 0xaf, 0x9c, 0xa4, 0x72, 0xc0,
      0xb7, 0xfd, 0x93, 0x26, 0x36, 0x3f, 0xf7, 0xcc, 0x34, 0xa5, 0xe5, 0xf1, 0x71, 0xd8, 0x31, 0x15,
      0x04, 0xc7, 0x23, 0xc3, 0x18, 0x96, 0x05, 0x9a, 0x07, 0x12, 0x80, 0xe2, 0xeb, 0x27, 0xb2, 0x75,
      0x09, 0x83, 0x2c, 0x1a, 0x1b, 0x6e, 0x5a, 0xa0, 0x52, 0x3b, 0xd6, 0xb3, 0x29, 0xe3, 0x2f, 0x84,
      0x53, 0xd1, 0x00, 0xed, 0x20, 0xfc, 0xb1, 0x5b, 0x6a, 0xcb, 0xbe, 0x39, 0x4a, 0x4c, 0x58, 0xcf,
      0xd0, 0xef, 0xaa, 0xfb, 0x43, 0x4d, 0x33, 0x85, 0x45, 0xf9, 0x02, 0x7f, 0x50, 0x3c, 0x9f, 0xa8,
      0x51, 0xa3, 0x40, 0x8f, 0x92, 0x9d, 0x38, 0xf5, 0xbc, 0xb6, 0xda, 0x21, 0x10, 0xff, 0xf3, 0xd2,
      0xcd, 0x0c, 0x13, 0xec, 0x5f, 0x97, 0x44, 0x17, 0xc4, 0xa7, 0x7e, 0x3d, 0x64, 0x5d, 0x19, 0x73,
      0x60, 0x81, 0x4f, 0xdc, 0x22, 0x2a, 0x90, 0x88, 0x46, 0xee, 0xb8, 0x14, 0xde, 0x5e, 0x0b, 0xdb,
      0xe0, 0x32, 0x3a, 0x0a, 0x49, 0x06, 0x24, 0x5c, 0xc2, 0xd3, 0xac, 0x62, 0x91, 0x95, 0xe4, 0x79,
      0xe7, 0xc8, 0x37, 0x6d, 0x8d, 0xd5, 0x4e, 0xa9, 0x6c, 0x56, 0xf4, 0xea, 0x65, 0x7a, 0xae, 0x08,
      0xba, 0x78, 0x25, 0x2e, 0x1c, 0xa6, 0xb4, 0xc6, 0xe8, 0xdd, 0x74, 0x1f, 0x4b, 0xbd, 0x8b, 0x8a,
      0x70, 0x3e, 0xb5, 0x66, 0x48, 0x03, 0xf6, 0x0e, 0x61, 0x35, 0x57, 0xb9, 0x86, 0xc1, 0x1d, 0x9e,
      0xe1, 0xf8, 0x98, 0x11, 0x69, 0xd9, 0x8e, 0x94, 0x9b, 0x1e, 0x87, 0xe9, 0xce, 0x55, 0x28, 0xdf,
      0x8c, 0xa1, 0x89, 0x0d, 0xbf, 0xe6, 0x42, 0x68, 0x41, 0x99, 0x2d, 0x0f, 0xb0, 0x54, 0xbb, 0x16]"

definition sub_byte :: "byte \<Rightarrow> byte" where
  "sub_byte b = aes_sbox ! unat b"

definition xtime :: "byte \<Rightarrow> byte" where
  "xtime b = push_bit 1 b XOR (if bit b 7 then 0x1b else 0)"

definition xor_bytes :: "byte list \<Rightarrow> byte list \<Rightarrow> byte list" where
  "xor_bytes xs ys = map2 (\<lambda>x y. x XOR y) xs ys"

text \<open>The key schedule: one four-byte word per step, sixty in all.\<close>

definition aes_expand_step :: "byte list list \<times> byte \<Rightarrow> byte list list \<times> byte" where
  "aes_expand_step s =
     (let (ws, rcon) = s; i = length ws; t = ws ! (i - 1)
      in if i mod 8 = 0
         then (ws @ [xor_bytes (ws ! (i - 8)) (xor_bytes (map sub_byte (rotate1 t)) [rcon, 0, 0, 0])], xtime rcon)
         else if i mod 8 = 4 then (ws @ [xor_bytes (ws ! (i - 8)) (map sub_byte t)], rcon)
         else (ws @ [xor_bytes (ws ! (i - 8)) t], rcon))"

definition aes_round_keys :: "byte list \<Rightarrow> byte list list" where
  "aes_round_keys key =
     map concat (chunks 15 4 (fst ((aes_expand_step ^^ 52) (chunks 8 4 key, 1))))"

definition shift_rows :: "byte list \<Rightarrow> byte list" where
  "shift_rows s = map (\<lambda>i. s ! i) [0, 5, 10, 15, 4, 9, 14, 3, 8, 13, 2, 7, 12, 1, 6, 11]"

fun mix_column :: "byte list \<Rightarrow> byte list" where
  "mix_column [a, b, c, d] =
     (let m2 = xtime; m3 = (\<lambda>x. xtime x XOR x)
      in [m2 a XOR m3 b XOR c XOR d, a XOR m2 b XOR m3 c XOR d,
          a XOR b XOR m2 c XOR m3 d, m3 a XOR b XOR c XOR m2 d])"
| "mix_column s = s"

definition aes_round :: "byte list \<Rightarrow> byte list \<Rightarrow> byte list" where
  "aes_round rk s = xor_bytes (concat (map mix_column (chunks 4 4 (shift_rows (map sub_byte s))))) rk"

definition aes_encrypt :: "byte list \<Rightarrow> byte list \<Rightarrow> byte list" where
  "aes_encrypt key blk =
     (let rks = aes_round_keys key;
          s = fold aes_round (take 13 (drop 1 rks)) (xor_bytes blk (rks ! 0))
      in xor_bytes (shift_rows (map sub_byte s)) (rks ! 14))"

subsection \<open>GCM\<close>

text \<open>The block cipher is an argument \<open>E\<close>; a block is sixteen bytes.\<close>

type_synonym block_cipher = "byte list \<Rightarrow> byte list"

definition block_word :: "byte list \<Rightarrow> 128 word" where
  "block_word bs = word_of_nat (be_nat bs)"

definition gf128_step :: "bool \<Rightarrow> 128 word \<times> 128 word \<Rightarrow> 128 word \<times> 128 word" where
  "gf128_step b zv =
     (let (z, v) = zv
      in (if b then z XOR v else z,
          drop_bit 1 v XOR (if bit v 0 then push_bit 120 0xe1 else 0)))"

definition gf128_mul :: "128 word \<Rightarrow> 128 word \<Rightarrow> 128 word" where
  "gf128_mul x y = fst (fold gf128_step (map (\<lambda>i. bit x (127 - i)) [0..<128]) (0, y))"

definition pad16 :: "byte list \<Rightarrow> byte list" where
  "pad16 bs = bs @ replicate ((16 - length bs mod 16) mod 16) 0"

definition ghash :: "128 word \<Rightarrow> byte list \<Rightarrow> 128 word" where
  "ghash h bs = fold (\<lambda>blk y. gf128_mul (y XOR block_word blk) h) (chunks (length bs) 16 bs) 0"

definition gcm_counter :: "byte list \<Rightarrow> nat \<Rightarrow> byte list" where
  "gcm_counter nonce i = nonce @ be_bytes 4 ((i + 1) mod 2 ^ 32)"

definition gcm_keystream :: "block_cipher \<Rightarrow> byte list \<Rightarrow> nat \<Rightarrow> byte list" where
  "gcm_keystream E nonce n =
     take n (concat (map (\<lambda>i. E (gcm_counter nonce (i + 1))) [0..<(n + 15) div 16]))"

definition gcm_tag :: "block_cipher \<Rightarrow> byte list \<Rightarrow> byte list \<Rightarrow> byte list" where
  "gcm_tag E nonce ct =
     (let h = block_word (E (replicate 16 0));
          s = ghash h (pad16 ct @ be_bytes 8 0 @ be_bytes 8 (8 * length ct))
      in xor_bytes (E (gcm_counter nonce 0)) (be_bytes 16 (unat s)))"

definition gcm_Seal :: "block_cipher \<Rightarrow> byte list \<Rightarrow> byte list \<Rightarrow> byte list" where
  "gcm_Seal E nonce pt =
     (let ct = xor_bytes pt (gcm_keystream E nonce (length pt)) in ct @ gcm_tag E nonce ct)"

definition gcm_Open :: "block_cipher \<Rightarrow> byte list \<Rightarrow> byte list \<Rightarrow> byte list option" where
  "gcm_Open E nonce sealed =
     (if length sealed < 16 then None
      else let n = length sealed - 16; ct = take n sealed
           in if drop n sealed = gcm_tag E nonce ct then Some (xor_bytes ct (gcm_keystream E nonce n))
              else None)"

subsection \<open>Base64\<close>

definition base64_value :: "char \<Rightarrow> nat option" where
  "base64_value c =
     (let n = of_char c :: nat
      in if 65 \<le> n \<and> n \<le> 90 then Some (n - 65)
         else if 97 \<le> n \<and> n \<le> 122 then Some (n - 71)
         else if 48 \<le> n \<and> n \<le> 57 then Some (n + 4)
         else if n = 43 then Some 62
         else if n = 47 then Some 63
         else None)"

text \<open>
  \<^verbatim>\<open>base64.StdEncoding.DecodeString\<close>: newlines are skipped anywhere, every quantum has four
  characters, padding may end the last one, and unused trailing bits are not checked. \<open>None\<close> is the
  corrupt-input error.
\<close>

fun base64_quanta :: "string \<Rightarrow> nat list option" where
  "base64_quanta [] = Some []"
| "base64_quanta (a # b # c # d # r) =
     (case (base64_value a, base64_value b) of
        (Some x, Some y) \<Rightarrow>
          if c = CHR ''='' then (if d = CHR ''='' \<and> r = [] then Some [x * 4 + y div 16] else None)
          else (case base64_value c of
                  None \<Rightarrow> None
                | Some z \<Rightarrow>
                    if d = CHR ''=''
                    then (if r = [] then Some [x * 4 + y div 16, y mod 16 * 16 + z div 4] else None)
                    else (case (base64_value d, base64_quanta r) of
                            (Some u, Some rest) \<Rightarrow>
                              Some ([x * 4 + y div 16, y mod 16 * 16 + z div 4, z mod 4 * 64 + u] @ rest)
                          | _ \<Rightarrow> None))
      | _ \<Rightarrow> None)"
| "base64_quanta _ = None"

definition base64_DecodeString :: "string \<Rightarrow> string option" where
  "base64_DecodeString s =
     map_option (map char_of) (base64_quanta (filter (\<lambda>c. c \<noteq> CHR 0x0A \<and> c \<noteq> CHR 0x0D) s))"

subsection \<open>What is sealed opens, what opens was sealed\<close>

lemma of_bytes_to_bytes [simp]: "of_bytes (to_bytes s) = s"
proof -
  have "char_of (unat (word_of_nat (of_char c) :: byte)) = c" for c
    by (simp add: unsigned_of_nat char_of_take_bit_eq)
  then show ?thesis by (simp add: of_bytes_def to_bytes_def comp_def)
qed

lemma to_bytes_of_bytes [simp]: "to_bytes (of_bytes bs) = bs"
proof -
  have "word_of_nat (of_char (char_of (unat b) :: char)) = (b :: byte)" for b
  proof -
    have "unat b < 256" using unsigned_less [of b] by simp
    then show ?thesis by (simp add: of_char_of)
  qed
  then show ?thesis by (simp add: of_bytes_def to_bytes_def comp_def map_idI)
qed

lemma length_of_bytes [simp]: "length (of_bytes bs) = length bs"
  by (simp add: of_bytes_def)

lemma length_to_bytes [simp]: "length (to_bytes s) = length s"
  by (simp add: to_bytes_def)

lemma to_bytes_append [simp]: "to_bytes (a @ b) = to_bytes a @ to_bytes b"
  by (simp add: to_bytes_def)

lemma length_be_bytes [simp]: "length (be_bytes n v) = n"
  by (induction n arbitrary: v) auto

lemma length_xor_bytes [simp]: "length (xor_bytes xs ys) = min (length xs) (length ys)"
  by (simp add: xor_bytes_def)

lemma xor_bytes_cancel: "length xs \<le> length ys \<Longrightarrow> xor_bytes (xor_bytes xs ys) ys = xs"
  by (induction xs ys rule: list_induct2') (auto simp: xor_bytes_def xor.assoc)

lemma length_concat_blocks:
  "(\<And>x. x \<in> set xs \<Longrightarrow> length (f x) = 16) \<Longrightarrow> length (concat (map f xs)) = 16 * length xs"
  by (induction xs) auto

lemma length_gcm_keystream:
  assumes "\<And>b. length b = 16 \<Longrightarrow> length (E b) = 16" and "length nonce = 12"
  shows "length (gcm_keystream E nonce n) = n"
proof -
  have "length (concat (map (\<lambda>i. E (gcm_counter nonce (i + 1))) [0..<(n + 15) div 16])) = 16 * ((n + 15) div 16)"
    by (subst length_concat_blocks) (simp_all add: gcm_counter_def assms)
  moreover have "n \<le> 16 * ((n + 15) div 16)" by simp
  ultimately show ?thesis unfolding gcm_keystream_def by simp
qed

lemma length_gcm_tag:
  assumes "\<And>b. length b = 16 \<Longrightarrow> length (E b) = 16" and "length nonce = 12"
  shows "length (gcm_tag E nonce ct) = 16"
  using assms by (simp add: gcm_tag_def gcm_counter_def)

lemma gcm_Open_Seal:
  assumes "\<And>b. length b = 16 \<Longrightarrow> length (E b) = 16" and "length nonce = 12"
  shows "gcm_Open E nonce (gcm_Seal E nonce pt) = Some pt"
proof -
  let ?ct = "xor_bytes pt (gcm_keystream E nonce (length pt))"
  have "length ?ct = length pt" by (simp add: length_gcm_keystream [OF assms])
  then show ?thesis
    by (simp add: gcm_Open_def gcm_Seal_def Let_def length_gcm_tag [OF assms] xor_bytes_cancel
        length_gcm_keystream [OF assms])
qed

lemma gcm_Seal_Open:
  assumes "\<And>b. length b = 16 \<Longrightarrow> length (E b) = 16" and "length nonce = 12"
    and "gcm_Open E nonce sealed = Some pt"
  shows "sealed = gcm_Seal E nonce pt"
proof -
  let ?n = "length sealed - 16"
  from assms(3) have "16 \<le> length sealed" and t: "drop ?n sealed = gcm_tag E nonce (take ?n sealed)"
    and p: "pt = xor_bytes (take ?n sealed) (gcm_keystream E nonce ?n)"
    by (auto simp: gcm_Open_def Let_def split: if_splits)
  then have l: "length pt = ?n" by (simp add: length_gcm_keystream [OF assms(1,2)])
  have "xor_bytes pt (gcm_keystream E nonce ?n) = take ?n sealed"
    unfolding p by (rule xor_bytes_cancel) (simp add: length_gcm_keystream [OF assms(1,2)])
  then show ?thesis unfolding gcm_Seal_def Let_def l using t by (metis append_take_drop_id)
qed

lemma length_gcm_Seal:
  assumes "\<And>b. length b = 16 \<Longrightarrow> length (E b) = 16" and "length nonce = 12"
  shows "length (gcm_Seal E nonce pt) = length pt + 16"
  by (simp add: gcm_Seal_def Let_def length_gcm_keystream [OF assms] length_gcm_tag [OF assms])

lemma chunks_exact:
  "length xs = n * k \<Longrightarrow> 0 < k \<Longrightarrow> length (chunks n k xs) = n \<and> (\<forall>c \<in> set (chunks n k xs). length c = k) \<and> concat (chunks n k xs) = xs"
proof (induction n arbitrary: xs)
  case (Suc n)
  from Suc.IH [of "drop k xs"] Suc.prems show ?case by (cases "xs = []") auto
qed simp

lemma expand_step_words:
  assumes "\<forall>x \<in> set ws. length x = 4" and "8 \<le> length ws" and "aes_expand_step (ws, rc) = (ws', rc')"
  shows "(\<forall>x \<in> set ws'. length x = 4) \<and> length ws' = Suc (length ws)"
proof -
  have "length (ws ! (length ws - 8)) = 4" "length (ws ! (length ws - 1)) = 4" using assms(1,2) by auto
  with assms show ?thesis by (auto simp: aes_expand_step_def Let_def split: if_splits)
qed

lemma expand_words:
  assumes "\<forall>x \<in> set ws. length x = 4" and "8 \<le> length ws"
  shows "(\<forall>x \<in> set (fst ((aes_expand_step ^^ n) (ws, rc))). length x = 4) \<and>
    length (fst ((aes_expand_step ^^ n) (ws, rc))) = length ws + n"
proof (induction n)
  case (Suc n)
  obtain ws1 rc1 where s: "(aes_expand_step ^^ n) (ws, rc) = (ws1, rc1)" by fastforce
  obtain ws2 rc2 where t: "aes_expand_step (ws1, rc1) = (ws2, rc2)" by fastforce
  from Suc s have "\<forall>x \<in> set ws1. length x = 4" "8 \<le> length ws1" "length ws1 = length ws + n"
    using assms(2) by simp_all
  with expand_step_words [OF _ _ t] s t show ?case by simp
qed (use assms in simp)

lemma round_keys:
  assumes "length key = 32"
  shows "length (aes_round_keys key) = 15" and "i < 15 \<Longrightarrow> length (aes_round_keys key ! i) = 16"
proof -
  have c: "length (chunks 8 4 key) = 8" "\<forall>x \<in> set (chunks 8 4 key). length x = 4"
    using chunks_exact [of key 8 4] assms by auto
  let ?ws = "fst ((aes_expand_step ^^ 52) (chunks 8 4 key, 1))"
  have w: "\<forall>x \<in> set ?ws. length x = 4" "length ?ws = 60"
    using expand_words [of "chunks 8 4 key" 52 1] c by auto
  have g: "length (chunks 15 4 ?ws) = 15" "\<forall>g \<in> set (chunks 15 4 ?ws). length g = 4" "concat (chunks 15 4 ?ws) = ?ws"
    using chunks_exact [of ?ws 15 4] w(2) by auto
  then show "length (aes_round_keys key) = 15" by (simp add: aes_round_keys_def)
  assume i: "i < 15"
  let ?g = "chunks 15 4 ?ws ! i"
  have m: "?g \<in> set (chunks 15 4 ?ws)" using i g(1) by simp
  then have "set ?g \<subseteq> set ?ws" using g(3) by (metis UN_upper set_concat)
  then have "\<forall>x \<in> set ?g. length x = 4" using w(1) by auto
  moreover have "length ?g = 4" using g(2) m by blast
  moreover have "\<forall>x \<in> set g. length x = 4 \<Longrightarrow> length (concat g) = 4 * length g" for g :: "byte list list"
    by (induction g) auto
  ultimately show "length (aes_round_keys key ! i) = 16" using i g(1) by (simp add: aes_round_keys_def)
qed

lemma length_shift_rows [simp]: "length (shift_rows s) = 16"
  by (simp add: shift_rows_def)

lemma length_aes_encrypt:
  assumes "length key = 32"
  shows "length (aes_encrypt key blk) = 16"
  using round_keys(2) [OF assms, of 14] by (simp add: aes_encrypt_def Let_def)

end
