(* ===== verification/Os.thy ===== *)
theory Os
  imports Go_Runtime
begin

text \<open>
  The operating system as the persistent stores use it: environment variables, files by path and
  the standard error stream, with the functions of \<^verbatim>\<open>os\<close> and \<^verbatim>\<open>path/filepath\<close> they call. Every
  system call first consults the fault stream of the host, so each error branch of the callers can
  be taken; a failing write may leave any prefix of its data behind.
\<close>

record os_world = host +
  environ :: "string \<Rightarrow> string"
  files :: "string \<Rightarrow> string option"
  dirs :: "string set"
  stderr_log :: "string list"

definition os_Getenv :: "string \<Rightarrow> 'a os_world_scheme \<Rightarrow> string" where
  "os_Getenv k w = environ w k"

definition os_IsNotExist :: "go_error \<Rightarrow> bool" where
  "os_IsNotExist e \<longleftrightarrow> e = ErrNotExist"

definition os_ReadFile ::
  "string \<Rightarrow> 'a os_world_scheme \<Rightarrow> (go_error + string) \<times> 'a os_world_scheme" where
  "os_ReadFile path w =
     (case io_call w of
        (Some e, w1) \<Rightarrow> (Inl e, w1)
      | (None, w1) \<Rightarrow>
          (case files w1 path of None \<Rightarrow> (Inl ErrNotExist, w1) | Some d \<Rightarrow> (Inr d, w1)))"

definition os_Remove ::
  "string \<Rightarrow> 'a os_world_scheme \<Rightarrow> go_error option \<times> 'a os_world_scheme" where
  "os_Remove path w =
     (case io_call w of
        (Some e, w1) \<Rightarrow> (Some e, w1)
      | (None, w1) \<Rightarrow>
          (case files w1 path of
             None \<Rightarrow> (Some ErrNotExist, w1)
           | Some d \<Rightarrow> (None, w1\<lparr>files := (files w1)(path := None)\<rparr>)))"

definition os_MkdirAll ::
  "string \<Rightarrow> 'a os_world_scheme \<Rightarrow> go_error option \<times> 'a os_world_scheme" where
  "os_MkdirAll path w =
     (case io_call w of
        (Some e, w1) \<Rightarrow> (Some e, w1)
      | (None, w1) \<Rightarrow> (None, w1\<lparr>dirs := insert path (dirs w1)\<rparr>))"

text \<open>Decimal numerals, least significant digit last.\<close>

fun itoa :: "nat \<Rightarrow> string" where
  "itoa n = (if n < 10 then [] else itoa (n div 10)) @ [char_of (48 + n mod 10)]"

declare itoa.simps [simp del]

text \<open>
  \<^verbatim>\<open>os.CreateTemp(dir, ".tmp-*")\<close>: a random 32-bit number completes the name, the file is created
  exclusively, and up to 10000 names are tried while the chosen one exists.
\<close>

definition temp_name :: "string \<Rightarrow> string \<Rightarrow> string" where
  "temp_name dir b =
     dir @ (if dir \<noteq> [] \<and> last dir = CHR ''/'' then [] else ''/'') @ ''.tmp-'' @
     itoa (fold (\<lambda>c a. a * 256 + of_char c) b 0)"

fun create_temp_loop ::
  "nat \<Rightarrow> string \<Rightarrow> 'a os_world_scheme \<Rightarrow> (go_error + string) \<times> 'a os_world_scheme" where
  "create_temp_loop 0 dir w = (Inl (ErrExt ''file exists''), w)"
| "create_temp_loop (Suc n) dir w =
     (let (b, w1) = rand_Read 4 w; name = temp_name dir b
      in case io_call w1 of
           (Some e, w2) \<Rightarrow> (Inl e, w2)
         | (None, w2) \<Rightarrow>
             if dir \<notin> dirs w2 then (Inl ErrNotExist, w2)
             else if files w2 name \<noteq> None then create_temp_loop n dir w2
             else (Inr name, w2\<lparr>files := (files w2)(name \<mapsto> [])\<rparr>))"

definition os_CreateTemp ::
  "string \<Rightarrow> 'a os_world_scheme \<Rightarrow> (go_error + string) \<times> 'a os_world_scheme" where
  "os_CreateTemp dir w = create_temp_loop 10000 dir w"

text \<open>Writing a whole buffer to the open file at the path.\<close>

definition file_Write ::
  "string \<Rightarrow> string \<Rightarrow> 'a os_world_scheme \<Rightarrow> go_error option \<times> 'a os_world_scheme" where
  "file_Write path d w =
     (case io_call w of
        (Some e, w1) \<Rightarrow>
          (let (b, w2) = rand_Read 1 w1
           in (Some e, w2\<lparr>files := (files w2)(path \<mapsto> take (of_char (hd b)) d)\<rparr>))
      | (None, w1) \<Rightarrow> (None, w1\<lparr>files := (files w1)(path \<mapsto> d)\<rparr>))"

definition file_Close :: "'a os_world_scheme \<Rightarrow> go_error option \<times> 'a os_world_scheme" where
  "file_Close w = io_call w"

definition os_Rename ::
  "string \<Rightarrow> string \<Rightarrow> 'a os_world_scheme \<Rightarrow> go_error option \<times> 'a os_world_scheme" where
  "os_Rename old new w =
     (case io_call w of
        (Some e, w1) \<Rightarrow> (Some e, w1)
      | (None, w1) \<Rightarrow>
          (case files w1 old of
             None \<Rightarrow> (Some ErrNotExist, w1)
           | Some d \<Rightarrow> (None, w1\<lparr>files := (files w1)(old := None, new \<mapsto> d)\<rparr>)))"

definition fprintln_stderr :: "string \<Rightarrow> 'a os_world_scheme \<Rightarrow> 'a os_world_scheme" where
  "fprintln_stderr s w = w\<lparr>stderr_log := stderr_log w @ [s]\<rparr>"

subsection \<open>Paths\<close>

fun split_slash :: "string \<Rightarrow> string list" where
  "split_slash [] = [[]]"
| "split_slash (c # cs) =
     (if c = CHR ''/'' then [] # split_slash cs
      else (case split_slash cs of [] \<Rightarrow> [[c]] | p # ps \<Rightarrow> (c # p) # ps))"

fun join_slash :: "string list \<Rightarrow> string" where
  "join_slash [] = []"
| "join_slash [x] = x"
| "join_slash (x # y # ys) = x @ ''/'' @ join_slash (y # ys)"

definition is_rooted :: "string \<Rightarrow> bool" where
  "is_rooted p \<longleftrightarrow> p \<noteq> [] \<and> hd p = CHR ''/''"

text \<open>One component of \<^verbatim>\<open>filepath.Clean\<close>; the stack of kept components has its top first.\<close>

definition clean_step :: "bool \<Rightarrow> string list \<Rightarrow> string \<Rightarrow> string list" where
  "clean_step rooted st e =
     (if e = [] \<or> e = ''.'' then st
      else if e = ''..''
      then (case st of
              [] \<Rightarrow> if rooted then [] else [''..'']
            | t # r \<Rightarrow> if t = ''..'' then ''..'' # st else r)
      else e # st)"

definition clean_stack :: "string \<Rightarrow> string list" where
  "clean_stack p = foldl (clean_step (is_rooted p)) [] (split_slash p)"

definition render_path :: "bool \<Rightarrow> string list \<Rightarrow> string" where
  "render_path rooted st =
     (if rooted then ''/'' @ join_slash (rev st)
      else if st = [] then ''.'' else join_slash (rev st))"

definition filepath_Clean :: "string \<Rightarrow> string" where
  "filepath_Clean p = render_path (is_rooted p) (clean_stack p)"

definition filepath_Join :: "string \<Rightarrow> string \<Rightarrow> string" where
  "filepath_Join a b =
     (if a = [] then (if b = [] then [] else filepath_Clean b) else filepath_Clean (a @ ''/'' @ b))"

text \<open>\<^verbatim>\<open>filepath.Dir\<close>: everything up to the last slash, cleaned.\<close>

definition filepath_Dir :: "string \<Rightarrow> string" where
  "filepath_Dir p = filepath_Clean (rev (dropWhile (\<lambda>c. c \<noteq> CHR ''/'') (rev p)))"

subsection \<open>Injectivity of joined paths\<close>

text \<open>A plain name: one path component that \<^verbatim>\<open>Clean\<close> keeps.\<close>

definition plain_name :: "string \<Rightarrow> bool" where
  "plain_name n \<longleftrightarrow> n \<noteq> [] \<and> n \<noteq> ''.'' \<and> n \<noteq> ''..'' \<and> CHR ''/'' \<notin> set n"

lemma split_slash_nonempty [simp]: "split_slash p \<noteq> []"
  by (induction p) (auto split: list.splits)

lemma split_slash_plain: "CHR ''/'' \<notin> set n \<Longrightarrow> split_slash n = [n]"
  by (induction n) auto

lemma split_slash_append: "split_slash (a @ CHR ''/'' # b) = split_slash a @ split_slash b"
  by (induction a) (auto split: list.splits)

lemma split_slash_set: "x \<in> set (split_slash p) \<Longrightarrow> CHR ''/'' \<notin> set x"
  by (induction p arbitrary: x) (auto split: list.splits if_splits)

lemma split_join: "xs \<noteq> [] \<Longrightarrow> \<forall>x \<in> set xs. CHR ''/'' \<notin> set x \<Longrightarrow> split_slash (join_slash xs) = xs"
  by (induction xs rule: join_slash.induct) (auto simp: split_slash_plain split_slash_append)

lemma clean_step_set: "set (clean_step r st e) \<subseteq> insert e (set st)"
  by (auto simp: clean_step_def split: list.splits)

lemma clean_step_nonempty: "\<forall>x \<in> set st. x \<noteq> [] \<Longrightarrow> \<forall>x \<in> set (clean_step r st e). x \<noteq> []"
  by (auto simp: clean_step_def split: list.splits if_splits)

lemma clean_fold:
  "\<forall>x \<in> set st. x \<noteq> [] \<and> CHR ''/'' \<notin> set x \<Longrightarrow> \<forall>x \<in> set es. CHR ''/'' \<notin> set x \<Longrightarrow>
     \<forall>x \<in> set (foldl (clean_step r) st es). x \<noteq> [] \<and> CHR ''/'' \<notin> set x"
proof (induction es arbitrary: st)
  case (Cons e es)
  have "\<forall>x \<in> set (clean_step r st e). x \<noteq> [] \<and> CHR ''/'' \<notin> set x"
    using clean_step_set [of r st e] clean_step_nonempty [of st r e] Cons.prems by auto
  with Cons.IH [of "clean_step r st e"] Cons.prems show ?case by simp
qed simp

lemma clean_stack_wf: "\<forall>x \<in> set (clean_stack p). x \<noteq> [] \<and> CHR ''/'' \<notin> set x"
  unfolding clean_stack_def by (rule clean_fold) (auto dest: split_slash_set)

lemma Join_plain:
  assumes "plain_name n" and "d \<noteq> []"
  shows "filepath_Join d n = render_path (is_rooted d) (n # clean_stack d)"
proof -
  have "is_rooted (d @ ''/'' @ n) = is_rooted d" using assms(2) by (simp add: is_rooted_def)
  moreover have "clean_stack (d @ ''/'' @ n) = n # clean_stack d"
    using assms by (simp add: clean_stack_def split_slash_append split_slash_plain plain_name_def
        is_rooted_def clean_step_def)
  ultimately show ?thesis using assms(2) by (simp add: filepath_Join_def filepath_Clean_def)
qed

lemma render_split:
  assumes "\<forall>x \<in> set st. x \<noteq> [] \<and> CHR ''/'' \<notin> set x" and "st \<noteq> []"
  shows "split_slash (render_path r st) = (if r then [] # rev st else rev st)"
  using assms split_join [of "rev st"] by (simp add: render_path_def)

lemma render_inj:
  assumes "\<forall>x \<in> set st. x \<noteq> [] \<and> CHR ''/'' \<notin> set x" and "st \<noteq> []"
    and "\<forall>x \<in> set st'. x \<noteq> [] \<and> CHR ''/'' \<notin> set x" and "st' \<noteq> []"
    and "render_path r st = render_path r' st'"
  shows "r = r' \<and> st = st'"
proof -
  define a a' where "a = rev st" and "a' = rev st'"
  have "[] \<notin> set a" "[] \<notin> set a'" using assms(1,3) by (auto simp: a_def a'_def)
  moreover have "(if r then [] # a else a) = (if r' then [] # a' else a')"
    using render_split [OF assms(1,2), of r] render_split [OF assms(3,4), of r'] assms(5)
    unfolding a_def a'_def by simp
  ultimately have "r = r' \<and> a = a'" by (cases r; cases r') auto
  then show ?thesis by (simp add: a_def a'_def)
qed

lemma Join_inj:
  assumes "plain_name n" and "plain_name n'" and "d \<noteq> []" and "d' \<noteq> []"
    and "filepath_Join d n = filepath_Join d' n'"
  shows "n = n' \<and> filepath_Clean d = filepath_Clean d'"
proof -
  have "render_path (is_rooted d) (n # clean_stack d) = render_path (is_rooted d') (n' # clean_stack d')"
    using assms(5) Join_plain [OF assms(1,3)] Join_plain [OF assms(2,4)] by simp
  moreover have "\<forall>x \<in> set (n # clean_stack d). x \<noteq> [] \<and> CHR ''/'' \<notin> set x"
    using assms(1) clean_stack_wf [of d] by (simp add: plain_name_def)
  moreover have "\<forall>x \<in> set (n' # clean_stack d'). x \<noteq> [] \<and> CHR ''/'' \<notin> set x"
    using assms(2) clean_stack_wf [of d'] by (simp add: plain_name_def)
  ultimately have "is_rooted d = is_rooted d' \<and> n # clean_stack d = n' # clean_stack d'"
    by (intro render_inj) simp_all
  then show ?thesis by (simp add: filepath_Clean_def)
qed

text \<open>The last component of a path.\<close>

definition base_name :: "string \<Rightarrow> string" where
  "base_name p = last (split_slash p)"

lemma base_name_Join: "plain_name n \<Longrightarrow> d \<noteq> [] \<Longrightarrow> base_name (filepath_Join d n) = n"
  using clean_stack_wf [of d] by (simp add: base_name_def Join_plain render_split plain_name_def)

subsection \<open>Cleaned paths\<close>

text \<open>A stack \<^verbatim>\<open>Clean\<close> leaves as it is, and that its own results are such stacks.\<close>

fun stack_ok :: "bool \<Rightarrow> string list \<Rightarrow> bool" where
  "stack_ok r [] = True"
| "stack_ok r (x # st) \<longleftrightarrow> x \<noteq> [] \<and> x \<noteq> ''.'' \<and> CHR ''/'' \<notin> set x \<and>
     (x = ''..'' \<longrightarrow> \<not> r \<and> (\<forall>y \<in> set st. y = ''..'')) \<and> stack_ok r st"

lemma clean_step_ok: "stack_ok r st \<Longrightarrow> CHR ''/'' \<notin> set e \<Longrightarrow> stack_ok r (clean_step r st e)"
  by (cases st) (auto simp: clean_step_def)

lemma clean_stack_ok: "stack_ok (is_rooted p) (clean_stack p)"
proof -
  have "stack_ok r (foldl (clean_step r) st es)" if "stack_ok r st" "\<forall>x \<in> set es. CHR ''/'' \<notin> set x" for r st es
    using that by (induction es arbitrary: st) (simp_all add: clean_step_ok)
  then show ?thesis unfolding clean_stack_def using split_slash_set by simp
qed

lemma refold: "stack_ok r st \<Longrightarrow> foldl (clean_step r) [] (rev st) = st"
proof (induction st)
  case (Cons x st)
  then have "foldl (clean_step r) [] (rev (x # st)) = clean_step r st x" by simp
  also have "\<dots> = x # st"
  proof (cases "x = ''..''")
    case True
    with Cons.prems have r: "\<not> r" and "\<forall>y \<in> set st. y = ''..''" by simp_all
    then have "st = [] \<or> hd st = ''..''" using hd_in_set by blast
    with True r show ?thesis by (cases st) (simp_all add: clean_step_def)
  next
    case False
    with Cons.prems show ?thesis by (simp add: clean_step_def)
  qed
  finally show ?case .
qed simp

lemma stack_ok_wf: "stack_ok r st \<Longrightarrow> \<forall>x \<in> set st. x \<noteq> [] \<and> CHR ''/'' \<notin> set x"
  by (induction st) auto

lemma is_rooted_render: "stack_ok r st \<Longrightarrow> is_rooted (render_path r st) = r"
proof (cases "rev st")
  case (Cons x xs)
  moreover assume "stack_ok r st"
  ultimately have "x \<noteq> []" "CHR ''/'' \<notin> set x" using stack_ok_wf [of r st] by (auto dest: arg_cong [of _ _ set])
  then show ?thesis using Cons
    by (cases xs) (auto simp: render_path_def is_rooted_def hd_append neq_Nil_conv)
qed (simp add: render_path_def is_rooted_def)

lemma clean_stack_render: "stack_ok r st \<Longrightarrow> clean_stack (render_path r st) = st"
proof (cases "st = []")
  case True
  then show ?thesis by (simp add: clean_stack_def render_path_def clean_step_def)
next
  case False
  assume ok: "stack_ok r st"
  with False show ?thesis
    using render_split [OF stack_ok_wf [OF ok] False, of r] refold [OF ok] is_rooted_render [OF ok]
    by (cases r) (simp_all add: clean_stack_def clean_step_def)
qed

lemma Clean_render: "stack_ok r st \<Longrightarrow> filepath_Clean (render_path r st) = render_path r st"
  by (simp add: filepath_Clean_def clean_stack_render is_rooted_render)

lemma plain_stack_ok: "plain_name n \<Longrightarrow> stack_ok r st \<Longrightarrow> stack_ok r (n # st)"
  by (simp add: plain_name_def)

lemma Clean_Join: "plain_name n \<Longrightarrow> d \<noteq> [] \<Longrightarrow> filepath_Clean (filepath_Join d n) = filepath_Join d n"
  by (simp add: Join_plain Clean_render plain_stack_ok clean_stack_ok del: stack_ok.simps)

lemma Clean_Join_neq:
  assumes "plain_name n" and "d \<noteq> []"
  shows "filepath_Join d n \<noteq> filepath_Clean d"
proof
  assume "filepath_Join d n = filepath_Clean d"
  then have "clean_stack (render_path (is_rooted d) (n # clean_stack d)) = clean_stack (render_path (is_rooted d) (clean_stack d))"
    using Join_plain [OF assms] by (simp add: filepath_Clean_def)
  then show False
    using clean_stack_render [OF plain_stack_ok [OF assms(1) clean_stack_ok]] clean_stack_render [OF clean_stack_ok] by simp
qed

lemma Join_nonempty: "plain_name n \<Longrightarrow> d \<noteq> [] \<Longrightarrow> filepath_Join d n \<noteq> []"
  using base_name_Join [of n d] by (auto simp: base_name_def plain_name_def)

text \<open>Everything up to the last slash of a joined path is the directory.\<close>

lemma join_slash_append: "xs \<noteq> [] \<Longrightarrow> join_slash (xs @ [x]) = join_slash xs @ ''/'' @ x"
  by (induction xs rule: join_slash.induct) auto

lemma upto_slash: "CHR ''/'' \<notin> set n \<Longrightarrow> rev (dropWhile (\<lambda>c. c \<noteq> CHR ''/'') (rev (a @ ''/'' @ n))) = a @ ''/''"
  by (auto simp: dropWhile_append)

lemma split_trailing: "split_slash (a @ ''/'') = split_slash a @ [[]]"
  using split_slash_append [of a "[]"] by simp

lemma render_nonempty: "stack_ok r st \<Longrightarrow> render_path r st \<noteq> []"
proof (cases "rev st")
  case (Cons x xs)
  moreover assume "stack_ok r st"
  ultimately have "x \<noteq> []" using stack_ok_wf [of r st] by (auto dest: arg_cong [of _ _ set])
  then show ?thesis using Cons by (cases xs) (auto simp: render_path_def)
qed (simp add: render_path_def)

lemma Dir_Join:
  assumes "plain_name n" and "d \<noteq> []"
  shows "filepath_Dir (filepath_Join d n) = filepath_Clean d"
proof -
  let ?r = "is_rooted d" and ?st = "clean_stack d"
  have ok: "stack_ok ?r ?st" by (rule clean_stack_ok)
  have n: "CHR ''/'' \<notin> set n" using assms(1) by (simp add: plain_name_def)
  have e: "clean_step r st [] = st" for r st by (simp add: clean_step_def)
  show ?thesis
  proof (cases "?st = []")
    case True
    have none: "dropWhile (\<lambda>c. c \<noteq> CHR ''/'') (rev n) = []" using n by auto
    have c: "filepath_Clean [] = ''.''" "filepath_Clean ''/'' = ''/''"
      by (simp_all add: filepath_Clean_def clean_stack_def e is_rooted_def render_path_def)
    show ?thesis
    proof (cases ?r)
      case r: True
      have "filepath_Join d n = [] @ ''/'' @ n" using assms True r by (simp add: Join_plain render_path_def)
      then show ?thesis unfolding filepath_Dir_def
        using upto_slash [OF n, of "[]"] c(2) True r by (simp add: filepath_Clean_def [of d] render_path_def)
    next
      case r: False
      have "filepath_Join d n = n" using assms True r by (simp add: Join_plain render_path_def)
      then show ?thesis unfolding filepath_Dir_def
        using c(1) True r by (simp add: none filepath_Clean_def [of d] render_path_def)
    qed
  next
    case False
    have j: "filepath_Join d n = render_path ?r ?st @ ''/'' @ n"
      using assms False by (simp add: Join_plain render_path_def join_slash_append)
    have ne: "render_path ?r ?st \<noteq> []" by (rule render_nonempty [OF ok])
    have "clean_stack (render_path ?r ?st @ ''/'') = clean_stack (render_path ?r ?st)"
      using ne by (simp only: clean_stack_def split_trailing foldl_append) (simp add: e is_rooted_def)
    moreover have "is_rooted (render_path ?r ?st @ ''/'') = is_rooted (render_path ?r ?st)"
      using ne by (simp add: is_rooted_def)
    ultimately have "filepath_Clean (render_path ?r ?st @ ''/'') = filepath_Clean (render_path ?r ?st)"
      by (simp add: filepath_Clean_def)
    then show ?thesis unfolding filepath_Dir_def j upto_slash [OF n] using Clean_render [OF ok] by (simp add: filepath_Clean_def)
  qed
qed

subsection \<open>Temporary names\<close>

lemma itoa_no_slash: "CHR ''/'' \<notin> set (itoa n)"
proof (induction n rule: itoa.induct)
  case (1 n)
  have "char_of (48 + n mod 10) \<noteq> CHR ''/''"
  proof
    assume "char_of (48 + n mod 10) = CHR ''/''"
    then have "of_char (char_of (48 + n mod 10) :: char) = (of_char (CHR ''/'') :: nat)" by simp
    then show False by (simp add: of_char_of)
  qed
  with 1 show ?case by (subst itoa.simps) auto
qed

text \<open>The names \<^verbatim>\<open>os.CreateTemp\<close> makes up here.\<close>

definition is_temp :: "string \<Rightarrow> bool" where
  "is_temp p \<longleftrightarrow> take 5 (base_name p) = ''.tmp-''"

lemma is_temp_name: "is_temp (temp_name dir b)"
proof -
  let ?t = "itoa (fold (\<lambda>c a. a * 256 + of_char c) b 0)"
  have "CHR ''/'' \<notin> set (''.tmp-'' @ ?t)" using itoa_no_slash by simp
  then have s: "split_slash (''.tmp-'' @ ?t) = [''.tmp-'' @ ?t]" by (rule split_slash_plain)
  have "\<exists>d. temp_name dir b = d @ CHR ''/'' # (''.tmp-'' @ ?t)"
  proof (cases "dir \<noteq> [] \<and> last dir = CHR ''/''")
    case True
    then obtain d where "dir = d @ [CHR ''/'']" by (cases dir rule: rev_cases) auto
    then show ?thesis by (intro exI [of _ d]) (simp add: temp_name_def)
  qed (auto simp: temp_name_def)
  then obtain d where "temp_name dir b = d @ CHR ''/'' # (''.tmp-'' @ ?t)" by blast
  then have "base_name (temp_name dir b) = ''.tmp-'' @ ?t"
    unfolding base_name_def by (simp only: split_slash_append s last_appendR list.distinct last.simps) simp
  then show ?thesis by (simp add: is_temp_def)
qed

end
