(* ===== verification/Store_Encryption.thy ===== *)
theory Store_Encryption
  imports Crypto Os
begin

text \<open>
  \<^verbatim>\<open>store/encryption.go\<close>: values are serialised to JSON and sealed with AES-256-GCM under a random
  nonce that is stored in front of the ciphertext. \<open>Cipher\<close> is the struct with its AEAD interface
  value. The JSON encoder and decoder of \<^verbatim>\<open>encoding/json\<close> are the argument \<open>J\<close>: what the stores
  rely on is that a stored value reads back as its JSON image, which is stated where it is used.
\<close>

record json_codec =
  json_Marshal :: "gomap option \<Rightarrow> go_error + string"
  json_Unmarshal :: "string \<Rightarrow> go_error + gomap option"

record Cipher =
  NonceSize :: nat
  aead_Seal :: "string \<Rightarrow> string \<Rightarrow> string"
  aead_Open :: "string \<Rightarrow> string \<Rightarrow> string option"

definition aes_gcm :: "string \<Rightarrow> Cipher" where
  "aes_gcm key =
     \<lparr>NonceSize = 12,
      aead_Seal = (\<lambda>nonce pt. of_bytes (gcm_Seal (aes_encrypt (to_bytes key)) (to_bytes nonce) (to_bytes pt))),
      aead_Open = (\<lambda>nonce ct.
        map_option of_bytes (gcm_Open (aes_encrypt (to_bytes key)) (to_bytes nonce) (to_bytes ct)))\<rparr>"

text \<open>
  For a key of 32 bytes neither \<^verbatim>\<open>aes.NewCipher\<close> nor \<^verbatim>\<open>cipher.NewGCM\<close> fails, so their error
  branches are not reachable.
\<close>

definition NewCipher :: "string \<Rightarrow> go_error + Cipher" where
  "NewCipher key =
     (if length key \<noteq> 32
      then Inl (Errorf ''store: encryption key must be 32 bytes for AES-256, got %d'' [ArgD (int (length key))])
      else Inr (aes_gcm key))"

definition is_trailing :: "char \<Rightarrow> bool" where
  "is_trailing c \<longleftrightarrow> c = CHR 0x0A \<or> c = CHR 0x0D \<or> c = CHR '' ''"

text \<open>The loop removes one byte from the end at a time.\<close>

function trimNewline :: "string \<Rightarrow> string" where
  "trimNewline s = (if s \<noteq> [] \<and> is_trailing (last s) then trimNewline (butlast s) else s)"
  by pat_completeness auto

termination trimNewline
  by (relation "measure length") auto

declare trimNewline.simps [simp del]

definition ephemeral_warning :: string where
  "ephemeral_warning =
     ''store: WARNING no STORAGE_ENCRYPTION_KEY or STORAGE_ENCRYPTION_KEY_PATH set '' @
     [CHR 0xE2, CHR 0x80, CHR 0x94] @ '' using an ephemeral key that will not survive a restart. '' @
     ''Generate a real key with:'' @ [CHR 0x0A] @ ''  openssl rand -base64 32'' @ [CHR 0x0A] @
     ''then set STORAGE_ENCRYPTION_KEY to the output.''"

definition NewCipherFromEnv ::
  "'a os_world_scheme \<Rightarrow> (go_error + Cipher) \<times> 'a os_world_scheme" where
  "NewCipherFromEnv w =
     (let raw = os_Getenv ''STORAGE_ENCRYPTION_KEY'' w; path = os_Getenv ''STORAGE_ENCRYPTION_KEY_PATH'' w
      in if raw \<noteq> []
         then (case base64_DecodeString raw of
                 None \<Rightarrow> (Inl (Errorw ''store: STORAGE_ENCRYPTION_KEY is not valid base64: %w'' []
                                (ErrExt ''illegal base64 data'')), w)
               | Some key \<Rightarrow> (NewCipher key, w))
         else if path \<noteq> []
         then (case os_ReadFile path w of
                 (Inl e, w1) \<Rightarrow> (Inl (Errorw ''store: reading STORAGE_ENCRYPTION_KEY_PATH: %w'' [] e), w1)
               | (Inr content, w1) \<Rightarrow>
                   (case base64_DecodeString (trimNewline content) of
                      None \<Rightarrow> (Inl (Errorw ''store: key file at STORAGE_ENCRYPTION_KEY_PATH is not valid base64: %w''
                                     [] (ErrExt ''illegal base64 data'')), w1)
                    | Some key \<Rightarrow> (NewCipher key, w1)))
         else (case io_call w of
                 (Some e, w1) \<Rightarrow> (Inl (Errorw ''store: generating ephemeral encryption key: %w'' [] e), w1)
               | (None, w1) \<Rightarrow>
                   (let (key, w2) = rand_Read 32 w1
                    in (NewCipher key, fprintln_stderr ephemeral_warning w2))))"

definition Encrypt ::
  "'j json_codec_scheme \<Rightarrow> Cipher \<Rightarrow> gomap option \<Rightarrow> 'a host_scheme \<Rightarrow> (go_error + string) \<times> 'a host_scheme" where
  "Encrypt J c v w =
     (case json_Marshal J v of
        Inl e \<Rightarrow> (Inl (Errorw ''store: marshaling value: %w'' [] e), w)
      | Inr plaintext \<Rightarrow>
          (case io_call w of
             (Some e, w1) \<Rightarrow> (Inl (Errorw ''store: generating nonce: %w'' [] e), w1)
           | (None, w1) \<Rightarrow>
               (let (nonce, w2) = rand_Read (NonceSize c) w1
                in (Inr (nonce @ aead_Seal c nonce plaintext), w2))))"

definition Decrypt :: "'j json_codec_scheme \<Rightarrow> Cipher \<Rightarrow> string \<Rightarrow> go_error + gomap option" where
  "Decrypt J c ciphertext =
     (let nonceSize = NonceSize c
      in if length ciphertext < nonceSize then Inl (Errorf ''store: ciphertext too short'' [])
         else let nonce = take nonceSize ciphertext; encrypted = drop nonceSize ciphertext
              in case aead_Open c nonce encrypted of
                   None \<Rightarrow> Inl (Errorw ''store: decrypting: %w'' [] (ErrExt ''cipher: message authentication failed''))
                 | Some plaintext \<Rightarrow>
                     (case json_Unmarshal J plaintext of
                        Inl e \<Rightarrow> Inl (Errorw ''store: unmarshaling decrypted value: %w'' [] e)
                      | Inr v \<Rightarrow> Inr v))"

subsection \<open>Round trip and authenticity\<close>

lemma aes_block: "length key = 32 \<Longrightarrow> length b = 16 \<Longrightarrow> length (aes_encrypt (to_bytes key) b) = 16"
  by (simp add: length_aes_encrypt)

lemma Open_Seal:
  assumes "NewCipher key = Inr c" and "length nonce = NonceSize c"
  shows "aead_Open c nonce (aead_Seal c nonce pt) = Some pt"
proof -
  have c: "c = aes_gcm key" and k: "length key = 32" using assms(1) by (auto simp: NewCipher_def split: if_splits)
  have n: "length (to_bytes nonce) = 12" using assms(2) c by (simp add: aes_gcm_def)
  from gcm_Open_Seal [of "aes_encrypt (to_bytes key)", OF aes_block [OF k] n, of "to_bytes pt"] show ?thesis
    by (simp add: c aes_gcm_def)
qed

lemma Seal_Open:
  assumes "NewCipher key = Inr c" and "length nonce = NonceSize c" and "aead_Open c nonce ct = Some pt"
  shows "ct = aead_Seal c nonce pt"
proof -
  have c: "c = aes_gcm key" and k: "length key = 32" using assms(1) by (auto simp: NewCipher_def split: if_splits)
  have n: "length (to_bytes nonce) = 12" using assms(2) c by (simp add: aes_gcm_def)
  obtain p where p: "gcm_Open (aes_encrypt (to_bytes key)) (to_bytes nonce) (to_bytes ct) = Some p" "pt = of_bytes p"
    using assms(3) c by (auto simp: aes_gcm_def)
  from gcm_Seal_Open [of "aes_encrypt (to_bytes key)", OF aes_block [OF k] n p(1)]
  have "to_bytes ct = gcm_Seal (aes_encrypt (to_bytes key)) (to_bytes nonce) (to_bytes pt)" using p(2) by simp
  then show ?thesis using c by (metis aes_gcm_def Cipher.select_convs(2) of_bytes_to_bytes)
qed

lemma Encrypt_ok:
  assumes "json_Marshal J v = Inr s" and "faults w (tick w) = None"
  shows "\<exists>nonce w'. Encrypt J c v w = (Inr (nonce @ aead_Seal c nonce s), w') \<and> length nonce = NonceSize c \<and>
    w' = w\<lparr>tick := Suc (Suc (tick w))\<rparr>"
  using assms
  by (intro exI [of _ "map (entropy w (Suc (tick w))) [0..<NonceSize c]"])
    (simp add: Encrypt_def io_call_def rand_Read_def)

lemma Decrypt_sealed:
  assumes "NewCipher key = Inr c" and "length nonce = NonceSize c"
  shows "Decrypt J c (nonce @ aead_Seal c nonce s) =
    (case json_Unmarshal J s of
       Inl e \<Rightarrow> Inl (Errorw ''store: unmarshaling decrypted value: %w'' [] e) | Inr v \<Rightarrow> Inr v)"
  using assms Open_Seal [OF assms] by (simp add: Decrypt_def)

lemma trimNewline_suffix: "\<exists>t. s = trimNewline s @ t \<and> list_all is_trailing t"
proof (induction s rule: trimNewline.induct)
  case (1 s)
  show ?case
  proof (cases "s \<noteq> [] \<and> is_trailing (last s)")
    case True
    from 1 [OF True] obtain t where t: "butlast s = trimNewline (butlast s) @ t" "list_all is_trailing t" by blast
    have "s = trimNewline (butlast s) @ t @ [last s]" using t(1) True by (metis append.assoc append_butlast_last_id)
    then show ?thesis using True t(2) by (subst trimNewline.simps) auto
  next
    case False
    then show ?thesis by (subst trimNewline.simps) auto
  qed
qed

lemma trimNewline_last: "trimNewline s \<noteq> [] \<Longrightarrow> \<not> is_trailing (last (trimNewline s))"
proof (induction s rule: trimNewline.induct)
  case (1 s)
  then show ?case
    by (cases "s \<noteq> [] \<and> is_trailing (last s)") (auto simp: trimNewline.simps [of s])
qed

subsection \<open>Properties\<close>

text \<open>
  C11: what is encrypted decrypts. Under any key \<^verbatim>\<open>NewCipher\<close> accepts and for any nonce drawn, decrypting
  what \<^verbatim>\<open>Encrypt\<close> produced yields what the JSON decoder makes of the encoder's output, and the
  ciphertext is the nonce, the plaintext's length and sixteen bytes of tag.
\<close>

theorem Encrypt_Decrypt:
  assumes "NewCipher key = Inr c" and "json_Marshal J v = Inr s" and "json_Unmarshal J s = Inr v'"
    and "Encrypt J c v w = (Inr ct, w')"
  shows "Decrypt J c ct = Inr v' \<and> length ct = 12 + length s + 16"
proof -
  have c: "c = aes_gcm key" and k: "length key = 32" using assms(1) by (auto simp: NewCipher_def split: if_splits)
  from assms(2,4) obtain nonce where ct: "ct = nonce @ aead_Seal c nonce s" and n: "length nonce = NonceSize c"
    by (auto simp: Encrypt_def io_call_def rand_Read_def split: option.splits)
  have "length (aead_Seal c nonce s) = length s + 16"
    using length_gcm_Seal [of "aes_encrypt (to_bytes key)", OF aes_block [OF k], of "to_bytes nonce" "to_bytes s"] n c
    by (simp add: aes_gcm_def)
  with Decrypt_sealed [OF assms(1) n, of J s] assms(3) ct n c show ?thesis by (simp add: aes_gcm_def)
qed

text \<open>A codec for maps whose only entry is a string under \<^verbatim>\<open>k\<close>, for the witnesses.\<close>

definition demo_codec :: json_codec where
  "demo_codec =
     \<lparr>json_Marshal = (\<lambda>v. Inr (any_string (gomap_get v ''k''))),
      json_Unmarshal = (\<lambda>s. Inr (Some [''k'' \<mapsto> AStr s]))\<rparr>"

theorem Encrypt_Decrypt_witness:
  "\<exists>c ct. NewCipher (replicate 32 (CHR ''k'')) = Inr c \<and>
     Decrypt demo_codec c ct = Inr (Some [''k'' \<mapsto> AStr ''v'']) \<and> length ct = 12 + 1 + 16"
proof -
  let ?w = "\<lparr>clock = (\<lambda>_. 0), entropy = (\<lambda>_ _. CHR ''a''), faults = (\<lambda>_. None), f2i_oob = (\<lambda>_. 0), tick = 0\<rparr> :: host"
  let ?v = "Some [''k'' \<mapsto> AStr ''v'']"
  obtain c where c: "NewCipher (replicate 32 (CHR ''k'')) = Inr c" by (simp add: NewCipher_def)
  have m: "json_Marshal demo_codec ?v = Inr ''v''" "json_Unmarshal demo_codec ''v'' = Inr ?v"
    by (simp_all add: demo_codec_def any_string_def gomap_get_def)
  obtain ct w' where "Encrypt demo_codec c ?v ?w = (Inr ct, w')"
    using Encrypt_ok [OF m(1), of ?w c] by auto
  from Encrypt_Decrypt [OF c m this] c show ?thesis by auto
qed

text \<open>
  C12: only what was sealed is accepted. Whatever \<^verbatim>\<open>Decrypt\<close> accepts is a nonce followed by the
  sealing of a plaintext that decodes to the value, under the same key: a ciphertext that no sealing
  produced, tampered with or truncated, is an error.
\<close>

theorem Decrypt_authentic:
  assumes "NewCipher key = Inr c" and "Decrypt J c ct = Inr v"
  shows "\<exists>nonce s. ct = nonce @ aead_Seal c nonce s \<and> length nonce = 12 \<and> json_Unmarshal J s = Inr v"
proof -
  have c: "NonceSize c = 12" using assms(1) by (auto simp: NewCipher_def aes_gcm_def split: if_splits)
  from assms(2) obtain s where l: "12 \<le> length ct" and o: "aead_Open c (take 12 ct) (drop 12 ct) = Some s"
    and u: "json_Unmarshal J s = Inr v"
    by (auto simp: Decrypt_def Let_def c split: if_splits option.splits sum.splits)
  have n: "length (take 12 ct) = NonceSize c" using l c by simp
  have "ct = take 12 ct @ aead_Seal c (take 12 ct) s"
    using Seal_Open [OF assms(1) n o] by (metis append_take_drop_id)
  then show ?thesis using n c u by metis
qed

theorem Decrypt_authentic_witness:
  "\<exists>nonce s. nonce @ aead_Seal (aes_gcm (replicate 32 (CHR ''k''))) nonce s =
       replicate 12 (CHR ''n'') @ aead_Seal (aes_gcm (replicate 32 (CHR ''k''))) (replicate 12 (CHR ''n'')) ''v'' \<and>
     length nonce = 12 \<and> json_Unmarshal demo_codec s = Inr (Some [''k'' \<mapsto> AStr ''v''])"
proof -
  have k: "NewCipher (replicate 32 (CHR ''k'')) = Inr (aes_gcm (replicate 32 (CHR ''k'')))"
    by (simp add: NewCipher_def)
  have n: "length (replicate 12 (CHR ''n'')) = NonceSize (aes_gcm (replicate 32 (CHR ''k'')))"
    by (simp add: aes_gcm_def)
  have "Decrypt demo_codec (aes_gcm (replicate 32 (CHR ''k''))) (replicate 12 (CHR ''n'') @
      aead_Seal (aes_gcm (replicate 32 (CHR ''k''))) (replicate 12 (CHR ''n'')) ''v'') = Inr (Some [''k'' \<mapsto> AStr ''v''])"
    unfolding Decrypt_sealed [OF k n] by (simp add: demo_codec_def)
  from Decrypt_authentic [OF k this] show ?thesis by metis
qed

text \<open>
  The key comes from where the documentation says, in that order, and is always a full AES-256
  key: a cipher obtained from the environment is the one of a 32-byte key decoded from the variable,
  else from the trimmed key file, else drawn at random with a warning on the standard error stream.
\<close>

theorem cipher_key_source:
  assumes "NewCipherFromEnv w = (Inr c, w')"
  shows "\<exists>key. length key = 32 \<and> c = aes_gcm key \<and>
    (let raw = os_Getenv ''STORAGE_ENCRYPTION_KEY'' w; path = os_Getenv ''STORAGE_ENCRYPTION_KEY_PATH'' w
     in if raw \<noteq> [] then base64_DecodeString raw = Some key \<and> w' = w
        else if path \<noteq> []
        then (\<exists>content. files w path = Some content \<and> base64_DecodeString (trimNewline content) = Some key)
        else key = map (entropy w (Suc (tick w))) [0..<32] \<and> stderr_log w' = stderr_log w @ [ephemeral_warning])"
  using assms
  by (auto simp: NewCipherFromEnv_def NewCipher_def os_ReadFile_def io_call_def rand_Read_def fprintln_stderr_def Let_def
      split: if_splits option.splits sum.splits prod.splits)

theorem cipher_key_source_witness:
  "\<exists>c w'. NewCipherFromEnv \<lparr>clock = (\<lambda>_. 0), entropy = (\<lambda>_ _. CHR ''a''), faults = (\<lambda>_. None), f2i_oob = (\<lambda>_. 0),
       tick = 0, environ = (\<lambda>_. []), files = Map.empty, dirs = {}, stderr_log = []\<rparr> = (Inr c, w') \<and>
     c = aes_gcm (replicate 32 (CHR ''a'')) \<and> stderr_log w' = [ephemeral_warning]"
proof -
  let ?w = "\<lparr>clock = (\<lambda>_. 0), entropy = (\<lambda>_ _. CHR ''a''), faults = (\<lambda>_. None), f2i_oob = (\<lambda>_. 0),
       tick = 0, environ = (\<lambda>_. []), files = Map.empty, dirs = {}, stderr_log = []\<rparr> :: os_world"
  obtain c w' where r: "NewCipherFromEnv ?w = (Inr c, w')"
    by (simp add: NewCipherFromEnv_def os_Getenv_def NewCipher_def rand_Read_def io_call_def)
  from cipher_key_source [OF r] r show ?thesis by (auto simp: os_Getenv_def map_replicate_const)
qed

end
