(* ===== verification/Store_File.thy ===== *)
theory Store_File
  imports Store Store_Encryption
begin

text \<open>
  \<^verbatim>\<open>store/file.go\<close>: the stores over encrypted files. File names are the hexadecimal SHA-256 of the
  key, replacement is by temporary file and rename, undecodable files are removed on reading, and
  \<open>WaitForResult\<close> polls for the result file. The JSON codec of the pending records extends the one
  of the cipher. \<open>pause\<close> is what the rest of the system does while a poll sleeps; it reports the
  error of the context if that is done first.
\<close>

subsection \<open>Definitions\<close>

definition filePollInterval :: duration where
  "filePollInterval = 500 * Millisecond"

definition safeName :: "string \<Rightarrow> string" where
  "safeName key = hex_EncodeToString (sha256_Sum256 key)"

definition atomicWriteFile ::
  "string \<Rightarrow> string \<Rightarrow> 'a os_world_scheme \<Rightarrow> go_error option \<times> 'a os_world_scheme" where
  "atomicWriteFile path d w =
     (let dir = filepath_Dir path
      in case os_MkdirAll dir w of
           (Some e, w1) \<Rightarrow> (Some e, w1)
         | (None, w1) \<Rightarrow>
    (case os_CreateTemp dir w1 of
       (Inl e, w2) \<Rightarrow> (Some e, w2)
     | (Inr tmpPath, w2) \<Rightarrow>
    (case file_Write tmpPath d w2 of
       (Some e, w3) \<Rightarrow> (Some e, snd (os_Remove tmpPath (snd (file_Close w3))))
     | (None, w3) \<Rightarrow>
    (case file_Close w3 of
       (Some e, w4) \<Rightarrow> (Some e, snd (os_Remove tmpPath w4))
     | (None, w4) \<Rightarrow> os_Rename tmpPath path w4))))"

record FileTokenStore =
  ft_dir :: string
  ft_cipher :: Cipher

definition NewFileTokenStore ::
  "string \<Rightarrow> string \<Rightarrow> Cipher \<Rightarrow> 'a os_world_scheme \<Rightarrow> (go_error + FileTokenStore) \<times> 'a os_world_scheme" where
  "NewFileTokenStore storagePath namespace cipher w =
     (let dir0 = filepath_Join storagePath ''tokens'';
          dir = (if namespace \<noteq> [] then filepath_Join dir0 namespace else dir0)
      in case os_MkdirAll dir w of
           (Some e, w1) \<Rightarrow> (Inl (Errorw ''store: creating token store dir: %w'' [] e), w1)
         | (None, w1) \<Rightarrow> (Inr \<lparr>ft_dir = dir, ft_cipher = cipher\<rparr>, w1))"

definition FileTokenStore_path :: "FileTokenStore \<Rightarrow> string \<Rightarrow> string" where
  "FileTokenStore_path s sub = filepath_Join (ft_dir s) (safeName sub @ ''.enc'')"

definition FileTokenStore_Get ::
  "'j json_codec_scheme \<Rightarrow> FileTokenStore \<Rightarrow> string \<Rightarrow> 'a os_world_scheme
     \<Rightarrow> (go_error + gomap option) \<times> 'a os_world_scheme" where
  "FileTokenStore_Get J s sub w =
     (case os_ReadFile (FileTokenStore_path s sub) w of
        (Inl e, w1) \<Rightarrow> if os_IsNotExist e then (Inr None, w1) else (Inl e, w1)
      | (Inr d, w1) \<Rightarrow>
          (case Decrypt J (ft_cipher s) d of
             Inl _ \<Rightarrow> (Inr None, snd (os_Remove (FileTokenStore_path s sub) w1))
           | Inr v \<Rightarrow> (Inr v, w1)))"

definition FileTokenStore_Set ::
  "'j json_codec_scheme \<Rightarrow> FileTokenStore \<Rightarrow> string \<Rightarrow> gomap option \<Rightarrow> 'a os_world_scheme
     \<Rightarrow> go_error option \<times> 'a os_world_scheme" where
  "FileTokenStore_Set J s sub v w =
     (case Encrypt J (ft_cipher s) v w of
        (Inl e, w1) \<Rightarrow> (Some e, w1)
      | (Inr d, w1) \<Rightarrow> atomicWriteFile (FileTokenStore_path s sub) d w1)"

definition FileTokenStore_Delete ::
  "FileTokenStore \<Rightarrow> string \<Rightarrow> 'a os_world_scheme \<Rightarrow> go_error option \<times> 'a os_world_scheme" where
  "FileTokenStore_Delete s sub w =
     (case os_Remove (FileTokenStore_path s sub) w of
        (Some e, w1) \<Rightarrow> if os_IsNotExist e then (None, w1) else (Some e, w1)
      | (None, w1) \<Rightarrow> (None, w1))"

record filePendingRecord =
  RMetadata :: "gomap option"
  RExpires :: int64

record file_codec = json_codec +
  rec_Marshal :: "filePendingRecord \<Rightarrow> go_error + string"
  rec_Unmarshal :: "string \<Rightarrow> go_error + filePendingRecord"

record FilePendingStore =
  fp_dir :: string
  fp_cipher :: Cipher

definition NewFilePendingStore ::
  "string \<Rightarrow> Cipher \<Rightarrow> 'a os_world_scheme \<Rightarrow> (go_error + FilePendingStore) \<times> 'a os_world_scheme" where
  "NewFilePendingStore storagePath cipher w =
     (let dir = filepath_Join storagePath ''pending''
      in case os_MkdirAll dir w of
           (Some e, w1) \<Rightarrow> (Inl (Errorw ''store: creating pending store dir: %w'' [] e), w1)
         | (None, w1) \<Rightarrow> (Inr \<lparr>fp_dir = dir, fp_cipher = cipher\<rparr>, w1))"

definition metaPath :: "FilePendingStore \<Rightarrow> string \<Rightarrow> string" where
  "metaPath s key = filepath_Join (fp_dir s) (safeName key @ ''.enc'')"

definition donePath :: "FilePendingStore \<Rightarrow> string \<Rightarrow> string" where
  "donePath s key = filepath_Join (fp_dir s) (safeName key @ ''.done.enc'')"

definition writeRecord ::
  "file_codec \<Rightarrow> FilePendingStore \<Rightarrow> string \<Rightarrow> gomap option \<Rightarrow> int64 \<Rightarrow> 'a os_world_scheme
     \<Rightarrow> go_error option \<times> 'a os_world_scheme" where
  "writeRecord J s path m ttlSeconds w =
     (let (now, w1) = time_Now w;
          r = \<lparr>RMetadata = m, RExpires = time_Unix (time_Add now (ttlSeconds * Second))\<rparr>
      in case rec_Marshal J r of
           Inl e \<Rightarrow> (Some e, w1)
         | Inr raw \<Rightarrow>
             (case Encrypt J (fp_cipher s) (Some [''record'' \<mapsto> AStr raw]) w1 of
                (Inl e, w2) \<Rightarrow> (Some e, w2)
              | (Inr encrypted, w2) \<Rightarrow> atomicWriteFile path encrypted w2))"

definition readRecord ::
  "file_codec \<Rightarrow> FilePendingStore \<Rightarrow> string \<Rightarrow> 'a os_world_scheme
     \<Rightarrow> (go_error + filePendingRecord option) \<times> 'a os_world_scheme" where
  "readRecord J s path w =
     (case os_ReadFile path w of
        (Inl e, w1) \<Rightarrow> if os_IsNotExist e then (Inr None, w1) else (Inl e, w1)
      | (Inr d, w1) \<Rightarrow>
          (case Decrypt J (fp_cipher s) d of
             Inl _ \<Rightarrow> (Inr None, snd (os_Remove path w1))
           | Inr decrypted \<Rightarrow>
               (case rec_Unmarshal J (any_string (gomap_get decrypted ''record'')) of
                  Inl _ \<Rightarrow> (Inr None, snd (os_Remove path w1))
                | Inr r \<Rightarrow>
                    (let (now, w2) = time_Now w1
                     in if RExpires r <s time_Unix now then (Inr None, snd (os_Remove path w2))
                        else (Inr (Some r), w2)))))"

definition FilePendingStore_Create ::
  "file_codec \<Rightarrow> FilePendingStore \<Rightarrow> string \<Rightarrow> gomap option \<Rightarrow> int64 \<Rightarrow> 'a os_world_scheme
     \<Rightarrow> go_error option \<times> 'a os_world_scheme" where
  "FilePendingStore_Create J s key m ttl w = writeRecord J s (metaPath s key) m ttl w"

definition FilePendingStore_Get ::
  "file_codec \<Rightarrow> FilePendingStore \<Rightarrow> string \<Rightarrow> 'a os_world_scheme
     \<Rightarrow> (go_error + gomap option) \<times> 'a os_world_scheme" where
  "FilePendingStore_Get J s key w =
     (case readRecord J s (metaPath s key) w of
        (Inl e, w1) \<Rightarrow> (Inl e, w1)
      | (Inr None, w1) \<Rightarrow> (Inr None, w1)
      | (Inr (Some r), w1) \<Rightarrow> (Inr (RMetadata r), w1))"

definition FilePendingStore_Pop ::
  "file_codec \<Rightarrow> FilePendingStore \<Rightarrow> string \<Rightarrow> 'a os_world_scheme
     \<Rightarrow> (go_error + gomap option) \<times> 'a os_world_scheme" where
  "FilePendingStore_Pop J s key w =
     (case readRecord J s (metaPath s key) w of
        (Inl e, w1) \<Rightarrow> (Inl e, w1)
      | (Inr r, w1) \<Rightarrow>
          (let w2 = snd (os_Remove (metaPath s key) w1)
           in (Inr (case r of None \<Rightarrow> None | Some r' \<Rightarrow> RMetadata r'), w2)))"

definition FilePendingStore_SetResult ::
  "file_codec \<Rightarrow> FilePendingStore \<Rightarrow> string \<Rightarrow> gomap option \<Rightarrow> int64 \<Rightarrow> 'a os_world_scheme
     \<Rightarrow> go_error option \<times> 'a os_world_scheme" where
  "FilePendingStore_SetResult J s key result ttl w = writeRecord J s (donePath s key) result ttl w"

partial_function (option) file_wait_loop ::
  "(duration \<Rightarrow> 'a os_world_scheme \<Rightarrow> go_error option \<times> 'a os_world_scheme) \<Rightarrow> file_codec
     \<Rightarrow> FilePendingStore \<Rightarrow> string \<Rightarrow> go_time \<Rightarrow> 'a os_world_scheme
     \<Rightarrow> ((go_error + gomap option) \<times> 'a os_world_scheme) option" where
  "file_wait_loop pause J s path deadline w =
     (let (x, w1) = readRecord J s path w
      in case x of
           Inr (Some r) \<Rightarrow> Some (Inr (RMetadata r), snd (os_Remove path w1))
         | _ \<Rightarrow>
             (let (now, w2) = time_Now w1
              in if time_After now deadline then Some (Inr None, w2)
                 else (let (c, w3) = pause filePollInterval w2
                       in case c of
                            Some e \<Rightarrow> Some (Inl e, w3)
                          | None \<Rightarrow> file_wait_loop pause J s path deadline w3)))"

definition FilePendingStore_WaitForResult ::
  "(duration \<Rightarrow> 'a os_world_scheme \<Rightarrow> go_error option \<times> 'a os_world_scheme) \<Rightarrow> file_codec
     \<Rightarrow> FilePendingStore \<Rightarrow> string \<Rightarrow> float64 \<Rightarrow> 'a os_world_scheme
     \<Rightarrow> ((go_error + gomap option) \<times> 'a os_world_scheme) option" where
  "FilePendingStore_WaitForResult pause J s key timeoutSeconds w =
     (let (now, w1) = time_Now w;
          deadline = time_Add now (f64_to_int64 (f2i_oob w) (f64_scale timeoutSeconds 1000000000))
      in file_wait_loop pause J s (donePath s key) deadline w1)"

definition file_token_store :: "'j json_codec_scheme \<Rightarrow> FileTokenStore \<Rightarrow> 'a os_world_scheme token_store" where
  "file_token_store J s =
     \<lparr>ts_Get = FileTokenStore_Get J s, ts_Set = FileTokenStore_Set J s, ts_Delete = FileTokenStore_Delete s\<rparr>"

definition file_pending_store ::
  "(duration \<Rightarrow> 'a os_world_scheme \<Rightarrow> go_error option \<times> 'a os_world_scheme) \<Rightarrow> file_codec
     \<Rightarrow> FilePendingStore \<Rightarrow> 'a os_world_scheme pending_store" where
  "file_pending_store pause J s =
     \<lparr>ps_Create = FilePendingStore_Create J s, ps_Get = FilePendingStore_Get J s,
      ps_Pop = FilePendingStore_Pop J s,
      ps_SetResult = (\<lambda>key r ttl w. Some (FilePendingStore_SetResult J s key r ttl w)),
      ps_WaitForResult = FilePendingStore_WaitForResult pause J s\<rparr>"

subsection \<open>File names\<close>

lemma safeName_chars: "set (safeName key) \<subseteq> set ''0123456789abcdef''"
  unfolding safeName_def using set_hex by blast

lemma safeName_plain:
  assumes "CHR ''/'' \<notin> set t" and "2 < length t"
  shows "plain_name (safeName key @ t)"
proof -
  have "CHR ''/'' \<notin> set (safeName key)" using safeName_chars [of key] by auto
  moreover have "n \<noteq> [] \<and> n \<noteq> ''.'' \<and> n \<noteq> ''..''" if "2 < length n" for n :: string using that by auto
  ultimately show ?thesis using assms unfolding plain_name_def by (metis UnE length_append set_append trans_less_add2)
qed

lemma enc_plain: "plain_name (safeName key @ ''.enc'')" "plain_name (safeName key @ ''.done.enc'')"
  by (rule safeName_plain, simp, simp)+

lemma done_not_meta: "safeName key @ ''.done.enc'' \<noteq> safeName key' @ ''.enc''"
proof
  assume "safeName key @ ''.done.enc'' = safeName key' @ ''.enc''"
  then have "(safeName key @ ''.done'') @ ''.enc'' = safeName key' @ ''.enc''" by simp
  then have "safeName key' = safeName key @ ''.done''" by (simp only: append_same_eq)
  then have "CHR ''.'' \<in> set (safeName key')" by simp
  then show False using safeName_chars [of key'] by auto
qed

lemma not_temp:
  assumes "c \<noteq> CHR ''t''" and "d \<noteq> []" and "plain_name (safeName key @ CHR ''.'' # c # t)"
  shows "\<not> is_temp (filepath_Join d (safeName key @ CHR ''.'' # c # t))"
proof
  assume "is_temp (filepath_Join d (safeName key @ CHR ''.'' # c # t))"
  then have e: "take 5 (safeName key @ CHR ''.'' # c # t) = ''.tmp-''"
    using base_name_Join [OF assms(3,2)] by (simp add: is_temp_def)
  then have "safeName key = []"
    using safeName_chars [of key] by (cases "safeName key") auto
  with e assms(1) show False by (simp add: numeral_eq_Suc)
qed

subsection \<open>The system calls when nothing fails\<close>

definition no_faults :: "'a host_scheme \<Rightarrow> bool" where
  "no_faults w \<longleftrightarrow> (\<forall>n. faults w n = None)"

text \<open>No temporary file is left over, so the first name tried is free.\<close>

definition no_temps :: "'a os_world_scheme \<Rightarrow> bool" where
  "no_temps w \<longleftrightarrow> (\<forall>p. is_temp p \<longrightarrow> files w p = None)"

lemma io_call_ok: "no_faults w \<Longrightarrow> io_call w = (None, w\<lparr>tick := Suc (tick w)\<rparr>)"
  by (simp add: io_call_def no_faults_def)

lemma no_faults_tick [simp]: "no_faults (w\<lparr>tick := n\<rparr>) = no_faults w"
  by (simp add: no_faults_def)

lemma no_faults_os [simp]:
  "no_faults (w\<lparr>files := f\<rparr>) = no_faults (w :: 'a os_world_scheme)"
  "no_faults (w\<lparr>dirs := d\<rparr>) = no_faults w"
  by (simp_all add: no_faults_def)

lemma ReadFile_ok: "no_faults w \<Longrightarrow> os_ReadFile p w =
    ((case files w p of None \<Rightarrow> Inl ErrNotExist | Some d \<Rightarrow> Inr d), w\<lparr>tick := Suc (tick w)\<rparr>)"
  by (simp add: os_ReadFile_def io_call_ok split: option.splits)

lemma Remove_ok: "no_faults w \<Longrightarrow>
    snd (os_Remove p w) = w\<lparr>tick := Suc (tick w), files := (files w)(p := None)\<rparr>"
  by (auto simp: os_Remove_def io_call_ok fun_upd_idem split: option.splits)

lemma atomicWrite_ok:
  assumes "no_faults w" and "no_temps w" and "\<not> is_temp path"
  shows "\<exists>n D. atomicWriteFile path d w =
    (None, w\<lparr>tick := n, dirs := D, files := (files w)(path \<mapsto> d)\<rparr>)"
proof -
  let ?dir = "filepath_Dir path"
  define w1 where "w1 = w\<lparr>tick := Suc (tick w), dirs := insert ?dir (dirs w)\<rparr>"
  have m: "os_MkdirAll ?dir w = (None, w1)" using assms(1) by (simp add: os_MkdirAll_def io_call_ok w1_def)
  let ?tmp = "temp_name ?dir (map (entropy w1 (tick w1)) [0..<4])"
  define w2 where "w2 = w1\<lparr>tick := Suc (Suc (tick w1)), files := (files w1)(?tmp \<mapsto> [])\<rparr>"
  have t: "is_temp ?tmp" by (rule is_temp_name)
  have f1: "files w1 ?tmp = None" using assms(2) t by (simp add: no_temps_def w1_def)
  have "create_temp_loop (Suc n) ?dir w1 = (Inr ?tmp, w2)" for n
    using assms(1) f1 by (simp add: rand_Read_def io_call_def no_faults_def w1_def w2_def Let_def)
  from this [of 9999] have c: "os_CreateTemp ?dir w1 = (Inr ?tmp, w2)" by (simp add: os_CreateTemp_def)
  have ne: "?tmp \<noteq> path" using t assms(3) by auto
  have nf: "no_faults w2" using assms(1) by (simp add: w2_def w1_def)
  define w3 where "w3 = w2\<lparr>tick := Suc (tick w2), files := (files w2)(?tmp \<mapsto> d)\<rparr>"
  have wr: "file_Write ?tmp d w2 = (None, w3)" using nf by (simp add: file_Write_def io_call_ok w3_def)
  have nf3: "no_faults w3" using nf by (simp add: w3_def)
  have "os_Rename ?tmp path (w3\<lparr>tick := Suc (tick w3)\<rparr>) =
      (None, w3\<lparr>tick := Suc (Suc (tick w3)), files := (files w3)(?tmp := None, path \<mapsto> d)\<rparr>)"
    using nf3 by (simp add: os_Rename_def io_call_ok w3_def)
  moreover have "(files w3)(?tmp := None, path \<mapsto> d) = (files w)(path \<mapsto> d)"
    using f1 ne by (auto simp: w3_def w2_def w1_def fun_eq_iff)
  ultimately have "atomicWriteFile path d w =
      (None, w3\<lparr>tick := Suc (Suc (tick w3)), files := (files w)(path \<mapsto> d)\<rparr>)"
    using m c wr nf3 by (simp add: atomicWriteFile_def file_Close_def io_call_ok Let_def)
  then show ?thesis
    by (intro exI [of _ "Suc (Suc (tick w3))"] exI [of _ "insert ?dir (dirs w)"])
      (simp add: w3_def w2_def w1_def)
qed

subsection \<open>Replacement is all or nothing\<close>

text \<open>The files that are not temporary files.\<close>

definition stable_files :: "'a os_world_scheme \<Rightarrow> string \<Rightarrow> string option" where
  "stable_files w p = (if is_temp p then None else files w p)"

lemma stable_tick [simp]: "stable_files (w\<lparr>tick := n\<rparr>) = stable_files w"
  "stable_files (w\<lparr>dirs := D\<rparr>) = stable_files w"
  by (simp_all add: stable_files_def fun_eq_iff)

lemma stable_temp: "is_temp q \<Longrightarrow> files w' = (files w)(q := v) \<Longrightarrow> stable_files w' = stable_files w"
  by (auto simp: stable_files_def fun_eq_iff)

lemma create_temp_stable:
  "create_temp_loop n dir w = (x, w') \<Longrightarrow>
     stable_files w' = stable_files w \<and> (\<forall>name. x = Inr name \<longrightarrow> is_temp name)"
proof (induction n arbitrary: w)
  case (Suc n)
  let ?n = "temp_name dir (map (entropy w (tick w)) [0..<4])" and ?w2 = "w\<lparr>tick := Suc (Suc (tick w))\<rparr>"
  show ?case
  proof (cases "faults w (Suc (tick w)) = None \<and> dir \<in> dirs w \<and> files w ?n \<noteq> None")
    case True
    then have "create_temp_loop n dir ?w2 = (x, w')"
      using Suc.prems by (auto simp: rand_Read_def io_call_def Let_def)
    from Suc.IH [OF this] show ?thesis by simp
  next
    case False
    with Suc.prems show ?thesis
      by (auto simp: rand_Read_def io_call_def Let_def is_temp_name intro: stable_temp [OF is_temp_name]
          split: option.splits if_splits)
  qed
qed auto

lemma Remove_stable: "is_temp q \<Longrightarrow> stable_files (snd (os_Remove q w)) = stable_files w"
  by (auto simp: os_Remove_def io_call_def intro: stable_temp split: option.splits)

lemma Write_stable: "is_temp q \<Longrightarrow> file_Write q d w = (e, w') \<Longrightarrow>
    stable_files w' = stable_files w \<and> (e = None \<longrightarrow> files w' q = Some d)"
  by (auto simp: file_Write_def io_call_def rand_Read_def Let_def intro: stable_temp split: option.splits)

lemma Rename_stable:
  assumes "is_temp q" and "\<not> is_temp path" and "files w q = Some d"
    and "os_Rename q path w = (e, w')"
  shows "if e = None then stable_files w' = (stable_files w)(path \<mapsto> d) else stable_files w' = stable_files w"
proof -
  have "q \<noteq> path" using assms(1,2) by auto
  with assms show ?thesis
    by (auto simp: os_Rename_def io_call_def stable_files_def fun_eq_iff split: option.splits)
qed

lemma Close_stable: "file_Close w = (e, w') \<Longrightarrow> stable_files w' = stable_files w \<and> files w' = files w"
  by (auto simp: file_Close_def io_call_def)

text \<open>
  C15: replacing a file is all or nothing. Whatever system calls fail on the way, the target holds
  either the new content and the call reported success, or what it held before and the call reported
  an error; no other file changes, temporary files apart.
\<close>

theorem atomicWriteFile_all_or_nothing:
  assumes "atomicWriteFile path d w = (e, w')" and "\<not> is_temp path"
  shows "if e = None then stable_files w' = (stable_files w)(path \<mapsto> d) else stable_files w' = stable_files w"
proof -
  let ?dir = "filepath_Dir path"
  obtain e1 w1 where m: "os_MkdirAll ?dir w = (e1, w1)" by (cases "os_MkdirAll ?dir w")
  have s1: "stable_files w1 = stable_files w"
    using m by (auto simp: os_MkdirAll_def io_call_def split: option.splits)
  obtain x w2 where c: "os_CreateTemp ?dir w1 = (x, w2)" by (cases "os_CreateTemp ?dir w1")
  note C = create_temp_stable [OF c [unfolded os_CreateTemp_def]]
  show ?thesis
  proof (cases "e1 = None \<and> (\<exists>tmp. x = Inr tmp)")
    case False
    with assms(1) m c s1 C show ?thesis
      by (cases x; cases e1) (auto simp: atomicWriteFile_def Let_def)
  next
    case True
    then obtain tmp where x: "e1 = None" "x = Inr tmp" "is_temp tmp" using C by blast
    obtain e3 w3 where wr: "file_Write tmp d w2 = (e3, w3)" by (cases "file_Write tmp d w2")
    note W = Write_stable [OF x(3) wr]
    obtain e4 w4 where cl: "file_Close w3 = (e4, w4)" by (cases "file_Close w3")
    note D = Close_stable [OF cl]
    show ?thesis
    proof (cases "e3 = None \<and> e4 = None")
      case False
      with assms(1) m c x(1,2) wr cl s1 C W D show ?thesis
        by (cases e3; cases e4) (auto simp: atomicWriteFile_def Let_def Remove_stable [OF x(3)])
    next
      case True
      then have "os_Rename tmp path w4 = (e, w')"
        using assms(1) m c x wr cl by (simp add: atomicWriteFile_def Let_def)
      from Rename_stable [OF x(3) assms(2) _ this, of d] True W D s1 C show ?thesis by simp
    qed
  qed
qed

theorem atomicWriteFile_all_or_nothing_witness:
  "\<exists>w'. atomicWriteFile ''/d/f'' ''new'' \<lparr>clock = (\<lambda>_. 0), entropy = (\<lambda>_ _. CHR ''a''),
       faults = (\<lambda>_. Some (ErrExt ''disk'')), f2i_oob = (\<lambda>_. 0), tick = 0, environ = (\<lambda>_. []),
       files = [''/d/f'' \<mapsto> ''old''], dirs = {}, stderr_log = []\<rparr> = (Some (ErrExt ''disk''), w') \<and>
     stable_files w' ''/d/f'' = Some ''old''"
proof -
  let ?w = "\<lparr>clock = (\<lambda>_. 0), entropy = (\<lambda>_ _. CHR ''a''),
       faults = (\<lambda>_. Some (ErrExt ''disk'')), f2i_oob = (\<lambda>_. 0), tick = 0, environ = (\<lambda>_. []),
       files = [''/d/f'' \<mapsto> ''old''], dirs = {}, stderr_log = []\<rparr> :: os_world"
  obtain w' where r: "atomicWriteFile ''/d/f'' ''new'' ?w = (Some (ErrExt ''disk''), w')"
    by (simp add: atomicWriteFile_def os_MkdirAll_def io_call_def)
  have b: "\<not> is_temp ''/d/f''" by (simp add: is_temp_def base_name_def)
  then have "stable_files w' = stable_files ?w"
    using atomicWriteFile_all_or_nothing [OF r] by simp
  then have "stable_files w' ''/d/f'' = Some ''old''" using b by (simp add: stable_files_def)
  then show ?thesis using r by blast
qed

end
