(* ===== verification/Store_Redis.thy ===== *)
theory Store_Redis
  imports Store Store_Encryption Store_File
begin

text \<open>
  \<^verbatim>\<open>store/redis.go\<close>: the stores over Redis. The client of go-redis is third-party code and a
  parameter, a record of the calls the stores make: \<open>rc_Get\<close> is \<^verbatim>\<open>Get(...).Bytes()\<close>, \<open>rc_Set\<close>,
  \<open>rc_Del\<close> and \<open>rc_Exists\<close> likewise with \<^verbatim>\<open>Err()\<close> and \<^verbatim>\<open>Result()\<close>, and \<open>rc_Exec\<close> runs the commands
  queued on a transaction pipeline, giving the error of \<^verbatim>\<open>Exec\<close> and the reply of each command.
\<close>

datatype redis_cmd = CmdGet string | CmdDel string

record 'w redis_client =
  rc_Get :: "string \<Rightarrow> 'w \<Rightarrow> (go_error + string) \<times> 'w"
  rc_Set :: "string \<Rightarrow> string \<Rightarrow> duration \<Rightarrow> 'w \<Rightarrow> go_error option \<times> 'w"
  rc_Del :: "string \<Rightarrow> 'w \<Rightarrow> go_error option \<times> 'w"
  rc_Exists :: "string \<Rightarrow> 'w \<Rightarrow> (go_error + int64) \<times> 'w"
  rc_Exec :: "redis_cmd list \<Rightarrow> 'w \<Rightarrow> (go_error option \<times> (nat \<Rightarrow> go_error + string)) \<times> 'w"

subsection \<open>Definitions\<close>

definition defaultRedisKeyPrefix :: string where
  "defaultRedisKeyPrefix = ''mcp:auth:''"

definition redisTokenKey :: "string \<Rightarrow> string \<Rightarrow> string" where
  "redisTokenKey prefix sub = prefix @ ''token:'' @ safeName sub"

definition redisPendingKey :: "string \<Rightarrow> string \<Rightarrow> string" where
  "redisPendingKey prefix key = prefix @ ''pending:'' @ safeName key"

definition redisDoneKey :: "string \<Rightarrow> string \<Rightarrow> string" where
  "redisDoneKey prefix key = prefix @ ''done:'' @ safeName key"

record 'w RedisTokenStore =
  rt_client :: "'w redis_client"
  rt_prefix :: string
  rt_cipher :: Cipher

function trimSuffixColon :: "string \<Rightarrow> string" where
  "trimSuffixColon s = (if 0 < length s \<and> last s = CHR '':'' then trimSuffixColon (butlast s) else s)"
  by pat_completeness auto

termination trimSuffixColon
  by (relation "measure length") auto

declare trimSuffixColon.simps [simp del]

definition NewRedisTokenStore :: "'w redis_client \<Rightarrow> string \<Rightarrow> string \<Rightarrow> Cipher \<Rightarrow> 'w RedisTokenStore" where
  "NewRedisTokenStore client prefix namespace cipher =
     (let prefix1 = (if prefix = [] then defaultRedisKeyPrefix else prefix);
          prefix2 = (if namespace \<noteq> [] then trimSuffixColon prefix1 @ '':'' @ namespace @ '':'' else prefix1)
      in \<lparr>rt_client = client, rt_prefix = prefix2, rt_cipher = cipher\<rparr>)"

definition RedisTokenStore_Get ::
  "'j json_codec_scheme \<Rightarrow> 'w RedisTokenStore \<Rightarrow> string \<Rightarrow> 'w \<Rightarrow> (go_error + gomap option) \<times> 'w" where
  "RedisTokenStore_Get J s sub w =
     (case rc_Get (rt_client s) (redisTokenKey (rt_prefix s) sub) w of
        (Inl e, w1) \<Rightarrow>
          if errors_Is e ErrRedisNil then (Inr None, w1)
          else (Inl (Errorw ''store: redis GET: %w'' [] e), w1)
      | (Inr d, w1) \<Rightarrow>
          (case Decrypt J (rt_cipher s) d of
             Inl _ \<Rightarrow> (Inr None, snd (rc_Del (rt_client s) (redisTokenKey (rt_prefix s) sub) w1))
           | Inr v \<Rightarrow> (Inr v, w1)))"

definition RedisTokenStore_Set ::
  "'j json_codec_scheme \<Rightarrow> 'a host_scheme RedisTokenStore \<Rightarrow> string \<Rightarrow> gomap option \<Rightarrow> 'a host_scheme
     \<Rightarrow> go_error option \<times> 'a host_scheme" where
  "RedisTokenStore_Set J s sub v w =
     (case Encrypt J (rt_cipher s) v w of
        (Inl e, w1) \<Rightarrow> (Some e, w1)
      | (Inr d, w1) \<Rightarrow> rc_Set (rt_client s) (redisTokenKey (rt_prefix s) sub) d 0 w1)"

definition RedisTokenStore_Delete ::
  "'w RedisTokenStore \<Rightarrow> string \<Rightarrow> 'w \<Rightarrow> go_error option \<times> 'w" where
  "RedisTokenStore_Delete s sub w = rc_Del (rt_client s) (redisTokenKey (rt_prefix s) sub) w"

record 'w RedisPendingStore =
  rp_client :: "'w redis_client"
  rp_prefix :: string
  rp_cipher :: Cipher

definition NewRedisPendingStore :: "'w redis_client \<Rightarrow> string \<Rightarrow> Cipher \<Rightarrow> 'w RedisPendingStore" where
  "NewRedisPendingStore client prefix cipher =
     \<lparr>rp_client = client, rp_prefix = (if prefix = [] then defaultRedisKeyPrefix else prefix), rp_cipher = cipher\<rparr>"

definition RedisPendingStore_Create ::
  "'j json_codec_scheme \<Rightarrow> 'a host_scheme RedisPendingStore \<Rightarrow> string \<Rightarrow> gomap option \<Rightarrow> int64 \<Rightarrow> 'a host_scheme
     \<Rightarrow> go_error option \<times> 'a host_scheme" where
  "RedisPendingStore_Create J s key m ttl w =
     (case Encrypt J (rp_cipher s) m w of
        (Inl e, w1) \<Rightarrow> (Some e, w1)
      | (Inr d, w1) \<Rightarrow> rc_Set (rp_client s) (redisPendingKey (rp_prefix s) key) d (ttl * Second) w1)"

definition getAndDecrypt ::
  "'j json_codec_scheme \<Rightarrow> 'w RedisPendingStore \<Rightarrow> string \<Rightarrow> 'w \<Rightarrow> (go_error + gomap option) \<times> 'w" where
  "getAndDecrypt J s redisKey w =
     (case rc_Get (rp_client s) redisKey w of
        (Inl e, w1) \<Rightarrow>
          if errors_Is e ErrRedisNil then (Inr None, w1)
          else (Inl (Errorw ''store: redis GET: %w'' [] e), w1)
      | (Inr d, w1) \<Rightarrow>
          (case Decrypt J (rp_cipher s) d of
             Inl _ \<Rightarrow> (Inr None, snd (rc_Del (rp_client s) redisKey w1))
           | Inr v \<Rightarrow> (Inr v, w1)))"

definition RedisPendingStore_Get ::
  "'j json_codec_scheme \<Rightarrow> 'w RedisPendingStore \<Rightarrow> string \<Rightarrow> 'w \<Rightarrow> (go_error + gomap option) \<times> 'w" where
  "RedisPendingStore_Get J s key w = getAndDecrypt J s (redisPendingKey (rp_prefix s) key) w"

definition atomicPop ::
  "'j json_codec_scheme \<Rightarrow> 'w RedisPendingStore \<Rightarrow> string \<Rightarrow> 'w \<Rightarrow> (go_error + gomap option) \<times> 'w" where
  "atomicPop J s redisKey w =
     (let ((err, replies), w1) = rc_Exec (rp_client s) [CmdGet redisKey, CmdDel redisKey] w; getCmd = replies 0
      in if (case err of None \<Rightarrow> False | Some e \<Rightarrow> \<not> errors_Is e ErrRedisNil)
         then (Inl (Errorw ''store: redis pipelined pop: %w'' [] (the err)), w1)
         else (case getCmd of
                 Inl e \<Rightarrow>
                   if errors_Is e ErrRedisNil then (Inr None, w1)
                   else (Inl (Errorw ''store: redis GET in pop: %w'' [] e), w1)
               | Inr d \<Rightarrow>
                   (case Decrypt J (rp_cipher s) d of Inl _ \<Rightarrow> (Inr None, w1) | Inr v \<Rightarrow> (Inr v, w1))))"

definition RedisPendingStore_Pop ::
  "'j json_codec_scheme \<Rightarrow> 'w RedisPendingStore \<Rightarrow> string \<Rightarrow> 'w \<Rightarrow> (go_error + gomap option) \<times> 'w" where
  "RedisPendingStore_Pop J s key w = atomicPop J s (redisPendingKey (rp_prefix s) key) w"

definition result_ttl :: "int64 \<Rightarrow> int64" where
  "result_ttl ttl = (if ttl \<le>s 0 then 120 else ttl)"

definition RedisPendingStore_SetResult ::
  "'j json_codec_scheme \<Rightarrow> 'a host_scheme RedisPendingStore \<Rightarrow> string \<Rightarrow> gomap option \<Rightarrow> int64 \<Rightarrow> 'a host_scheme
     \<Rightarrow> go_error option \<times> 'a host_scheme" where
  "RedisPendingStore_SetResult J s key result ttl w =
     (case Encrypt J (rp_cipher s) result w of
        (Inl e, w1) \<Rightarrow> (Some e, w1)
      | (Inr d, w1) \<Rightarrow> rc_Set (rp_client s) (redisDoneKey (rp_prefix s) key) d (result_ttl ttl * Second) w1)"

partial_function (option) redis_wait_loop ::
  "(duration \<Rightarrow> 'a host_scheme \<Rightarrow> go_error option \<times> 'a host_scheme) \<Rightarrow> 'j json_codec_scheme
     \<Rightarrow> 'a host_scheme RedisPendingStore \<Rightarrow> string \<Rightarrow> go_time \<Rightarrow> 'a host_scheme
     \<Rightarrow> ((go_error + gomap option) \<times> 'a host_scheme) option" where
  "redis_wait_loop pause J s redisKey deadline w =
     (let (x, w1) = rc_Exists (rp_client s) redisKey w
      in if (case x of Inl _ \<Rightarrow> False | Inr n \<Rightarrow> 0 <s n)
         then Some (atomicPop J s redisKey w1)
         else
             (let (now, w2) = time_Now w1
              in if time_After now deadline then Some (Inr None, w2)
                 else (let (c, w3) = pause filePollInterval w2
                       in case c of
                            Some e \<Rightarrow> Some (Inl e, w3)
                          | None \<Rightarrow> redis_wait_loop pause J s redisKey deadline w3)))"

definition RedisPendingStore_WaitForResult ::
  "(duration \<Rightarrow> 'a host_scheme \<Rightarrow> go_error option \<times> 'a host_scheme) \<Rightarrow> 'j json_codec_scheme
     \<Rightarrow> 'a host_scheme RedisPendingStore \<Rightarrow> string \<Rightarrow> float64 \<Rightarrow> 'a host_scheme
     \<Rightarrow> ((go_error + gomap option) \<times> 'a host_scheme) option" where
  "RedisPendingStore_WaitForResult pause J s key timeoutSeconds w =
     (let (now, w1) = time_Now w;
          deadline = time_Add now (f64_to_int64 (f2i_oob w) (f64_scale timeoutSeconds 1000000000))
      in redis_wait_loop pause J s (redisDoneKey (rp_prefix s) key) deadline w1)"

definition redis_token_store :: "'j json_codec_scheme \<Rightarrow> 'a host_scheme RedisTokenStore \<Rightarrow> 'a host_scheme token_store" where
  "redis_token_store J s =
     \<lparr>ts_Get = RedisTokenStore_Get J s, ts_Set = RedisTokenStore_Set J s, ts_Delete = RedisTokenStore_Delete s\<rparr>"

definition redis_pending_store ::
  "(duration \<Rightarrow> 'a host_scheme \<Rightarrow> go_error option \<times> 'a host_scheme) \<Rightarrow> 'j json_codec_scheme
     \<Rightarrow> 'a host_scheme RedisPendingStore \<Rightarrow> 'a host_scheme pending_store" where
  "redis_pending_store pause J s =
     \<lparr>ps_Create = RedisPendingStore_Create J s, ps_Get = RedisPendingStore_Get J s,
      ps_Pop = RedisPendingStore_Pop J s,
      ps_SetResult = (\<lambda>key r ttl w. Some (RedisPendingStore_SetResult J s key r ttl w)),
      ps_WaitForResult = RedisPendingStore_WaitForResult pause J s\<rparr>"

subsection \<open>Keys never collide across kinds\<close>

lemma safeName_no_colon: "CHR '':'' \<notin> set (safeName k)"
  using safeName_chars [of k] by auto

text \<open>The part of a key after its last colon, and the rest.\<close>

lemma last_colon:
  assumes "a @ CHR '':'' # safeName k = b @ CHR '':'' # safeName k'"
  shows "a = b \<and> safeName k = safeName k'"
proof -
  have "rev (safeName k) @ CHR '':'' # rev a = rev (safeName k') @ CHR '':'' # rev b"
    using arg_cong [OF assms, of rev] by simp
  then have "takeWhile (\<lambda>c. c \<noteq> CHR '':'') (rev (safeName k) @ CHR '':'' # rev a) =
      takeWhile (\<lambda>c. c \<noteq> CHR '':'') (rev (safeName k') @ CHR '':'' # rev b)" by simp
  moreover have "takeWhile (\<lambda>c. c \<noteq> CHR '':'') (rev (safeName x) @ CHR '':'' # y) = rev (safeName x)" for x y
    using safeName_no_colon [of x] by (subst takeWhile_append2) auto
  ultimately have "safeName k = safeName k'" by simp
  with assms show ?thesis by simp
qed

lemma token_key_eq: "redisTokenKey p k = redisTokenKey q k' \<longleftrightarrow> p = q \<and> safeName k = safeName k'"
  using last_colon [of "p @ ''token''" k "q @ ''token''" k'] by (auto simp: redisTokenKey_def)

lemma pending_key_eq: "redisPendingKey p k = redisPendingKey q k' \<longleftrightarrow> p = q \<and> safeName k = safeName k'"
  using last_colon [of "p @ ''pending''" k "q @ ''pending''" k'] by (auto simp: redisPendingKey_def)

lemma done_key_eq: "redisDoneKey p k = redisDoneKey q k' \<longleftrightarrow> p = q \<and> safeName k = safeName k'"
  using last_colon [of "p @ ''done''" k "q @ ''done''" k'] by (auto simp: redisDoneKey_def)

lemma kinds_differ:
  "redisTokenKey p k \<noteq> redisPendingKey q k'" "redisTokenKey p k \<noteq> redisDoneKey q k'"
  "redisPendingKey p k \<noteq> redisDoneKey q k'"
proof -
  have l: "last (a @ [x]) = x" for a :: string and x by simp
  show "redisTokenKey p k \<noteq> redisPendingKey q k'"
    using last_colon [of "p @ ''token''" k "q @ ''pending''" k'] arg_cong [of "p @ ''token''" "q @ ''pending''" last]
    by (auto simp: redisTokenKey_def redisPendingKey_def)
  show "redisTokenKey p k \<noteq> redisDoneKey q k'"
    using last_colon [of "p @ ''token''" k "q @ ''done''" k'] arg_cong [of "p @ ''token''" "q @ ''done''" last]
    by (auto simp: redisTokenKey_def redisDoneKey_def)
  show "redisPendingKey p k \<noteq> redisDoneKey q k'"
    using last_colon [of "p @ ''pending''" k "q @ ''done''" k'] arg_cong [of "p @ ''pending''" "q @ ''done''" last]
    by (auto simp: redisPendingKey_def redisDoneKey_def)
qed

lemma trimSuffixColon_last: "trimSuffixColon s = [] \<or> last (trimSuffixColon s) \<noteq> CHR '':''"
proof (induction s rule: trimSuffixColon.induct)
  case (1 s)
  then show ?case
    by (cases "0 < length s \<and> last s = CHR '':''") (auto simp: trimSuffixColon.simps [of s])
qed

end
