(* ===== verification/Store_File_Contract.thy ===== *)
theory Store_File_Contract
  imports Store_File Oauth_Contract Credentials_Contract
begin

text \<open>
  The file backend keeps the contracts of \<open>Store\<close> while no system call fails, for keys whose
  SHA-256 names do not collide: locale \<open>file_backend\<close> has the two directories, the key and the codec
  as parameters and is a sublocale of \<open>provider_stores\<close>, so the flows of both providers hold for it.
  A stored value reads back as its JSON image.
\<close>

subsection \<open>Images under the codec\<close>

definition json_image :: "'j json_codec_scheme \<Rightarrow> gomap option \<Rightarrow> gomap option option" where
  "json_image J v =
     (case json_Marshal J v of
        Inl _ \<Rightarrow> None
      | Inr s \<Rightarrow> (case json_Unmarshal J s of Inl _ \<Rightarrow> None | Inr v' \<Rightarrow> Some v'))"

definition record_image :: "file_codec \<Rightarrow> gomap option \<Rightarrow> int64 \<Rightarrow> filePendingRecord option" where
  "record_image J m t =
     (case rec_Marshal J \<lparr>RMetadata = m, RExpires = t\<rparr> of
        Inl _ \<Rightarrow> None
      | Inr raw \<Rightarrow>
          (case json_image J (Some [''record'' \<mapsto> AStr raw]) of
             None \<Rightarrow> None
           | Some d \<Rightarrow>
               (case rec_Unmarshal J (any_string (gomap_get d ''record'')) of Inl _ \<Rightarrow> None | Inr r \<Rightarrow> Some r)))"

text \<open>The metadata survive the round trip as \<open>m'\<close> and the expiry exactly.\<close>

definition record_ok :: "file_codec \<Rightarrow> gomap option \<Rightarrow> gomap option \<Rightarrow> bool" where
  "record_ok J m m' \<longleftrightarrow> (\<forall>t. record_image J m t = Some \<lparr>RMetadata = m', RExpires = t\<rparr>)"

definition file_trepr :: "'j json_codec_scheme \<Rightarrow> gomap option \<Rightarrow> gomap option" where
  "file_trepr J v = (case json_image J v of None \<Rightarrow> None | Some v' \<Rightarrow> v')"

definition file_prepr :: "file_codec \<Rightarrow> gomap option \<Rightarrow> gomap option" where
  "file_prepr J m = (case record_image J m 0 of None \<Rightarrow> None | Some r \<Rightarrow> RMetadata r)"

definition decode_record :: "file_codec \<Rightarrow> Cipher \<Rightarrow> string \<Rightarrow> filePendingRecord option" where
  "decode_record J c d =
     (case Decrypt J c d of
        Inl _ \<Rightarrow> None
      | Inr v \<Rightarrow>
          (case rec_Unmarshal J (any_string (gomap_get v ''record'')) of Inl _ \<Rightarrow> None | Inr r \<Rightarrow> Some r))"

definition file_lookup :: "'j json_codec_scheme \<Rightarrow> FileTokenStore \<Rightarrow> 'a os_world_scheme \<Rightarrow> string \<Rightarrow> gomap option" where
  "file_lookup J s w k =
     (case files w (FileTokenStore_path s k) of
        None \<Rightarrow> None
      | Some d \<Rightarrow> (case Decrypt J (ft_cipher s) d of Inl _ \<Rightarrow> None | Inr v \<Rightarrow> v))"

definition file_entries ::
  "file_codec \<Rightarrow> FilePendingStore \<Rightarrow> 'a os_world_scheme \<Rightarrow> string \<Rightarrow> (gomap option \<times> int) option" where
  "file_entries J s w k =
     map_option (\<lambda>r. (RMetadata r, sint (RExpires r)))
       (Option.bind (files w (metaPath s k)) (decode_record J (fp_cipher s)))"

definition unix_expired :: "go_time \<Rightarrow> int \<Rightarrow> bool" where
  "unix_expired t e \<longleftrightarrow> e < sint (time_Unix t)"

definition unix_expiry :: "go_time \<Rightarrow> int64 \<Rightarrow> int" where
  "unix_expiry t ttl = sint (time_Unix (time_Add t (ttl * Second)))"

text \<open>A result counts as pending while no reading of the clock expires it.\<close>

definition file_signal ::
  "file_codec \<Rightarrow> FilePendingStore \<Rightarrow> 'a os_world_scheme \<Rightarrow> string \<Rightarrow> gomap option option" where
  "file_signal J s w k =
     (case Option.bind (files w (donePath s k)) (decode_record J (fp_cipher s)) of
        None \<Rightarrow> None
      | Some r \<Rightarrow> if \<exists>n. unix_expired (clock w n) (sint (RExpires r)) then None else Some (RMetadata r))"

definition file_usable :: "'a os_world_scheme \<Rightarrow> bool" where
  "file_usable w \<longleftrightarrow> no_faults w \<and> no_temps w"

definition file_lasting :: "'a os_world_scheme \<Rightarrow> int64 \<Rightarrow> bool" where
  "file_lasting w ttl \<longleftrightarrow> (\<forall>i j. \<not> unix_expired (clock w i) (unix_expiry (clock w j) ttl))"

text \<open>The world but for a set of paths, the directories and the position in the host's streams.\<close>

definition mask_files :: "string set \<Rightarrow> (string \<Rightarrow> string option) \<Rightarrow> string \<Rightarrow> string option" where
  "mask_files P f p = (if p \<in> P then None else f p)"

definition world_but :: "string set \<Rightarrow> 'a os_world_scheme \<Rightarrow> 'a os_world_scheme" where
  "world_but P w = w\<lparr>tick := 0, dirs := {}, files := mask_files P (files w)\<rparr>"

lemma world_but_eq:
  assumes "\<And>p. p \<notin> P \<Longrightarrow> f p = files w p"
  shows "world_but P (w\<lparr>tick := n, dirs := D, files := f\<rparr>) = world_but P w"
proof -
  have "mask_files P f = mask_files P (files w)" using assms by (auto simp: mask_files_def fun_eq_iff)
  then show ?thesis by (simp add: world_but_def)
qed

lemma world_but_tick [simp]: "world_but P (w\<lparr>tick := n\<rparr>) = world_but P w"
  by (simp add: world_but_def)

lemma world_but_files: "world_but P w = world_but P w' \<Longrightarrow> p \<notin> P \<Longrightarrow> files w p = files w' p"
proof -
  assume a: "world_but P w = world_but P w'" "p \<notin> P"
  then have "mask_files P (files w) = mask_files P (files w')" unfolding world_but_def by (cases w; cases w') simp
  then show ?thesis using a(2) by (metis mask_files_def)
qed

lemma world_but_clock: "world_but P w = world_but P w' \<Longrightarrow> clock w = clock w'"
  unfolding world_but_def by (cases w; cases w') simp

text \<open>One path was written, everything else but the position in the streams kept.\<close>

definition wrote :: "string \<Rightarrow> string option \<Rightarrow> 'a os_world_scheme \<Rightarrow> 'a os_world_scheme \<Rightarrow> bool" where
  "wrote p v w w' \<longleftrightarrow> (\<exists>n D. w' = w\<lparr>tick := n, dirs := D, files := (files w)(p := v)\<rparr>)"

lemma wrote_write: "wrote p v w (w\<lparr>tick := n, dirs := D, files := (files w)(p := v)\<rparr>)"
  by (auto simp: wrote_def)

lemma wrote_remove: "wrote p v w (w\<lparr>tick := n, files := (files w)(p := v)\<rparr>)"
  unfolding wrote_def by (intro exI [of _ n] exI [of _ "dirs w"]) simp

lemma wrote_facts:
  assumes "wrote p v w w'"
  shows "files w' = (files w)(p := v)" and "clock w' = clock w"
    and "p \<in> P \<Longrightarrow> world_but P w' = world_but P w"
    and "file_usable w \<Longrightarrow> \<not> is_temp p \<Longrightarrow> file_usable w'"
  using assms by (auto simp: wrote_def file_usable_def no_temps_def no_faults_def intro: world_but_eq)

subsection \<open>The operations on a working system\<close>

lemma Encrypt_image:
  assumes "length key = 32" and "json_image J v = Some v'" and "no_faults w"
  shows "\<exists>ct. Encrypt J (aes_gcm key) v w = (Inr ct, w\<lparr>tick := Suc (Suc (tick w))\<rparr>) \<and>
    Decrypt J (aes_gcm key) ct = Inr v'"
proof -
  have c: "NewCipher key = Inr (aes_gcm key)" using assms(1) by (simp add: NewCipher_def)
  obtain s where s: "json_Marshal J v = Inr s" "json_Unmarshal J s = Inr v'"
    using assms(2) by (auto simp: json_image_def split: sum.splits)
  have "faults w (tick w) = None" using assms(3) by (simp add: no_faults_def)
  from Encrypt_ok [OF s(1) this, of "aes_gcm key"] obtain nonce where
    e: "Encrypt J (aes_gcm key) v w = (Inr (nonce @ aead_Seal (aes_gcm key) nonce s), w\<lparr>tick := Suc (Suc (tick w))\<rparr>)"
    and n: "length nonce = NonceSize (aes_gcm key)" by blast
  from Decrypt_sealed [OF c n, of J s] s(2) e show ?thesis by auto
qed

lemma writeRecord_ok:
  assumes "length key = 32" and "fp_cipher s = aes_gcm key" and "record_ok J m m'" and "file_usable w"
    and "\<not> is_temp path"
  shows "\<exists>n D d. writeRecord J s path m ttl w = (None, w\<lparr>tick := n, dirs := D, files := (files w)(path \<mapsto> d)\<rparr>) \<and>
    decode_record J (aes_gcm key) d =
      Some \<lparr>RMetadata = m', RExpires = time_Unix (time_Add (clock w (tick w)) (ttl * Second))\<rparr>"
proof -
  let ?t = "time_Unix (time_Add (clock w (tick w)) (ttl * Second))"
  define w1 where "w1 = w\<lparr>tick := Suc (tick w)\<rparr>"
  from assms(3) have im: "record_image J m ?t = Some \<lparr>RMetadata = m', RExpires = ?t\<rparr>" by (simp add: record_ok_def)
  then obtain raw d' where raw: "rec_Marshal J \<lparr>RMetadata = m, RExpires = ?t\<rparr> = Inr raw"
    and d': "json_image J (Some [''record'' \<mapsto> AStr raw]) = Some d'"
      "rec_Unmarshal J (any_string (gomap_get d' ''record'')) = Inr \<lparr>RMetadata = m', RExpires = ?t\<rparr>"
    by (auto simp: record_image_def split: sum.splits option.splits)
  have u: "no_faults w1" "no_temps w1" using assms(4) by (auto simp: file_usable_def w1_def no_temps_def)
  from Encrypt_image [OF assms(1) d'(1) u(1)] obtain ct where
    ct: "Encrypt J (aes_gcm key) (Some [''record'' \<mapsto> AStr raw]) w1 = (Inr ct, w1\<lparr>tick := Suc (Suc (tick w1))\<rparr>)"
      "Decrypt J (aes_gcm key) ct = Inr d'" by blast
  have u2: "no_faults (w1\<lparr>tick := Suc (Suc (tick w1))\<rparr>)" "no_temps (w1\<lparr>tick := Suc (Suc (tick w1))\<rparr>)"
    using u by (simp_all add: no_temps_def)
  from atomicWrite_ok [OF u2 assms(5), of ct] obtain n D where
    "atomicWriteFile path ct (w1\<lparr>tick := Suc (Suc (tick w1))\<rparr>) =
      (None, w1\<lparr>tick := n, dirs := D, files := (files w1)(path \<mapsto> ct)\<rparr>)" by auto
  then have "writeRecord J s path m ttl w = (None, w\<lparr>tick := n, dirs := D, files := (files w)(path \<mapsto> ct)\<rparr>)"
    using raw ct(1) by (simp add: writeRecord_def time_Now_def assms(2) w1_def)
  moreover have "decode_record J (aes_gcm key) ct = Some \<lparr>RMetadata = m', RExpires = ?t\<rparr>"
    using ct(2) d'(2) by (simp add: decode_record_def)
  ultimately show ?thesis by blast
qed

lemma wrote_tick: "wrote p (files w p) w (w\<lparr>tick := n\<rparr>)"
  unfolding wrote_def by (intro exI [of _ n] exI [of _ "dirs w"]) simp

lemma wrote_trans: "wrote p v w w1 \<Longrightarrow> wrote p v' w1 w2 \<Longrightarrow> wrote p v' w w2"
  by (force simp: wrote_def)

lemma Remove_wrote: "no_faults w \<Longrightarrow> wrote p None w (snd (os_Remove p w))"
  by (simp add: Remove_ok wrote_remove)

lemma wrote_no_faults: "wrote p v w w' \<Longrightarrow> no_faults w' = no_faults w"
  by (auto simp: wrote_def no_faults_def)

text \<open>The record a path holds, if it decodes, and what reading it at a time gives.\<close>

definition held :: "file_codec \<Rightarrow> Cipher \<Rightarrow> string option \<Rightarrow> filePendingRecord option" where
  "held J c v = Option.bind v (decode_record J c)"

definition read_back :: "file_codec \<Rightarrow> Cipher \<Rightarrow> string option \<Rightarrow> go_time \<Rightarrow> filePendingRecord option" where
  "read_back J c v t =
     (case held J c v of None \<Rightarrow> None | Some r \<Rightarrow> if unix_expired t (sint (RExpires r)) then None else Some r)"

text \<open>Reading a record finds that, and removes the file of a record it does not return.\<close>

lemma readRecord_wrote:
  assumes "no_faults w" and "fp_cipher s = c"
  obtains w' v where "readRecord J s path w = (Inr (read_back J c (files w path) (clock w (Suc (tick w)))), w')"
    and "wrote path v w w'"
    and "v = (if read_back J c (files w path) (clock w (Suc (tick w))) = None then None else files w path)"
proof (cases "held J c (files w path)")
  case None
  show thesis
  proof (cases "files w path")
    case None
    with assms that [OF _ wrote_tick [of path w "Suc (tick w)"]] show thesis
      by (simp add: readRecord_def ReadFile_ok os_IsNotExist_def read_back_def held_def)
  next
    case (Some d)
    with None assms have "readRecord J s path w =
        (Inr None, w\<lparr>tick := Suc (Suc (tick w)), files := (files w)(path := None)\<rparr>)"
      by (auto simp: readRecord_def ReadFile_ok Remove_ok decode_record_def held_def split: sum.splits)
    with None that [OF _ wrote_remove] show thesis by (simp add: read_back_def)
  qed
next
  case (Some r)
  then obtain d v where v: "files w path = Some d" "Decrypt J c d = Inr v"
    "rec_Unmarshal J (any_string (gomap_get v ''record'')) = Inr r"
    by (cases "files w path") (auto simp: decode_record_def held_def split: sum.splits)
  show thesis
  proof (cases "unix_expired (clock w (Suc (tick w))) (sint (RExpires r))")
    case True
    with v assms have "readRecord J s path w =
        (Inr None, w\<lparr>tick := Suc (Suc (Suc (tick w))), files := (files w)(path := None)\<rparr>)"
      by (simp add: readRecord_def ReadFile_ok Remove_ok time_Now_def unix_expired_def word_sless_alt)
    with True Some that [OF _ wrote_remove] show thesis by (simp add: read_back_def)
  next
    case False
    with v assms have "readRecord J s path w = (Inr (Some r), w\<lparr>tick := Suc (Suc (tick w))\<rparr>)"
      by (simp add: readRecord_def ReadFile_ok time_Now_def unix_expired_def word_sless_alt)
    with False Some that [OF _ wrote_tick] show thesis by (simp add: read_back_def)
  qed
qed

subsection \<open>The backend as an instance of the contracts\<close>

locale file_backend =
  fixes J :: file_codec
    and key :: string
    and tdir :: string
    and pdir :: string
    and tkeys :: "string set"
    and pkeys :: "string set"
    and pause :: "duration \<Rightarrow> 'a os_world_scheme \<Rightarrow> go_error option \<times> 'a os_world_scheme"
  assumes key32: "length key = 32"
    and dirs_ne: "tdir \<noteq> []" "pdir \<noteq> []"
    and dirs_differ: "filepath_Clean tdir \<noteq> filepath_Clean pdir"
    and tkeys_inj: "inj_on safeName tkeys"
    and pkeys_inj: "inj_on safeName pkeys"
begin

abbreviation fts :: FileTokenStore where
  "fts \<equiv> \<lparr>ft_dir = tdir, ft_cipher = aes_gcm key\<rparr>"

abbreviation fps :: FilePendingStore where
  "fps \<equiv> \<lparr>fp_dir = pdir, fp_cipher = aes_gcm key\<rparr>"

abbreviation tpaths :: "string set" where
  "tpaths \<equiv> range (FileTokenStore_path fts)"

abbreviation ppaths :: "string set" where
  "ppaths \<equiv> range (metaPath fps) \<union> range (donePath fps)"

lemma tpath_eq: "k \<in> tkeys \<Longrightarrow> k' \<in> tkeys \<Longrightarrow> FileTokenStore_path fts k = FileTokenStore_path fts k' \<longleftrightarrow> k = k'"
  using Join_inj [OF enc_plain(1) enc_plain(1) dirs_ne(1) dirs_ne(1), of k k'] tkeys_inj
  by (auto simp: FileTokenStore_path_def dest: inj_onD)

lemma meta_eq: "k \<in> pkeys \<Longrightarrow> k' \<in> pkeys \<Longrightarrow> metaPath fps k = metaPath fps k' \<longleftrightarrow> k = k'"
  using Join_inj [OF enc_plain(1) enc_plain(1) dirs_ne(2) dirs_ne(2), of k k'] pkeys_inj
  by (auto simp: metaPath_def dest: inj_onD)

lemma done_eq: "k \<in> pkeys \<Longrightarrow> k' \<in> pkeys \<Longrightarrow> donePath fps k = donePath fps k' \<longleftrightarrow> k = k'"
  using Join_inj [OF enc_plain(2) enc_plain(2) dirs_ne(2) dirs_ne(2), of k k'] pkeys_inj
  by (auto simp: donePath_def dest: inj_onD)

lemma meta_done: "metaPath fps k \<noteq> donePath fps k'"
  using Join_inj [OF enc_plain(1) enc_plain(2) dirs_ne(2) dirs_ne(2), of k k'] done_not_meta [of k' k]
  by (auto simp: metaPath_def donePath_def)

lemma token_pending: "p \<in> tpaths \<Longrightarrow> p \<notin> ppaths"
  using Join_inj [OF enc_plain(1) enc_plain(1) dirs_ne(1) dirs_ne(2)]
    Join_inj [OF enc_plain(1) enc_plain(2) dirs_ne(1) dirs_ne(2)] dirs_differ
  by (auto simp: FileTokenStore_path_def metaPath_def donePath_def)

lemma paths_not_temp:
  "\<not> is_temp (FileTokenStore_path fts k)" "\<not> is_temp (metaPath fps k)" "\<not> is_temp (donePath fps k)"
  using not_temp [of "CHR ''e''" tdir k "''nc''"] not_temp [of "CHR ''e''" pdir k "''nc''"]
    not_temp [of "CHR ''d''" pdir k "''one.enc''"] dirs_ne enc_plain [of k]
  by (simp_all add: FileTokenStore_path_def metaPath_def donePath_def)

lemma usable_tick [simp]: "file_usable (w\<lparr>tick := n\<rparr>) = file_usable w"
  by (simp add: file_usable_def no_temps_def)

lemma lookup_upd:
  assumes "wrote (FileTokenStore_path fts k) v w w'" and "k \<in> tkeys" and "k' \<in> tkeys"
  shows "file_lookup J fts w' k' =
    (if k' = k then (case v of None \<Rightarrow> None | Some d \<Rightarrow> (case Decrypt J (aes_gcm key) d of Inl _ \<Rightarrow> None | Inr x \<Rightarrow> x))
     else file_lookup J fts w k')"
  using tpath_eq [OF assms(3,2)] by (auto simp: file_lookup_def wrote_facts [OF assms(1)] split: option.splits)

lemma file_get_law:
  assumes "file_usable w" and "k \<in> tkeys" and "FileTokenStore_Get J fts k w = (x, w')"
  shows "x = Inr (file_lookup J fts w k) \<and> file_usable w' \<and> world_but tpaths w' = world_but tpaths w \<and>
    (\<forall>k' \<in> tkeys. file_lookup J fts w' k' = file_lookup J fts w k')"
proof -
  let ?p = "FileTokenStore_path fts k"
  have nf: "no_faults w" using assms(1) by (simp add: file_usable_def)
  show ?thesis
  proof (cases "\<exists>d e. files w ?p = Some d \<and> Decrypt J (aes_gcm key) d = Inl e")
    case True
    then obtain d e where d: "files w ?p = Some d" "Decrypt J (aes_gcm key) d = Inl e" by blast
    with assms(3) nf have x: "x = Inr None" and w': "wrote ?p None w w'"
      by (auto simp: FileTokenStore_Get_def ReadFile_ok Remove_ok wrote_remove)
    have l: "file_lookup J fts w k = None" using d by (simp add: file_lookup_def)
    show ?thesis
      using x l assms(1,2) paths_not_temp(1) lookup_upd [OF w'] wrote_facts(3,4) [OF w'] by auto
  next
    case False
    with assms(3) nf have "x = Inr (file_lookup J fts w k) \<and> w' = w\<lparr>tick := Suc (tick w)\<rparr>"
      by (auto simp: FileTokenStore_Get_def ReadFile_ok os_IsNotExist_def file_lookup_def split: option.splits sum.splits)
    then show ?thesis using assms(1) by (simp add: file_lookup_def)
  qed
qed

lemma file_set_law:
  assumes "file_usable w" and "k \<in> tkeys" and "json_image J v \<noteq> None"
    and "FileTokenStore_Set J fts k v w = (e, w')"
  shows "e = None \<and> file_usable w' \<and> world_but tpaths w' = world_but tpaths w \<and>
    (\<forall>k' \<in> tkeys. file_lookup J fts w' k' = (if k' = k then file_trepr J v else file_lookup J fts w k'))"
proof -
  let ?p = "FileTokenStore_path fts k"
  obtain v' where v': "json_image J v = Some v'" using assms(3) by blast
  have u: "no_faults w" "no_temps w" using assms(1) by (simp_all add: file_usable_def)
  from Encrypt_image [OF key32 v' u(1)] obtain ct where
    ct: "Encrypt J (aes_gcm key) v w = (Inr ct, w\<lparr>tick := Suc (Suc (tick w))\<rparr>)" "Decrypt J (aes_gcm key) ct = Inr v'"
    by blast
  have u2: "no_faults (w\<lparr>tick := Suc (Suc (tick w))\<rparr>)" "no_temps (w\<lparr>tick := Suc (Suc (tick w))\<rparr>)"
    using u by (simp_all add: no_temps_def)
  from atomicWrite_ok [OF u2 paths_not_temp(1) [of k], of ct] obtain n D where
    "atomicWriteFile ?p ct (w\<lparr>tick := Suc (Suc (tick w))\<rparr>) =
      (None, w\<lparr>tick := n, dirs := D, files := (files w)(?p \<mapsto> ct)\<rparr>)" by auto
  then have "e = None" and w': "wrote ?p (Some ct) w w'"
    using assms(4) ct(1) by (auto simp: FileTokenStore_Set_def wrote_write)
  then show ?thesis
    using assms(1,2) ct(2) v' paths_not_temp(1) lookup_upd [OF w'] wrote_facts(3,4) [OF w']
    by (auto simp: file_trepr_def)
qed

lemma file_delete_law:
  assumes "file_usable w" and "k \<in> tkeys" and "FileTokenStore_Delete fts k w = (e, w')"
  shows "e = None \<and> file_usable w' \<and> world_but tpaths w' = world_but tpaths w \<and>
    (\<forall>k' \<in> tkeys. file_lookup J fts w' k' = (if k' = k then None else file_lookup J fts w k'))"
proof -
  let ?p = "FileTokenStore_path fts k"
  have nf: "no_faults w" using assms(1) by (simp add: file_usable_def)
  have "e = None" using assms(3) nf
    by (auto simp: FileTokenStore_Delete_def os_Remove_def io_call_ok os_IsNotExist_def split: option.splits)
  moreover have w': "wrote ?p None w w'"
    using assms(3) Remove_ok [OF nf, of ?p]
    by (auto simp: FileTokenStore_Delete_def wrote_remove split: prod.splits option.splits if_splits)
  ultimately show ?thesis
    using assms(1,2) paths_not_temp(1) lookup_upd [OF w'] wrote_facts(3,4) [OF w'] by auto
qed

abbreviation pstore_ok :: "gomap option \<Rightarrow> bool" where
  "pstore_ok m \<equiv> record_ok J m (file_prepr J m)"

lemma meta_upd:
  assumes "wrote (metaPath fps k) v w w'" and "k \<in> pkeys" and "k' \<in> pkeys"
  shows "file_entries J fps w' k' =
      (if k' = k then map_option (\<lambda>r. (RMetadata r, sint (RExpires r))) (held J (aes_gcm key) v)
       else file_entries J fps w k')"
    and "file_signal J fps w' k' = file_signal J fps w k'"
  using meta_eq [OF assms(3,2)] meta_done [of k k']
  by (auto simp: file_entries_def file_signal_def held_def wrote_facts [OF assms(1)] split: option.splits)

lemma done_upd:
  assumes "wrote (donePath fps k) v w w'" and "k \<in> pkeys" and "k' \<in> pkeys"
  shows "file_entries J fps w' k' = file_entries J fps w k'"
    and "file_signal J fps w' k' =
      (if k' = k then (case held J (aes_gcm key) v of
          None \<Rightarrow> None
        | Some r \<Rightarrow> if \<exists>n. unix_expired (clock w n) (sint (RExpires r)) then None else Some (RMetadata r))
       else file_signal J fps w k')"
  using done_eq [OF assms(3,2)] meta_done [of k' k]
  by (auto simp: file_entries_def file_signal_def held_def wrote_facts [OF assms(1)] split: option.splits)

lemma entries_held: "file_entries J fps w k =
    map_option (\<lambda>r. (RMetadata r, sint (RExpires r))) (held J (aes_gcm key) (files w (metaPath fps k)))"
  by (simp add: file_entries_def held_def)

lemma writeRecord_wrote:
  assumes "file_usable w" and "pstore_ok m" and "\<not> is_temp path"
  obtains w' d where "writeRecord J fps path m ttl w = (None, w')" and "wrote path (Some d) w w'"
    and "held J (aes_gcm key) (Some d) = Some \<lparr>RMetadata = file_prepr J m,
        RExpires = time_Unix (time_Add (clock w (tick w)) (ttl * Second))\<rparr>"
  using writeRecord_ok [OF key32 _ assms(2,1,3), of fps ttl] wrote_write unfolding held_def by fastforce

lemma file_create_law:
  assumes "file_usable w" and "k \<in> pkeys" and "pstore_ok m" and "FilePendingStore_Create J fps k m ttl w = (e, w')"
  shows "e = None \<and> file_usable w' \<and> world_but ppaths w' = world_but ppaths w \<and>
    (\<forall>k' \<in> pkeys. file_signal J fps w' k' = file_signal J fps w k') \<and>
    (\<forall>k' \<in> pkeys. file_entries J fps w' k' =
       (if k' = k then Some (file_prepr J m, unix_expiry (clock w (tick w)) ttl) else file_entries J fps w k'))"
proof -
  obtain w1 d where "writeRecord J fps (metaPath fps k) m ttl w = (None, w1)" and w1: "wrote (metaPath fps k) (Some d) w w1"
    and h: "held J (aes_gcm key) (Some d) = Some \<lparr>RMetadata = file_prepr J m,
        RExpires = time_Unix (time_Add (clock w (tick w)) (ttl * Second))\<rparr>"
    by (rule writeRecord_wrote [OF assms(1,3) paths_not_temp(2)])
  then have "e = None" "w' = w1" using assms(4) by (simp_all add: FilePendingStore_Create_def)
  then show ?thesis
    using assms(1,2) h paths_not_temp(2) meta_upd [OF w1] wrote_facts(3,4) [OF w1] by (auto simp: unix_expiry_def)
qed

lemma entries_read_back:
  "(case file_entries J fps w k of None \<Rightarrow> None | Some (m, t) \<Rightarrow> if unix_expired now t then None else m) =
     (case read_back J (aes_gcm key) (files w (metaPath fps k)) now of None \<Rightarrow> None | Some r \<Rightarrow> RMetadata r)"
  by (simp add: entries_held read_back_def split: option.splits)

lemma file_pget_law:
  assumes "file_usable w" and "k \<in> pkeys" and "FilePendingStore_Get J fps k w = (x, w')"
  shows "x = Inr (case file_entries J fps w k of
        None \<Rightarrow> None | Some (m, t) \<Rightarrow> if unix_expired (clock w (Suc (tick w))) t then None else m) \<and>
    file_usable w' \<and> world_but ppaths w' = world_but ppaths w \<and>
    (\<forall>k' \<in> pkeys. file_signal J fps w' k' = file_signal J fps w k') \<and>
    (\<forall>k' \<in> pkeys. file_entries J fps w' k' =
       (case file_entries J fps w k' of
          Some (m, t) \<Rightarrow> if k' = k \<and> unix_expired (clock w (Suc (tick w))) t then None else Some (m, t)
        | None \<Rightarrow> None))"
proof -
  let ?p = "metaPath fps k"
  let ?r = "read_back J (aes_gcm key) (files w ?p) (clock w (Suc (tick w)))"
  have nf: "no_faults w" using assms(1) by (simp add: file_usable_def)
  obtain w1 v where r: "readRecord J fps ?p w = (Inr ?r, w1)" and w1: "wrote ?p v w w1"
    and v: "v = (if ?r = None then None else files w ?p)"
    by (rule readRecord_wrote [OF nf, of fps]) auto
  have x: "x = Inr (case ?r of None \<Rightarrow> None | Some r \<Rightarrow> RMetadata r)" and w': "w' = w1"
    using assms(3) r by (auto simp: FilePendingStore_Get_def split: option.splits)
  have "file_entries J fps w1 k' =
       (case file_entries J fps w k' of
          Some (m, t) \<Rightarrow> if k' = k \<and> unix_expired (clock w (Suc (tick w))) t then None else Some (m, t)
        | None \<Rightarrow> None)" if "k' \<in> pkeys" for k'
    using v meta_upd(1) [OF w1 assms(2) that] by (auto simp: entries_held read_back_def held_def split: option.splits if_splits)
  then show ?thesis
    using x assms(1,2) paths_not_temp(2) meta_upd(2) [OF w1] wrote_facts(3,4) [OF w1]
    unfolding entries_read_back w' by auto
qed

lemma file_pop_law:
  assumes "file_usable w" and "k \<in> pkeys" and "FilePendingStore_Pop J fps k w = (x, w')"
  shows "x = Inr (case file_entries J fps w k of
        None \<Rightarrow> None | Some (m, t) \<Rightarrow> if unix_expired (clock w (Suc (tick w))) t then None else m) \<and>
    file_usable w' \<and> world_but ppaths w' = world_but ppaths w \<and>
    (\<forall>k' \<in> pkeys. file_signal J fps w' k' = file_signal J fps w k') \<and>
    (\<forall>k' \<in> pkeys. file_entries J fps w' k' = (if k' = k then None else file_entries J fps w k'))"
proof -
  let ?p = "metaPath fps k"
  let ?r = "read_back J (aes_gcm key) (files w ?p) (clock w (Suc (tick w)))"
  have nf: "no_faults w" using assms(1) by (simp add: file_usable_def)
  obtain w1 v where r: "readRecord J fps ?p w = (Inr ?r, w1)" and w1: "wrote ?p v w w1"
    by (rule readRecord_wrote [OF nf, of fps]) auto
  have nf1: "no_faults w1" using wrote_no_faults [OF w1] nf by simp
  have x: "x = Inr (case ?r of None \<Rightarrow> None | Some r \<Rightarrow> RMetadata r)" and w': "wrote ?p None w w'"
    using assms(3) r wrote_trans [OF w1 Remove_wrote [OF nf1]] by (auto simp: FilePendingStore_Pop_def)
  show ?thesis
    using x assms(1,2) paths_not_temp(2) meta_upd [OF w'] wrote_facts(3,4) [OF w']
    unfolding entries_read_back by (auto simp: held_def)
qed

lemma file_set_result_law:
  assumes "file_usable w" and "k \<in> pkeys" and "pstore_ok r" and "file_lasting w ttl"
  shows "\<exists>w'. FilePendingStore_SetResult J fps k r ttl w = (None, w') \<and>
    file_usable w' \<and> world_but ppaths w' = world_but ppaths w \<and>
    (\<forall>k' \<in> pkeys. file_entries J fps w' k' = file_entries J fps w k') \<and>
    (\<forall>k' \<in> pkeys. file_signal J fps w' k' = (if k' = k then Some (file_prepr J r) else file_signal J fps w k'))"
proof -
  obtain w1 d where e: "writeRecord J fps (donePath fps k) r ttl w = (None, w1)" and w1: "wrote (donePath fps k) (Some d) w w1"
    and h: "held J (aes_gcm key) (Some d) = Some \<lparr>RMetadata = file_prepr J r,
        RExpires = time_Unix (time_Add (clock w (tick w)) (ttl * Second))\<rparr>"
    by (rule writeRecord_wrote [OF assms(1,3) paths_not_temp(3)])
  have "\<not> unix_expired (clock w n) (sint (time_Unix (time_Add (clock w (tick w)) (ttl * Second))))" for n
    using assms(4) by (simp add: file_lasting_def unix_expiry_def)
  then show ?thesis
    using e h assms(1,2) paths_not_temp(3) done_upd [OF w1] wrote_facts(3,4) [OF w1]
    by (auto simp: FilePendingStore_SetResult_def)
qed

lemma file_wait_law:
  assumes "file_usable w" and "k \<in> pkeys" and "file_signal J fps w k = Some r"
  shows "\<exists>w'. FilePendingStore_WaitForResult pause J fps k t w = Some (Inr r, w') \<and>
    file_usable w' \<and> world_but ppaths w' = world_but ppaths w \<and>
    (\<forall>k' \<in> pkeys. file_entries J fps w' k' = file_entries J fps w k') \<and>
    (\<forall>k' \<in> pkeys. file_signal J fps w' k' = (if k' = k then None else file_signal J fps w k'))"
proof -
  let ?p = "donePath fps k" and ?w1 = "w\<lparr>tick := Suc (tick w)\<rparr>"
  obtain q where q: "held J (aes_gcm key) (files w ?p) = Some q" "RMetadata q = r"
    "\<And>n. \<not> unix_expired (clock w n) (sint (RExpires q))"
    using assms(3) by (auto simp: file_signal_def held_def split: option.splits if_splits)
  have nf: "no_faults ?w1" using assms(1) by (simp add: file_usable_def)
  obtain w2 v where "readRecord J fps ?p ?w1 =
      (Inr (read_back J (aes_gcm key) (files ?w1 ?p) (clock ?w1 (Suc (tick ?w1)))), w2)"
    and w2: "wrote ?p v ?w1 w2"
    by (rule readRecord_wrote [OF nf, of fps]) auto
  with q have rd: "readRecord J fps ?p ?w1 = (Inr (Some q), w2)" by (simp add: read_back_def)
  define w3 where "w3 = snd (os_Remove ?p w2)"
  have w3: "wrote ?p None w w3"
    unfolding w3_def using wrote_no_faults [OF w2] nf wrote_trans [OF wrote_trans [OF wrote_tick w2] Remove_wrote] by blast
  have "FilePendingStore_WaitForResult pause J fps k t w = Some (Inr r, w3)"
    using rd q(2) unfolding FilePendingStore_WaitForResult_def time_Now_def w3_def
    by (simp add: file_wait_loop.simps)
  then show ?thesis
    using assms(1,2) paths_not_temp(3) done_upd [OF w3] wrote_facts(3,4) [OF w3] by (auto simp: held_def)
qed

end

sublocale file_backend \<subseteq> store: provider_stores "file_token_store J fts" "file_pending_store pause J fps"
  file_usable "file_lookup J fts" "\<lambda>v. json_image J v \<noteq> None" "file_trepr J" tkeys "world_but tpaths"
  "file_entries J fps" "file_signal J fps" "\<lambda>w. clock w (Suc (tick w))" "\<lambda>w. clock w (tick w)"
  unix_expiry unix_expired pstore_ok "file_prepr J" "\<lambda>_ _ _. True" file_lasting pkeys "world_but ppaths"
proof (unfold_locales, goal_cases)
  case (1 w k x w')
  then show ?case using file_get_law [OF 1(1,2), of x w'] by (simp add: file_token_store_def)
next
  case (2 w k v e w')
  then show ?case using file_set_law [OF 2(1-3), of e w'] by (simp add: file_token_store_def cong: if_cong)
next
  case (3 w k e w')
  then show ?case using file_delete_law [OF 3(1,2), of e w'] by (simp add: file_token_store_def cong: if_cong)
next
  case (4 w k m ttl e w')
  then show ?case using file_create_law [OF 4(1-3), of ttl e w'] by (simp add: file_pending_store_def)
next
  case (5 w k x w')
  then show ?case using file_pget_law [OF 5(1,2), of x w'] by (simp add: file_pending_store_def)
next
  case (6 w k x w')
  then show ?case using file_pop_law [OF 6(1,2), of x w'] by (simp add: file_pending_store_def)
next
  case (7 w k r ttl)
  then show ?case using file_set_result_law [of w k r ttl] by (simp add: file_pending_store_def)
next
  case (8 w k t r)
  then show ?case using file_wait_law [of w k r t] by (simp add: file_pending_store_def)
next
  case (9 w w' k)
  then show ?case using world_but_files [OF 9(1)] token_pending [of "FileTokenStore_path fts k"]
    by (simp add: file_lookup_def)
next
  case (10 w w' k)
  have "metaPath fps k \<notin> tpaths" using token_pending [of "metaPath fps k"] by auto
  then show ?case using world_but_files [OF 10(1), of "metaPath fps k"] by (simp add: file_entries_def)
next
  case (11 w w' k)
  have "donePath fps k \<notin> tpaths" using token_pending [of "donePath fps k"] by auto
  then show ?case using world_but_files [OF 11(1), of "donePath fps k"] world_but_clock [OF 11(1)]
    by (simp add: file_signal_def cong: option.case_cong)
qed (auto simp: file_lookup_def file_entries_def file_signal_def file_lasting_def dest: world_but_clock
    cong: option.case_cong)

context file_backend
begin

lemmas file_provider_stores = store.provider_stores_axioms

lemma file_ops_refine:
  fixes w :: "'a os_world_scheme"
  assumes "file_usable w" and "\<forall>op \<in> set ops. token_op_ok (\<lambda>v. json_image J v \<noteq> None) tkeys op"
    and "\<forall>k \<in> tkeys. m k = file_lookup J fts w k"
  shows "run_ops (run_token_op (file_token_store J fts)) ops w = run_ops (spec_token_op (file_trepr J)) ops m"
  by (rule store.ops_refine [OF assms])

end

subsection \<open>The directories of the factory\<close>

lemma plain_tokens: "plain_name ''tokens''" and plain_pending: "plain_name ''pending''"
  by (simp_all add: plain_name_def)

lemma factory_dirs_differ:
  assumes "base \<noteq> []"
  shows "filepath_Clean (filepath_Join base ''tokens'') \<noteq> filepath_Clean (filepath_Join base ''pending'')"
  using Join_inj [OF plain_tokens plain_pending assms assms]
  by (auto simp: Clean_Join plain_tokens plain_pending assms)

text \<open>
  The backend with the directories \<^verbatim>\<open>CreateStores\<close> gives it, for every base directory, every key of 32 bytes,
  every subject and every state: one subject and one state cannot collide with themselves.
\<close>

interpretation file_one: file_backend J "map b [0..<32]" "filepath_Join (c # base) ''tokens''"
  "filepath_Join (c # base) ''pending''" "{sub}" "{st}" pause
  for J :: file_codec and b :: "nat \<Rightarrow> char" and c :: char and base sub st :: string
    and pause :: "duration \<Rightarrow> 'a os_world_scheme \<Rightarrow> go_error option \<times> 'a os_world_scheme"
  by unfold_locales
    (simp_all add: Join_nonempty plain_tokens plain_pending factory_dirs_differ)

end
