(* ===== verification/Store_Redis_Contract.thy ===== *)
theory Store_Redis_Contract
  imports Store_Redis Store_File_Contract
begin

text \<open>
  The Redis backend keeps the contracts of \<open>Store\<close> over any server that behaves as documented.
  Locale \<open>redis_server\<close> states that behaviour: keys hold a value and possibly an expiry, an expired
  key reads as absent and is dropped on access, \<^verbatim>\<open>SET\<close> replaces value and expiry, and a transaction
  of \<^verbatim>\<open>GET\<close> and \<^verbatim>\<open>DEL\<close> is one step. It is interpreted on a reference server. Locale \<open>redis_backend\<close>
  puts the stores on top and is a sublocale of \<open>provider_stores\<close>.
\<close>

subsection \<open>The server\<close>

definition redis_expired :: "(go_time \<Rightarrow> int \<Rightarrow> bool) \<Rightarrow> go_time \<Rightarrow> int option \<Rightarrow> bool" where
  "redis_expired dead t e = (case e of None \<Rightarrow> False | Some x \<Rightarrow> dead t x)"

text \<open>The expiry of a \<^verbatim>\<open>SET\<close>: none unless the duration is positive.\<close>

definition redis_expiry :: "(go_time \<Rightarrow> duration \<Rightarrow> int) \<Rightarrow> go_time \<Rightarrow> duration \<Rightarrow> int option" where
  "redis_expiry due t d = (if 0 <s d then Some (due t d) else None)"

definition visible :: "(go_time \<Rightarrow> int \<Rightarrow> bool) \<Rightarrow> go_time \<Rightarrow> (string \<times> int option) option \<Rightarrow> string option" where
  "visible dead t x = (case x of None \<Rightarrow> None | Some (d, e) \<Rightarrow> if redis_expired dead t e then None else Some d)"

definition swept :: "(go_time \<Rightarrow> int \<Rightarrow> bool) \<Rightarrow> go_time \<Rightarrow> (string \<times> int option) option \<Rightarrow> (string \<times> int option) option" where
  "swept dead t x = (case x of None \<Rightarrow> None | Some (d, e) \<Rightarrow> if redis_expired dead t e then None else Some (d, e))"

definition reply :: "string option \<Rightarrow> go_error + string" where
  "reply x = (case x of None \<Rightarrow> Inl ErrRedisNil | Some d \<Rightarrow> Inr d)"

text \<open>One key was written; the clock and the fault stream of the host are as before.\<close>

definition rwrote ::
  "('a host_scheme \<Rightarrow> string \<Rightarrow> (string \<times> int option) option) \<Rightarrow> string \<Rightarrow> (string \<times> int option) option
     \<Rightarrow> 'a host_scheme \<Rightarrow> 'a host_scheme \<Rightarrow> bool" where
  "rwrote db k v w w' \<longleftrightarrow> db w' = (db w)(k := v) \<and> clock w' = clock w \<and> faults w' = faults w"

locale redis_server =
  fixes client :: "'a host_scheme redis_client"
    and db :: "'a host_scheme \<Rightarrow> string \<Rightarrow> (string \<times> int option) option"
    and up :: "'a host_scheme \<Rightarrow> bool"
    and snow :: "'a host_scheme \<Rightarrow> go_time"
    and due :: "go_time \<Rightarrow> duration \<Rightarrow> int"
    and dead :: "go_time \<Rightarrow> int \<Rightarrow> bool"
  assumes server_get: "up w \<Longrightarrow> rc_Get client k w = (x, w') \<Longrightarrow>
      x = reply (visible dead (snow w) (db w k)) \<and> up w' \<and> rwrote db k (swept dead (snow w) (db w k)) w w'"
    and server_set: "up w \<Longrightarrow> rc_Set client k d t w = (e, w') \<Longrightarrow>
      e = None \<and> up w' \<and> rwrote db k (Some (d, redis_expiry due (snow w) t)) w w'"
    and server_del: "up w \<Longrightarrow> rc_Del client k w = (e, w') \<Longrightarrow> e = None \<and> up w' \<and> rwrote db k None w w'"
    and server_exists: "up w \<Longrightarrow> rc_Exists client k w = (c, w') \<Longrightarrow>
      c = Inr (of_bool (visible dead (snow w) (db w k) \<noteq> None)) \<and> up w' \<and>
      rwrote db k (swept dead (snow w) (db w k)) w w'"
    and server_getdel: "up w \<Longrightarrow> rc_Exec client [CmdGet k, CmdDel k] w = ((e, rs), w') \<Longrightarrow>
      (e = None \<or> e = Some ErrRedisNil) \<and> rs 0 = reply (visible dead (snow w) (db w k)) \<and> up w' \<and>
      rwrote db k None w w'"
    and server_tick: "up (w\<lparr>tick := n\<rparr>) = up w" "db (w\<lparr>tick := n\<rparr>) = db w"
    and server_clock: "\<exists>n. snow w = clock w n"
begin

lemma atomicPop_eq:
  assumes "up w" and "rp_client s = client" and "atomicPop J s k w = (x, w')"
  shows "x = Inr (case visible dead (snow w) (db w k) of
      None \<Rightarrow> None | Some d \<Rightarrow> (case Decrypt J (rp_cipher s) d of Inl _ \<Rightarrow> None | Inr v \<Rightarrow> v)) \<and>
    up w' \<and> rwrote db k None w w'"
proof -
  obtain e rs w1 where x: "rc_Exec client [CmdGet k, CmdDel k] w = ((e, rs), w1)"
    by (metis prod.collapse)
  from server_getdel [OF assms(1) x] x assms(2,3) show ?thesis
    by (auto simp: atomicPop_def reply_def split: option.splits sum.splits)
qed

end

subsection \<open>A reference server\<close>

text \<open>
  Every call reads the clock once. As in Redis, a key is expired when the clock is past its expiry.
\<close>

record redis_world = host +
  rdb :: "string \<Rightarrow> (string \<times> int option) option"

definition ref_now :: "redis_world \<Rightarrow> go_time" where
  "ref_now w = clock w (tick w)"

definition ref_dead :: "go_time \<Rightarrow> int \<Rightarrow> bool" where
  "ref_dead t e \<longleftrightarrow> e < t"

definition ref_put :: "string \<Rightarrow> (string \<times> int option) option \<Rightarrow> redis_world \<Rightarrow> redis_world" where
  "ref_put k v w = w\<lparr>tick := Suc (tick w), rdb := (rdb w)(k := v)\<rparr>"

definition ref_client :: "redis_world redis_client" where
  "ref_client =
     \<lparr>rc_Get = (\<lambda>k w. (reply (visible ref_dead (ref_now w) (rdb w k)), ref_put k (swept ref_dead (ref_now w) (rdb w k)) w)),
      rc_Set = (\<lambda>k d t w. (None, ref_put k (Some (d, redis_expiry time_Add (ref_now w) t)) w)),
      rc_Del = (\<lambda>k w. (None, ref_put k None w)),
      rc_Exists = (\<lambda>k w. (Inr (of_bool (visible ref_dead (ref_now w) (rdb w k) \<noteq> None)),
        ref_put k (swept ref_dead (ref_now w) (rdb w k)) w)),
      rc_Exec = (\<lambda>cmds w. case cmds of
          CmdGet k # _ \<Rightarrow> ((None, \<lambda>i. if i = 0 then reply (visible ref_dead (ref_now w) (rdb w k)) else Inr ''1''), ref_put k None w)
        | _ \<Rightarrow> ((Some (ErrExt ''unsupported''), \<lambda>_. Inl (ErrExt ''unsupported'')), w))\<rparr>"

interpretation ref: redis_server ref_client rdb "\<lambda>_. True" ref_now time_Add ref_dead
  by unfold_locales (auto simp: ref_client_def ref_put_def rwrote_def ref_now_def)

subsection \<open>The backend\<close>

text \<open>A stored value in the clear, and the content of a token store in the database.\<close>

definition decrypted :: "'j json_codec_scheme \<Rightarrow> Cipher \<Rightarrow> string \<Rightarrow> gomap option option" where
  "decrypted J c d = (case Decrypt J c d of Inl _ \<Rightarrow> None | Inr v \<Rightarrow> Some v)"

definition redis_content :: "'j json_codec_scheme \<Rightarrow> Cipher \<Rightarrow> string
     \<Rightarrow> (string \<Rightarrow> (string \<times> int option) option) \<Rightarrow> string \<Rightarrow> gomap option" where
  "redis_content J c prefix m k =
     (case m (redisTokenKey prefix k) of
        None \<Rightarrow> None | Some (d, e) \<Rightarrow> (case decrypted J c d of None \<Rightarrow> None | Some v \<Rightarrow> v))"

locale redis_backend = redis_server client db up snow due dead
  for client :: "'a host_scheme redis_client"
    and db :: "'a host_scheme \<Rightarrow> string \<Rightarrow> (string \<times> int option) option"
    and up :: "'a host_scheme \<Rightarrow> bool"
    and snow :: "'a host_scheme \<Rightarrow> go_time"
    and due :: "go_time \<Rightarrow> duration \<Rightarrow> int"
    and dead :: "go_time \<Rightarrow> int \<Rightarrow> bool" +
  fixes J :: json_codec
    and key :: string
    and tprefix :: string
    and pprefix :: string
    and tkeys :: "string set"
    and pkeys :: "string set"
    and pause :: "duration \<Rightarrow> 'a host_scheme \<Rightarrow> go_error option \<times> 'a host_scheme"
  assumes key32: "length key = 32"
    and tkeys_inj: "inj_on safeName tkeys"
    and pkeys_inj: "inj_on safeName pkeys"
begin

abbreviation rts :: "'a host_scheme RedisTokenStore" where
  "rts \<equiv> \<lparr>rt_client = client, rt_prefix = tprefix, rt_cipher = aes_gcm key\<rparr>"

abbreviation rps :: "'a host_scheme RedisPendingStore" where
  "rps \<equiv> \<lparr>rp_client = client, rp_prefix = pprefix, rp_cipher = aes_gcm key\<rparr>"

abbreviation tkey :: "string \<Rightarrow> string" where "tkey \<equiv> redisTokenKey tprefix"
abbreviation pkey :: "string \<Rightarrow> string" where "pkey \<equiv> redisPendingKey pprefix"
abbreviation dkey :: "string \<Rightarrow> string" where "dkey \<equiv> redisDoneKey pprefix"

abbreviation opened :: "string \<Rightarrow> gomap option option" where
  "opened \<equiv> decrypted J (aes_gcm key)"

definition redis_usable :: "'a host_scheme \<Rightarrow> bool" where
  "redis_usable w \<longleftrightarrow> up w \<and> no_faults w \<and> (\<forall>k d e. db w (tkey k) = Some (d, e) \<longrightarrow> e = None)"

abbreviation redis_lookup :: "'a host_scheme \<Rightarrow> string \<Rightarrow> gomap option" where
  "redis_lookup w \<equiv> redis_content J (aes_gcm key) tprefix (db w)"

definition entry_of :: "(string \<times> int option) option \<Rightarrow> (gomap option \<times> int option) option" where
  "entry_of x = (case x of None \<Rightarrow> None | Some (d, e) \<Rightarrow> map_option (\<lambda>m. (m, e)) (opened d))"

definition redis_entries :: "'a host_scheme \<Rightarrow> string \<Rightarrow> (gomap option \<times> int option) option" where
  "redis_entries w k = entry_of (db w (pkey k))"

definition redis_signal :: "'a host_scheme \<Rightarrow> string \<Rightarrow> gomap option option" where
  "redis_signal w k = (case entry_of (db w (dkey k)) of
     None \<Rightarrow> None | Some (m, e) \<Rightarrow> if \<exists>n. redis_expired dead (clock w n) e then None else Some m)"

definition redis_lasting :: "'a host_scheme \<Rightarrow> int64 \<Rightarrow> bool" where
  "redis_lasting w ttl \<longleftrightarrow>
     (\<forall>i j. \<not> redis_expired dead (clock w i) (redis_expiry due (clock w j) (result_ttl ttl * Second)))"

text \<open>The database but for a set of keys, with the clock.\<close>

definition db_but :: "string set \<Rightarrow> 'a host_scheme \<Rightarrow> (nat \<Rightarrow> go_time) \<times> (string \<Rightarrow> (string \<times> int option) option)" where
  "db_but P w = (clock w, \<lambda>k. if k \<in> P then None else db w k)"

abbreviation tdb :: "string set" where "tdb \<equiv> range tkey"
abbreviation pdb :: "string set" where "pdb \<equiv> range pkey \<union> range dkey"

lemma key_eqs [simp]:
  "k \<in> tkeys \<Longrightarrow> k' \<in> tkeys \<Longrightarrow> tkey k = tkey k' \<longleftrightarrow> k = k'"
  "k \<in> pkeys \<Longrightarrow> k' \<in> pkeys \<Longrightarrow> pkey k = pkey k' \<longleftrightarrow> k = k'"
  "k \<in> pkeys \<Longrightarrow> k' \<in> pkeys \<Longrightarrow> dkey k = dkey k' \<longleftrightarrow> k = k'"
  "tkey x \<noteq> pkey y" "tkey x \<noteq> dkey y" "pkey x \<noteq> dkey y" "pkey x \<noteq> tkey y" "dkey x \<noteq> tkey y" "dkey x \<noteq> pkey y"
  using tkeys_inj pkeys_inj kinds_differ kinds_differ [symmetric]
  by (auto simp: token_key_eq pending_key_eq done_key_eq dest: inj_onD)

lemma db_but_wrote: "rwrote db k v w w' \<Longrightarrow> k \<in> P \<Longrightarrow> db_but P w' = db_but P w"
  by (auto simp: rwrote_def db_but_def fun_eq_iff)

lemma db_but_db: "db_but P w = db_but P w' \<Longrightarrow> k \<notin> P \<Longrightarrow> db w k = db w' k"
  by (drule arg_cong [of _ _ "\<lambda>x. snd x k"]) (simp add: db_but_def)

lemma db_but_clock: "db_but P w = db_but P w' \<Longrightarrow> clock w = clock w'"
  by (simp add: db_but_def)

lemma usable_wrote:
  assumes "redis_usable w" and "rwrote db k v w w'" and "up w'" and "k \<in> tdb \<Longrightarrow> \<forall>d e. v = Some (d, e) \<longrightarrow> e = None"
  shows "redis_usable w'"
  using assms by (auto simp: redis_usable_def rwrote_def no_faults_def)

lemma seal:
  assumes "json_image J v = Some v'" and "redis_usable w"
  obtains ct where "Encrypt J (aes_gcm key) v w = (Inr ct, w\<lparr>tick := Suc (Suc (tick w))\<rparr>)" and "opened ct = Some v'"
  using Encrypt_image [OF key32 assms(1), of w] assms(2) that by (auto simp: redis_usable_def decrypted_def)

lemma token_upd:
  assumes "rwrote db (tkey k) v w w'" and "k \<in> tkeys" and "k' \<in> tkeys"
  shows "redis_lookup w' k' = (if k' = k then (case v of None \<Rightarrow> None | Some (d, e) \<Rightarrow> (case opened d of None \<Rightarrow> None | Some x \<Rightarrow> x))
     else redis_lookup w k')"
  using assms by (auto simp: rwrote_def redis_content_def)

lemma pending_upd:
  assumes "rwrote db (pkey k) v w w'" and "k \<in> pkeys" and "k' \<in> pkeys"
  shows "redis_entries w' k' = (if k' = k then entry_of v else redis_entries w k')"
    and "redis_signal w' k' = redis_signal w k'"
  using assms by (auto simp: rwrote_def redis_entries_def redis_signal_def cong: option.case_cong)

lemma done_upd:
  assumes "rwrote db (dkey k) v w w'" and "k \<in> pkeys" and "k' \<in> pkeys"
  shows "redis_entries w' k' = redis_entries w k'"
    and "redis_signal w' k' = (if k' = k then (case entry_of v of
          None \<Rightarrow> None | Some (m, e) \<Rightarrow> if \<exists>n. redis_expired dead (clock w n) e then None else Some m)
       else redis_signal w k')"
  using assms by (auto simp: rwrote_def redis_entries_def redis_signal_def cong: option.case_cong)

lemma redis_get_law:
  assumes "redis_usable w" and "k \<in> tkeys" and "RedisTokenStore_Get J rts k w = (x, w')"
  shows "x = Inr (redis_lookup w k) \<and> redis_usable w' \<and> db_but tdb w' = db_but tdb w \<and>
    (\<forall>k' \<in> tkeys. redis_lookup w' k' = redis_lookup w k')"
proof -
  have u: "up w" using assms(1) by (simp add: redis_usable_def)
  obtain y w1 where g: "rc_Get client (tkey k) w = (y, w1)" by (cases "rc_Get client (tkey k) w")
  have sw: "swept dead (snow w) (db w (tkey k)) = db w (tkey k)"
    and vis: "visible dead (snow w) (db w (tkey k)) = map_option fst (db w (tkey k))"
    using assms(1) by (auto simp: redis_usable_def swept_def visible_def redis_expired_def split: option.splits)
  from server_get [OF u g] have y: "y = reply (map_option fst (db w (tkey k)))" and u1: "up w1"
    and w1: "rwrote db (tkey k) (db w (tkey k)) w w1" unfolding sw vis by auto
  have t: "tkey k \<in> tdb" by simp
  have us1: "redis_usable w1"
    by (rule usable_wrote [OF assms(1) w1 u1]) (use assms(1) in \<open>auto simp: redis_usable_def\<close>)
  show ?thesis
  proof (cases "\<exists>d e. db w (tkey k) = Some (d, e) \<and> opened d = None")
    case True
    then obtain d e where d: "db w (tkey k) = Some (d, e)" "opened d = None" by blast
    then obtain z where z: "Decrypt J (aes_gcm key) d = Inl z"
      by (cases "Decrypt J (aes_gcm key) d") (auto simp: decrypted_def)
    obtain e' w2 where dl: "rc_Del client (tkey k) w1 = (e', w2)" by (cases "rc_Del client (tkey k) w1")
    from server_del [OF u1 dl] have u2: "up w2" and w2: "rwrote db (tkey k) None w1 w2" by auto
    have "x = Inr None" "w' = w2" using assms(3) g y d(1) z dl by (auto simp: RedisTokenStore_Get_def reply_def)
    then show ?thesis
      using d usable_wrote [OF us1 w2 u2] db_but_wrote [OF w1 t] db_but_wrote [OF w2 t] token_upd [OF w1 assms(2)]
        token_upd [OF w2 assms(2)] assms(2)
      by (auto simp: redis_content_def)
  next
    case False
    then have "x = Inr (redis_lookup w k)" "w' = w1"
      using assms(3) g y
      by (auto simp: RedisTokenStore_Get_def reply_def redis_content_def decrypted_def split: option.splits sum.splits prod.splits)
    then show ?thesis
      using us1 db_but_wrote [OF w1 t] token_upd [OF w1 assms(2)] by (auto simp: redis_content_def)
  qed
qed

lemma redis_set_law:
  assumes "redis_usable w" and "k \<in> tkeys" and "json_image J v \<noteq> None" and "RedisTokenStore_Set J rts k v w = (e, w')"
  shows "e = None \<and> redis_usable w' \<and> db_but tdb w' = db_but tdb w \<and>
    (\<forall>k' \<in> tkeys. redis_lookup w' k' = (if k' = k then file_trepr J v else redis_lookup w k'))"
proof -
  obtain v' where v': "json_image J v = Some v'" using assms(3) by blast
  let ?w1 = "w\<lparr>tick := Suc (Suc (tick w))\<rparr>"
  obtain ct where ct: "Encrypt J (aes_gcm key) v w = (Inr ct, ?w1)" "opened ct = Some v'"
    by (rule seal [OF v' assms(1)])
  have u: "up ?w1" using assms(1) by (simp add: redis_usable_def server_tick)
  have "rc_Set client (tkey k) ct 0 ?w1 = (e, w')" using assms(4) ct(1) by (simp add: RedisTokenStore_Set_def)
  from server_set [OF u this] have e: "e = None" and u': "up w'"
    and w': "rwrote db (tkey k) (Some (ct, None)) w w'" by (auto simp: redis_expiry_def rwrote_def server_tick)
  show ?thesis
    using e usable_wrote [OF assms(1) w' u'] db_but_wrote [OF w'] token_upd [OF w' assms(2)] ct(2) v'
    by (simp add: file_trepr_def)
qed

lemma redis_delete_law:
  assumes "redis_usable w" and "k \<in> tkeys" and "RedisTokenStore_Delete rts k w = (e, w')"
  shows "e = None \<and> redis_usable w' \<and> db_but tdb w' = db_but tdb w \<and>
    (\<forall>k' \<in> tkeys. redis_lookup w' k' = (if k' = k then None else redis_lookup w k'))"
proof -
  have u: "up w" using assms(1) by (simp add: redis_usable_def)
  have "rc_Del client (tkey k) w = (e, w')" using assms(3) by (simp add: RedisTokenStore_Delete_def)
  from server_del [OF u this] have e: "e = None" and u': "up w'" and w': "rwrote db (tkey k) None w w'" by auto
  show ?thesis using e usable_wrote [OF assms(1) w' u'] db_but_wrote [OF w'] token_upd [OF w' assms(2)] by simp
qed

text \<open>Writing a sealed value under one of the two kinds of pending keys.\<close>

lemma put_sealed:
  assumes "redis_usable w" and "json_image J m \<noteq> None" and "k \<in> pdb"
    and "(case Encrypt J (aes_gcm key) m w of (Inl e, w1) \<Rightarrow> (Some e, w1) | (Inr d, w1) \<Rightarrow> rc_Set client k d t w1) = (e, w')"
  obtains v where "e = None" and "redis_usable w'" and "rwrote db k v w w'"
    and "entry_of v = Some (file_trepr J m, redis_expiry due (snow (w\<lparr>tick := Suc (Suc (tick w))\<rparr>)) t)"
proof -
  obtain m' where m': "json_image J m = Some m'" using assms(2) by blast
  let ?w1 = "w\<lparr>tick := Suc (Suc (tick w))\<rparr>"
  obtain ct where ct: "Encrypt J (aes_gcm key) m w = (Inr ct, ?w1)" "opened ct = Some m'"
    by (rule seal [OF m' assms(1)])
  have u: "up ?w1" using assms(1) by (simp add: redis_usable_def server_tick)
  have "rc_Set client k ct t ?w1 = (e, w')" using assms(4) ct(1) by simp
  from server_set [OF u this] have e: "e = None" and u': "up w'"
    and w': "rwrote db k (Some (ct, redis_expiry due (snow ?w1) t)) w w'" by (auto simp: rwrote_def server_tick)
  have n: "k \<notin> tdb" using assms(3) by auto
  show thesis
    using e usable_wrote [OF assms(1) w' u'] n w' ct(2) m'
    by (intro that [of "Some (ct, redis_expiry due (snow ?w1) t)"]) (auto simp: entry_of_def file_trepr_def)
qed

lemma redis_create_law:
  assumes "redis_usable w" and "k \<in> pkeys" and "json_image J m \<noteq> None" and "RedisPendingStore_Create J rps k m ttl w = (e, w')"
  shows "e = None \<and> redis_usable w' \<and> db_but pdb w' = db_but pdb w \<and>
    (\<forall>k' \<in> pkeys. redis_signal w' k' = redis_signal w k') \<and>
    (\<forall>k' \<in> pkeys. redis_entries w' k' = (if k' = k
       then Some (file_trepr J m, redis_expiry due (snow (w\<lparr>tick := Suc (Suc (tick w))\<rparr>)) (ttl * Second))
       else redis_entries w k'))"
proof -
  have m: "pkey k \<in> pdb" by simp
  obtain v where e: "e = None" and u: "redis_usable w'" and w': "rwrote db (pkey k) v w w'"
    and v: "entry_of v = Some (file_trepr J m, redis_expiry due (snow (w\<lparr>tick := Suc (Suc (tick w))\<rparr>)) (ttl * Second))"
    by (rule put_sealed [OF assms(1,3) m assms(4) [unfolded RedisPendingStore_Create_def RedisPendingStore.select_convs]])
  show ?thesis using e u v db_but_wrote [OF w' m] pending_upd [OF w' assms(2)] by simp
qed

lemma redis_set_result_law:
  assumes "redis_usable w" and "k \<in> pkeys" and "json_image J r \<noteq> None" and "redis_lasting w ttl"
  shows "\<exists>w'. RedisPendingStore_SetResult J rps k r ttl w = (None, w') \<and>
    redis_usable w' \<and> db_but pdb w' = db_but pdb w \<and>
    (\<forall>k' \<in> pkeys. redis_entries w' k' = redis_entries w k') \<and>
    (\<forall>k' \<in> pkeys. redis_signal w' k' = (if k' = k then Some (file_trepr J r) else redis_signal w k'))"
proof -
  have m: "dkey k \<in> pdb" by simp
  let ?w1 = "w\<lparr>tick := Suc (Suc (tick w))\<rparr>"
  obtain e w' where s: "RedisPendingStore_SetResult J rps k r ttl w = (e, w')"
    by (cases "RedisPendingStore_SetResult J rps k r ttl w")
  obtain v where e: "e = None" and u: "redis_usable w'" and w': "rwrote db (dkey k) v w w'"
    and v: "entry_of v = Some (file_trepr J r, redis_expiry due (snow ?w1) (result_ttl ttl * Second))"
    by (rule put_sealed [OF assms(1,3) m s [unfolded RedisPendingStore_SetResult_def RedisPendingStore.select_convs]])
  obtain n where n: "snow ?w1 = clock w n" using server_clock [of ?w1] by auto
  have "\<not> redis_expired dead (clock w i) (redis_expiry due (snow ?w1) (result_ttl ttl * Second))" for i
    using assms(4) unfolding n by (simp add: redis_lasting_def)
  then show ?thesis using s e u v db_but_wrote [OF w' m] done_upd [OF w' assms(2)] by auto
qed

text \<open>What reading a pending key at a time gives.\<close>

definition seen :: "go_time \<Rightarrow> (string \<times> int option) option \<Rightarrow> gomap option" where
  "seen t x = (case entry_of x of None \<Rightarrow> None | Some (m, e) \<Rightarrow> if redis_expired dead t e then None else m)"

lemma seen_visible: "seen t x = (case visible dead t x of
    None \<Rightarrow> None | Some d \<Rightarrow> (case Decrypt J (aes_gcm key) d of Inl _ \<Rightarrow> None | Inr v \<Rightarrow> v))"
  by (auto simp: seen_def visible_def entry_of_def decrypted_def split: option.splits sum.splits if_splits)

lemma redis_pget_law:
  assumes "redis_usable w" and "k \<in> pkeys" and "RedisPendingStore_Get J rps k w = (x, w')"
  shows "x = Inr (seen (snow w) (db w (pkey k))) \<and>
    redis_usable w' \<and> db_but pdb w' = db_but pdb w \<and>
    (\<forall>k' \<in> pkeys. redis_signal w' k' = redis_signal w k') \<and>
    (\<forall>k' \<in> pkeys. redis_entries w' k' = (case redis_entries w k' of
        Some (m, t) \<Rightarrow> if k' = k \<and> redis_expired dead (snow w) t then None else Some (m, t) | None \<Rightarrow> None))"
proof -
  have u: "up w" using assms(1) by (simp add: redis_usable_def)
  have m: "pkey k \<in> pdb" by simp
  obtain y w1 where g: "rc_Get client (pkey k) w = (y, w1)" by (cases "rc_Get client (pkey k) w")
  from server_get [OF u g] have y: "y = reply (visible dead (snow w) (db w (pkey k)))" and u1: "up w1"
    and w1: "rwrote db (pkey k) (swept dead (snow w) (db w (pkey k))) w w1" by auto
  have "\<exists>v. x = Inr (seen (snow w) (db w (pkey k))) \<and> up w' \<and> rwrote db (pkey k) v w w' \<and>
      entry_of v = entry_of (swept dead (snow w) (db w (pkey k)))"
  proof (cases "\<exists>d z. visible dead (snow w) (db w (pkey k)) = Some d \<and> Decrypt J (aes_gcm key) d = Inl z")
    case True
    then obtain d z where d: "visible dead (snow w) (db w (pkey k)) = Some d" "Decrypt J (aes_gcm key) d = Inl z" by blast
    obtain e' w2 where dl: "rc_Del client (pkey k) w1 = (e', w2)" by (cases "rc_Del client (pkey k) w1")
    from server_del [OF u1 dl] have u2: "up w2" and w2: "rwrote db (pkey k) None w w2" using w1 by (auto simp: rwrote_def)
    have "x = Inr None" "w' = w2"
      using assms(3) g y d dl by (auto simp: RedisPendingStore_Get_def getAndDecrypt_def reply_def)
    moreover have "entry_of None = entry_of (swept dead (snow w) (db w (pkey k)))"
      using d by (auto simp: entry_of_def swept_def visible_def decrypted_def split: option.splits if_splits)
    ultimately show ?thesis using d u2 w2 by (auto simp: seen_visible)
  next
    case False
    then have "x = Inr (seen (snow w) (db w (pkey k)))" "w' = w1"
      using assms(3) g y unfolding seen_visible
      by (auto simp: RedisPendingStore_Get_def getAndDecrypt_def reply_def split: option.splits sum.splits)
    then show ?thesis using u1 w1 by blast
  qed
  then obtain v where x: "x = Inr (seen (snow w) (db w (pkey k)))" and u': "up w'" and w': "rwrote db (pkey k) v w w'"
    and v: "entry_of v = entry_of (swept dead (snow w) (db w (pkey k)))" by blast
  have "redis_usable w'" by (rule usable_wrote [OF assms(1) w' u']) auto
  moreover have "redis_entries w' k' = (case redis_entries w k' of
        Some (m, t) \<Rightarrow> if k' = k \<and> redis_expired dead (snow w) t then None else Some (m, t) | None \<Rightarrow> None)"
    if "k' \<in> pkeys" for k'
    unfolding pending_upd(1) [OF w' assms(2) that] v
    by (auto simp: redis_entries_def entry_of_def swept_def split: option.splits if_splits)
  ultimately show ?thesis using x db_but_wrote [OF w' m] pending_upd(2) [OF w' assms(2)] by blast
qed

lemma redis_pop_law:
  assumes "redis_usable w" and "k \<in> pkeys" and "RedisPendingStore_Pop J rps k w = (x, w')"
  shows "x = Inr (seen (snow w) (db w (pkey k))) \<and>
    redis_usable w' \<and> db_but pdb w' = db_but pdb w \<and>
    (\<forall>k' \<in> pkeys. redis_signal w' k' = redis_signal w k') \<and>
    (\<forall>k' \<in> pkeys. redis_entries w' k' = (if k' = k then None else redis_entries w k'))"
proof -
  have u: "up w" using assms(1) by (simp add: redis_usable_def)
  have "atomicPop J rps (pkey k) w = (x, w')" using assms(3) by (simp add: RedisPendingStore_Pop_def)
  from atomicPop_eq [OF u _ this] have x: "x = Inr (seen (snow w) (db w (pkey k)))" and u': "up w'"
    and w': "rwrote db (pkey k) None w w'" by (auto simp: seen_visible cong: option.case_cong)
  have "redis_usable w'" by (rule usable_wrote [OF assms(1) w' u']) auto
  then show ?thesis using x db_but_wrote [OF w'] pending_upd [OF w' assms(2)] by (simp add: entry_of_def)
qed

lemma redis_wait_law:
  assumes "redis_usable w" and "k \<in> pkeys" and "redis_signal w k = Some r"
  shows "\<exists>w'. RedisPendingStore_WaitForResult pause J rps k t w = Some (Inr r, w') \<and>
    redis_usable w' \<and> db_but pdb w' = db_but pdb w \<and>
    (\<forall>k' \<in> pkeys. redis_entries w' k' = redis_entries w k') \<and>
    (\<forall>k' \<in> pkeys. redis_signal w' k' = (if k' = k then None else redis_signal w k'))"
proof -
  let ?w1 = "w\<lparr>tick := Suc (tick w)\<rparr>"
  obtain d e where d: "db w (dkey k) = Some (d, e)" "opened d = Some r" "\<And>n. \<not> redis_expired dead (clock w n) e"
    using assms(3) by (auto simp: redis_signal_def entry_of_def split: option.splits if_splits)
  have u1: "up ?w1" using assms(1) by (simp add: redis_usable_def server_tick)
  have alive: "\<not> redis_expired dead (snow w') e" if "clock w' = clock w" for w'
    using server_clock [of w'] d(3) that by auto
  obtain y w2 where ex: "rc_Exists client (dkey k) ?w1 = (y, w2)" by (cases "rc_Exists client (dkey k) ?w1")
  from server_exists [OF u1 ex] d(1) alive [of ?w1] have y: "y = Inr 1" and u2: "up w2"
    and w2: "rwrote db (dkey k) (Some (d, e)) ?w1 w2" by (auto simp: visible_def swept_def server_tick)
  have db2: "db w2 (dkey k) = Some (d, e)" "clock w2 = clock w" using w2 by (auto simp: rwrote_def)
  obtain x w3 where pop: "atomicPop J rps (dkey k) w2 = (x, w3)" by (cases "atomicPop J rps (dkey k) w2")
  from atomicPop_eq [OF u2 _ pop] db2 alive [of w2] have x: "x = Inr r" and u3: "up w3" and w3: "rwrote db (dkey k) None w w3"
    using d(2) w2 by (auto simp: visible_def rwrote_def server_tick decrypted_def split: sum.splits)
  have "redis_usable w3" by (rule usable_wrote [OF assms(1) w3 u3]) auto
  moreover have "RedisPendingStore_WaitForResult pause J rps k t w = Some (Inr r, w3)"
    using ex y pop x
    by (simp add: RedisPendingStore_WaitForResult_def time_Now_def redis_wait_loop.simps word_sless_alt)
  ultimately show ?thesis using db_but_wrote [OF w3] done_upd [OF w3 assms(2)] by (auto simp: entry_of_def)
qed

end

sublocale redis_backend \<subseteq> store: provider_stores "redis_token_store J rts" "redis_pending_store pause J rps"
  redis_usable redis_lookup "\<lambda>v. json_image J v \<noteq> None" "file_trepr J" tkeys "db_but tdb"
  redis_entries redis_signal snow "\<lambda>w. snow (w\<lparr>tick := Suc (Suc (tick w))\<rparr>)"
  "\<lambda>t ttl. redis_expiry due t (ttl * Second)" "redis_expired dead" "\<lambda>v. json_image J v \<noteq> None" "file_trepr J"
  "\<lambda>_ _ _. True" redis_lasting pkeys "db_but pdb"
proof (unfold_locales, goal_cases)
  case (1 w k x w')
  then show ?case using redis_get_law [OF 1(1,2), of x w'] by (simp add: redis_token_store_def)
next
  case (2 w k v e w')
  then show ?case using redis_set_law [OF 2(1-3), of e w'] by (simp add: redis_token_store_def cong: if_cong)
next
  case (3 w k e w')
  then show ?case using redis_delete_law [OF 3(1,2), of e w'] by (simp add: redis_token_store_def cong: if_cong)
next
  case (4 w k m ttl e w')
  then show ?case using redis_create_law [OF 4(1-3), of ttl e w'] by (simp add: redis_pending_store_def)
next
  case (5 w k x w')
  then show ?case using redis_pget_law [OF 5(1,2), of x w']
    by (simp add: redis_pending_store_def seen_def redis_entries_def)
next
  case (6 w k x w')
  then show ?case using redis_pop_law [OF 6(1,2), of x w']
    by (simp add: redis_pending_store_def seen_def redis_entries_def)
next
  case (7 w k r ttl)
  then show ?case using redis_set_result_law [of w k r ttl] by (simp add: redis_pending_store_def)
next
  case (8 w k t r)
  then show ?case using redis_wait_law [of w k r t] by (simp add: redis_pending_store_def)
next
  case (9 w w' k)
  have "tkey k \<notin> pdb" by auto
  then show ?case using db_but_db [OF 9(1), of "tkey k"] by (simp add: redis_content_def)
next
  case (10 w w' k)
  have "pkey k \<notin> tdb" by auto
  then show ?case using db_but_db [OF 10(1), of "pkey k"] by (simp add: redis_entries_def)
next
  case (11 w w' k)
  have "dkey k \<notin> tdb" by auto
  then show ?case using db_but_db [OF 11(1), of "dkey k"] db_but_clock [OF 11(1)]
    by (simp add: redis_signal_def split: option.split)
next
  case (18 w)
  show ?case using server_clock [of "w\<lparr>tick := Suc (Suc (tick w))\<rparr>"] by simp
qed (use server_clock in \<open>auto simp: redis_usable_def redis_content_def redis_entries_def redis_signal_def server_tick
    redis_lasting_def dest: db_but_clock split: option.splits\<close>)

context redis_backend
begin

lemma redis_ops_refine:
  assumes "redis_usable w" and "\<forall>op \<in> set ops. token_op_ok (\<lambda>v. json_image J v \<noteq> None) tkeys op"
    and "\<forall>k \<in> tkeys. m k = redis_lookup w k"
  shows "run_ops (run_token_op (redis_token_store J rts)) ops w = run_ops (spec_token_op (file_trepr J)) ops m"
  by (rule store.ops_refine [OF assms])

end

interpretation redis_one: redis_backend ref_client rdb "\<lambda>_. True" ref_now time_Add ref_dead J "map b [0..<32]"
  tprefix pprefix "{sub}" "{st}" pause
  for J :: json_codec and b :: "nat \<Rightarrow> char" and tprefix pprefix sub st :: string
    and pause :: "duration \<Rightarrow> redis_world \<Rightarrow> go_error option \<times> redis_world"
  by unfold_locales simp_all

end
