(* ===== verification/Store_File_Properties.thy ===== *)
theory Store_File_Properties
  imports Store_File_Contract
begin

text \<open>
  Properties of the file backend: refinement of a map by the token store, containment of its files
  in its directory, self-healing, and that waiting ends when time passes.
\<close>

subsection \<open>Where the files are\<close>

text \<open>
  C29: no key escapes the store's directory. Whatever bytes a subject or state consists of, path
  separators and dots included, its files lie directly in the directory of the store.
\<close>

theorem paths_contained:
  assumes "ft_dir s \<noteq> []" and "fp_dir q \<noteq> []"
  shows "filepath_Dir (FileTokenStore_path s key) = filepath_Clean (ft_dir s) \<and>
    filepath_Dir (metaPath q key) = filepath_Clean (fp_dir q) \<and>
    filepath_Dir (donePath q key) = filepath_Clean (fp_dir q)"
  using assms enc_plain [of key] by (simp add: FileTokenStore_path_def metaPath_def donePath_def Dir_Join)

theorem paths_contained_witness:
  "filepath_Dir (FileTokenStore_path \<lparr>ft_dir = ''/data/tokens'', ft_cipher = aes_gcm []\<rparr> ''../../etc/passwd'') =
     filepath_Clean ''/data/tokens''"
  using paths_contained [of "\<lparr>ft_dir = ''/data/tokens'', ft_cipher = aes_gcm []\<rparr>" "\<lparr>fp_dir = ''p'', fp_cipher = aes_gcm []\<rparr>"
      "''../../etc/passwd''"] by simp

subsection \<open>Self-healing\<close>

text \<open>
  A token file that cannot be decrypted reads as absent and is removed: the call reports no
  error, and no other file changes.
\<close>

theorem undecryptable_token_removed:
  assumes "no_faults w" and "files w (FileTokenStore_path s sub) = Some d"
    and "Decrypt J (ft_cipher s) d = Inl e"
  shows "FileTokenStore_Get J s sub w =
    (Inr None, w\<lparr>tick := Suc (Suc (tick w)), files := (files w)(FileTokenStore_path s sub := None)\<rparr>)"
  using assms by (simp add: FileTokenStore_Get_def ReadFile_ok Remove_ok)

definition file_demo_world :: "string \<Rightarrow> string option \<Rightarrow> os_world" where
  "file_demo_world p v = \<lparr>clock = (\<lambda>n. int n * 1000000000), entropy = (\<lambda>_ _. CHR ''a''), faults = (\<lambda>_. None),
     f2i_oob = (\<lambda>_. 0), tick = 0, environ = (\<lambda>_. []), files = (\<lambda>_. None)(p := v), dirs = {}, stderr_log = []\<rparr>"

definition file_demo_tokens :: FileTokenStore where
  "file_demo_tokens = \<lparr>ft_dir = ''/data/tokens'', ft_cipher = aes_gcm (replicate 32 (CHR ''k''))\<rparr>"

theorem undecryptable_token_removed_witness:
  "\<exists>w'. FileTokenStore_Get demo_codec file_demo_tokens ''u''
     (file_demo_world (FileTokenStore_path file_demo_tokens ''u'') (Some ''short'')) = (Inr None, w') \<and>
   files w' (FileTokenStore_path file_demo_tokens ''u'') = None"
proof -
  let ?w = "file_demo_world (FileTokenStore_path file_demo_tokens ''u'') (Some ''short'')"
  have "no_faults ?w" "files ?w (FileTokenStore_path file_demo_tokens ''u'') = Some ''short''"
    by (simp_all add: file_demo_world_def no_faults_def)
  moreover have "Decrypt demo_codec (ft_cipher file_demo_tokens) ''short'' = Inl (Errorf ''store: ciphertext too short'' [])"
    by (simp add: Decrypt_def file_demo_tokens_def aes_gcm_def)
  ultimately show ?thesis using undecryptable_token_removed by fastforce
qed

subsection \<open>Refinement of a map\<close>

lemma other_dir: "\<exists>q. q \<noteq> [] \<and> filepath_Clean d \<noteq> filepath_Clean q"
proof -
  have "filepath_Clean ''a'' = ''a''" "filepath_Clean ''b'' = ''b''"
    by (simp_all add: filepath_Clean_def clean_stack_def clean_step_def is_rooted_def render_path_def)
  then have "filepath_Clean d \<noteq> filepath_Clean ''a'' \<or> filepath_Clean d \<noteq> filepath_Clean ''b''" by auto
  then show ?thesis by blast
qed

lemma file_tokens_refine:
  fixes J :: file_codec
  assumes "NewCipher key = Inr (ft_cipher s)" and "ft_dir s \<noteq> []" and "inj_on safeName keys"
    and "file_usable w" and "\<forall>op \<in> set ops. token_op_ok (\<lambda>v. json_image J v \<noteq> None) keys op"
    and "\<forall>k \<in> keys. m k = file_lookup J s w k"
  shows "run_ops (run_token_op (file_token_store J s)) ops w = run_ops (spec_token_op (file_trepr J)) ops m"
proof -
  have k: "length key = 32" "s = \<lparr>ft_dir = ft_dir s, ft_cipher = aes_gcm key\<rparr>"
    using assms(1) by (auto simp: NewCipher_def split: if_splits)
  obtain q where q: "q \<noteq> []" "filepath_Clean (ft_dir s) \<noteq> filepath_Clean q" using other_dir by blast
  have b: "file_backend key (ft_dir s) q keys {}"
    using k(1) assms(2,3) q by unfold_locales simp_all
  from file_backend.file_ops_refine [OF b assms(4,5), of m] assms(6) show ?thesis using k(2) by simp
qed


text \<open>
  A codec for the witnesses: of a map it keeps one string entry, under the first of the known keys
  the map has; an expiry is written as its 64 bits.
\<close>

definition demo_tags :: "(string \<times> char) list" where
  "demo_tags = [(''access_token'', CHR ''a''), (''record'', CHR ''r''), (''sub'', CHR ''s'')]"

definition tag_encode :: "gomap option \<Rightarrow> go_error + string" where
  "tag_encode v = (case find (\<lambda>(k, _). gomap_get v k \<noteq> ANil) demo_tags of
     None \<Rightarrow> Inl (ErrExt ''unsupported'')
   | Some (k, t) \<Rightarrow> Inr (t # any_string (gomap_get v k)))"

definition tag_decode :: "string \<Rightarrow> go_error + gomap option" where
  "tag_decode s = (case s of
     [] \<Rightarrow> Inl (ErrExt ''unexpected end of JSON input'')
   | c # x \<Rightarrow> (case find (\<lambda>(_, t). t = c) demo_tags of
       None \<Rightarrow> Inl (ErrExt ''invalid character'') | Some (k, _) \<Rightarrow> Inr (Some [k \<mapsto> AStr x])))"

definition demo_file_codec :: file_codec where
  "demo_file_codec =
     \<lparr>json_Marshal = tag_encode, json_Unmarshal = tag_decode,
      rec_Marshal = (\<lambda>r. case tag_encode (RMetadata r) of
        Inl e \<Rightarrow> Inl e
      | Inr s \<Rightarrow> Inr (map (\<lambda>i. if bit (RExpires r) i then CHR ''1'' else CHR ''0'') [0..<64] @ s)),
      rec_Unmarshal = (\<lambda>s. case tag_decode (drop 64 s) of
        Inl e \<Rightarrow> Inl e
      | Inr m \<Rightarrow> Inr \<lparr>RMetadata = m, RExpires = horner_sum of_bool 2 (map (\<lambda>c. c = CHR ''1'') (take 64 s))\<rparr>)\<rparr>"

lemmas demo_codec_simps = json_image_def demo_file_codec_def tag_encode_def tag_decode_def demo_tags_def
  gomap_get_def any_string_def

lemma demo_token_image: "json_image demo_file_codec (Some [''access_token'' \<mapsto> AStr s]) = Some (Some [''access_token'' \<mapsto> AStr s])"
  by (simp add: demo_codec_simps)

lemma demo_record_ok:
  assumes "gomap_get m ''access_token'' = ANil" and "gomap_get m ''record'' = ANil" and "gomap_get m ''sub'' = AStr s"
  shows "record_ok demo_file_codec m (Some [''sub'' \<mapsto> AStr s])"
proof -
  have b: "horner_sum of_bool 2 (map (\<lambda>x. (if bit t x then CHR ''1'' else CHR ''0'') = CHR ''1'') [0..<64]) = t" for t :: int64
  proof -
    have "map (\<lambda>x. (if bit t x then CHR ''1'' else CHR ''0'') = CHR ''1'') [0..<64] = map (bit t) [0..<64]"
      by simp
    then show ?thesis using horner_sum_bit_eq_take_bit [of t 64] by (simp add: take_bit_length_eq [of t, simplified])
  qed
  show ?thesis using assms unfolding record_ok_def record_image_def
    by (simp add: json_image_def demo_file_codec_def tag_encode_def tag_decode_def demo_tags_def gomap_get_def [of "Some _"]
        any_string_def b comp_def)
qed


subsection \<open>Waiting ends\<close>

lemma os_clock:
  "os_ReadFile p w = (x, w') \<Longrightarrow> clock w' = clock w \<and> tick w' = Suc (tick w)"
  "clock (snd (os_Remove p w)) = clock w \<and> tick (snd (os_Remove p w)) = Suc (tick w)"
  by (auto simp: os_ReadFile_def os_Remove_def io_call_def split: option.splits)

lemma readRecord_clock:
  assumes "readRecord J s p w = (x, w')"
  shows "clock w' = clock w \<and> tick w < tick w'"
proof -
  obtain y w1 where r: "os_ReadFile p w = (y, w1)" by (cases "os_ReadFile p w")
  note os_clock(1) [OF r]
  with assms r os_clock(2) [of p w1] os_clock(2) [of p "w1\<lparr>tick := Suc (tick w1)\<rparr>"] show ?thesis
    by (auto simp: readRecord_def time_Now_def split: sum.splits if_splits)
qed

lemma file_wait_loop_returns:
  assumes "\<And>d w. clock (snd (pause d w)) = clock w \<and> tick w \<le> tick (snd (pause d w))"
    and "\<And>n. N \<le> n \<Longrightarrow> deadline < clock w n"
  shows "\<exists>y. file_wait_loop pause J s path deadline w = Some y"
  using assms(2)
proof (induction "N - tick w" arbitrary: w rule: less_induct)
  case less
  obtain x w1 where r: "readRecord J s path w = (x, w1)" by (cases "readRecord J s path w")
  note c = readRecord_clock [OF r]
  let ?w2 = "w1\<lparr>tick := Suc (tick w1)\<rparr>"
  obtain e w3 where p: "pause filePollInterval ?w2 = (e, w3)" by (cases "pause filePollInterval ?w2")
  have w3: "clock w3 = clock w" "tick w < tick w3"
    using assms(1) [of filePollInterval ?w2] p c by auto
  show ?case
  proof (cases "N \<le> tick w1")
    case True
    then have "time_After (clock w1 (tick w1)) deadline" using less.prems c by (simp add: time_After_def)
    then show ?thesis using r
      by (subst file_wait_loop.simps) (auto simp: time_Now_def split: sum.splits option.splits)
  next
    case False
    then have "N - tick w3 < N - tick w" using w3(2) c by linarith
    from less.hyps [OF this] less.prems w3(1) have "\<exists>y. file_wait_loop pause J s path deadline w3 = Some y" by simp
    then show ?thesis using r p
      by (subst file_wait_loop.simps) (auto simp: time_Now_def split: sum.splits option.splits)
  qed
qed

text \<open>
  C21: waiting on the file backend ends. If the clock eventually stays past every instant and sleeping
  neither turns it back nor changes its readings, \<^verbatim>\<open>WaitForResult\<close> returns, whatever other processes do
  to the files during the sleeps and whatever system calls fail.
\<close>

theorem file_wait_returns:
  assumes "\<And>d w. clock (snd (pause d w)) = clock w \<and> tick w \<le> tick (snd (pause d w))"
    and "\<And>t. \<exists>N. \<forall>n \<ge> N. t < clock w n"
  shows "\<exists>y. FilePendingStore_WaitForResult pause J s key timeout w = Some y"
proof -
  let ?w1 = "w\<lparr>tick := Suc (tick w)\<rparr>"
  let ?d = "time_Add (clock w (tick w)) (f64_to_int64 (f2i_oob w) (f64_scale timeout 1000000000))"
  obtain N where "\<And>n. N \<le> n \<Longrightarrow> ?d < clock ?w1 n" using assms(2) [of ?d] by auto
  from file_wait_loop_returns [where pause = pause and w = ?w1, OF assms(1) this] show ?thesis
    by (simp add: FilePendingStore_WaitForResult_def time_Now_def)
qed

theorem file_wait_returns_witness:
  "\<exists>y. FilePendingStore_WaitForResult (\<lambda>_ w. (None, w)) demo_file_codec \<lparr>fp_dir = ''/p'', fp_cipher = aes_gcm []\<rparr>
     ''s'' (Fin 120) (file_demo_world [] None) = Some y"
proof (rule file_wait_returns)
  show "\<exists>N. \<forall>n \<ge> N. t < clock (file_demo_world [] None) n" for t
  proof (intro exI allI impI)
    fix n assume "nat \<bar>t\<bar> + 1 \<le> n"
    then show "t < clock (file_demo_world [] None) n" by (simp add: file_demo_world_def)
  qed
qed simp

end
