(* ===== verification/Store_Redis_Properties.thy ===== *)
theory Store_Redis_Properties
  imports Store_Redis_Contract Store_File_Properties
begin

text \<open>
  Properties of the Redis backend over any server that behaves as documented: refinement of a map,
  single consumption of a pending entry, expiry of results, termination of the polling wait, and the
  separation of namespaces on both persistent backends. The witnesses run on the reference server.
\<close>

definition redis_demo_world :: "(string \<Rightarrow> (string \<times> int option) option) \<Rightarrow> redis_world" where
  "redis_demo_world m = \<lparr>clock = (\<lambda>n. int n * 1000000000), entropy = (\<lambda>_ _. CHR ''a''), faults = (\<lambda>_. None),
     f2i_oob = (\<lambda>_. 0), tick = 0, rdb = m\<rparr>"

definition redis_demo_tokens :: "redis_world RedisTokenStore" where
  "redis_demo_tokens = NewRedisTokenStore ref_client [] ''demo'' (aes_gcm (replicate 32 (CHR ''k'')))"

definition redis_demo_pending :: "redis_world RedisPendingStore" where
  "redis_demo_pending = NewRedisPendingStore ref_client [] (aes_gcm (replicate 32 (CHR ''k'')))"

text \<open>The codec of \<open>Store_File_Properties\<close> without its records.\<close>

definition demo_json :: json_codec where
  "demo_json = \<lparr>json_Marshal = tag_encode, json_Unmarshal = tag_decode\<rparr>"

lemma demo_json_image: "json_image demo_json (Some [''access_token'' \<mapsto> AStr s]) = Some (Some [''access_token'' \<mapsto> AStr s])"
  by (simp add: demo_json_def demo_codec_simps)

subsection \<open>Refinement of a map\<close>

lemma redis_tokens_refine:
  fixes J :: json_codec
  assumes "redis_server (rt_client s) db up snow due dead" and "NewCipher key = Inr (rt_cipher s)"
    and "inj_on safeName keys" and "up w" and "no_faults w"
    and "\<forall>k d e. db w (redisTokenKey (rt_prefix s) k) = Some (d, e) \<longrightarrow> e = None"
    and "\<forall>op \<in> set ops. token_op_ok (\<lambda>v. json_image J v \<noteq> None) keys op"
    and "\<forall>k \<in> keys. m k = redis_content J (rt_cipher s) (rt_prefix s) (db w) k"
  shows "run_ops (run_token_op (redis_token_store J s)) ops w = run_ops (spec_token_op (file_trepr J)) ops m"
proof -
  have k: "length key = 32" "s = \<lparr>rt_client = rt_client s, rt_prefix = rt_prefix s, rt_cipher = aes_gcm key\<rparr>"
    and c: "rt_cipher s = aes_gcm key"
    using assms(2) by (auto simp: NewCipher_def split: if_splits)
  have b: "redis_backend (rt_client s) db up snow due dead key keys {}"
    using assms(1,3) k(1) by (simp add: redis_backend_def redis_backend_axioms_def)
  have "redis_backend.redis_usable db up (rt_prefix s) w"
    using assms(4-6) by (simp add: redis_backend.redis_usable_def [OF b])
  from redis_backend.redis_ops_refine [OF b this assms(7), of m] assms(8) c show ?thesis
    using k(2) by metis
qed



subsection \<open>Single consumption\<close>

text \<open>
  C23: a pending entry is popped once. After any \<^verbatim>\<open>Pop\<close> of a key, whatever happens on the server to other
  keys meanwhile, the next \<^verbatim>\<open>Pop\<close> of that key by any client finds nothing.
\<close>

theorem redis_pop_once:
  assumes "redis_server (rp_client s) db up snow due dead" and "up w" and "RedisPendingStore_Pop J s key w = (x, w1)"
    and "up w2" and "db w2 (redisPendingKey (rp_prefix s) key) = db w1 (redisPendingKey (rp_prefix s) key)"
    and "RedisPendingStore_Pop J s key w2 = (y, w3)"
  shows "y = Inr None"
proof -
  note pop = redis_server.atomicPop_eq [OF assms(1) _ refl]
  have "rwrote db (redisPendingKey (rp_prefix s) key) None w w1"
    using pop [OF assms(2), of J _ x w1] assms(3) by (auto simp: RedisPendingStore_Pop_def)
  then have "db w2 (redisPendingKey (rp_prefix s) key) = None" using assms(5) by (simp add: rwrote_def)
  with pop [OF assms(4), of J "redisPendingKey (rp_prefix s) key" y w3] assms(6) show ?thesis
    by (simp add: RedisPendingStore_Pop_def visible_def)
qed

theorem redis_pop_once_witness:
  "\<exists>x w1 w3. RedisPendingStore_Pop demo_json redis_demo_pending ''s'' (redis_demo_world
       [redisPendingKey (rp_prefix redis_demo_pending) ''s'' \<mapsto> (''d'', None)]) = (x, w1) \<and>
     RedisPendingStore_Pop demo_json redis_demo_pending ''s'' w1 = (Inr None, w3)"
proof -
  let ?w = "redis_demo_world [redisPendingKey (rp_prefix redis_demo_pending) ''s'' \<mapsto> (''d'', None)]"
  have s: "redis_server (rp_client redis_demo_pending) rdb (\<lambda>_. True) ref_now time_Add ref_dead"
    using ref.redis_server_axioms by (simp add: redis_demo_pending_def NewRedisPendingStore_def)
  obtain x w1 where a: "RedisPendingStore_Pop demo_json redis_demo_pending ''s'' ?w = (x, w1)" by fastforce
  obtain y w3 where b: "RedisPendingStore_Pop demo_json redis_demo_pending ''s'' w1 = (y, w3)" by fastforce
  from redis_pop_once [OF s _ a _ refl b] a b show ?thesis by auto
qed

subsection \<open>Expiry\<close>

lemma seconds_product:
  assumes "- 9223372036 \<le> sint ttl" and "sint ttl \<le> 9223372036"
  shows "sint (ttl * Second) = sint ttl * 1000000000"
proof -
  have "ttl * Second = word_of_int (sint ttl * 1000000000)" by (simp add: Second_def wi_hom_mult [symmetric])
  then show ?thesis using assms sint_word_of_int64 [of "sint ttl * 1000000000"] by simp
qed

lemma result_ttl_seconds:
  assumes "sint ttl \<le> 9223372036"
  shows "sint (result_ttl ttl * Second) = (if sint ttl \<le> 0 then 120 else sint ttl) * 1000000000"
proof (cases "sint ttl \<le> 0")
  case True
  then have "result_ttl ttl = 120" by (simp add: result_ttl_def word_sle_eq)
  then show ?thesis using True seconds_product [of 120] by simp
next
  case False
  then have "result_ttl ttl = ttl" by (simp add: result_ttl_def word_sle_eq)
  then show ?thesis using False assms seconds_product [of ttl] by simp
qed

text \<open>
  C24: every result has an expiry. For any time to live up to the largest number of seconds a duration
  holds (about 292 years), zero and negative ones included, a successful \<^verbatim>\<open>SetResult\<close> leaves the result
  under a key that expires: after that many seconds, or after 120 seconds when none were asked for.
\<close>

theorem redis_result_expires:
  assumes "redis_server (rp_client s) db up snow due dead" and "up w" and "sint ttl \<le> 9223372036"
    and "RedisPendingStore_SetResult J s key r ttl w = (None, w')"
  shows "\<exists>d t dur. db w' (redisDoneKey (rp_prefix s) key) = Some (d, Some (due t dur)) \<and>
    sint dur = (if sint ttl \<le> 0 then 120 else sint ttl) * 1000000000"
proof -
  obtain ct w1 where e: "Encrypt J (rp_cipher s) r w = (Inr ct, w1)"
    and st: "rc_Set (rp_client s) (redisDoneKey (rp_prefix s) key) ct (result_ttl ttl * Second) w1 = (None, w')"
    using assms(4) by (auto simp: RedisPendingStore_SetResult_def split: prod.splits sum.splits)
  have "up w1" using e assms(2) redis_server.server_tick(1) [OF assms(1)]
    by (auto simp: Encrypt_def io_call_def rand_Read_def split: sum.splits option.splits)
  from redis_server.server_set [OF assms(1) this st]
  have "db w' (redisDoneKey (rp_prefix s) key) = Some (ct, redis_expiry due (snow w1) (result_ttl ttl * Second))"
    by (simp add: rwrote_def)
  moreover have "0 <s result_ttl ttl * Second" using result_ttl_seconds [OF assms(3)] by (simp add: word_sless_alt)
  ultimately have "db w' (redisDoneKey (rp_prefix s) key) = Some (ct, Some (due (snow w1) (result_ttl ttl * Second)))"
    by (simp add: redis_expiry_def)
  then show ?thesis using result_ttl_seconds [OF assms(3)] by blast
qed

theorem redis_result_expires_witness:
  "\<exists>w' d t dur. RedisPendingStore_SetResult demo_json redis_demo_pending ''s'' (Some [''sub'' \<mapsto> AStr ''u'']) 0
       (redis_demo_world Map.empty) = (None, w') \<and>
     rdb w' (redisDoneKey (rp_prefix redis_demo_pending) ''s'') = Some (d, Some (time_Add t dur)) \<and> sint dur = 120000000000"
proof -
  have s: "redis_server (rp_client redis_demo_pending) rdb (\<lambda>_. True) ref_now time_Add ref_dead"
    using ref.redis_server_axioms by (simp add: redis_demo_pending_def NewRedisPendingStore_def)
  have "\<exists>w'. RedisPendingStore_SetResult demo_json redis_demo_pending ''s'' (Some [''sub'' \<mapsto> AStr ''u'']) 0
       (redis_demo_world Map.empty) = (None, w')"
    by (simp add: RedisPendingStore_SetResult_def redis_demo_pending_def NewRedisPendingStore_def ref_client_def
        Encrypt_def io_call_def rand_Read_def demo_json_def tag_encode_def demo_tags_def gomap_get_def redis_demo_world_def)
  then obtain w' where r: "RedisPendingStore_SetResult demo_json redis_demo_pending ''s'' (Some [''sub'' \<mapsto> AStr ''u'']) 0
       (redis_demo_world Map.empty) = (None, w')" by blast
  from redis_result_expires [OF s _ _ r] r show ?thesis by simp
qed

text \<open>
  A pending entry created with no time to live never expires. \<^verbatim>\<open>Create\<close> hands the product to the
  client as it is, and a \<^verbatim>\<open>SET\<close> with a duration of zero or less carries no expiry, while the in-process
  and the file store let such an entry expire at once.
\<close>

theorem redis_create_without_ttl:
  assumes "redis_server (rp_client s) db up snow due dead" and "up w"
    and "- 9223372036 \<le> sint ttl" and "sint ttl \<le> 0" and "RedisPendingStore_Create J s key m ttl w = (None, w')"
  shows "\<exists>d. db w' (redisPendingKey (rp_prefix s) key) = Some (d, None)"
proof -
  obtain ct w1 where e: "Encrypt J (rp_cipher s) m w = (Inr ct, w1)"
    and st: "rc_Set (rp_client s) (redisPendingKey (rp_prefix s) key) ct (ttl * Second) w1 = (None, w')"
    using assms(5) by (auto simp: RedisPendingStore_Create_def split: prod.splits sum.splits)
  have "up w1" using e assms(2) redis_server.server_tick(1) [OF assms(1)]
    by (auto simp: Encrypt_def io_call_def rand_Read_def split: sum.splits option.splits)
  from redis_server.server_set [OF assms(1) this st]
  have "db w' (redisPendingKey (rp_prefix s) key) = Some (ct, redis_expiry due (snow w1) (ttl * Second))"
    by (simp add: rwrote_def)
  then show ?thesis using seconds_product [of ttl] assms(3,4) by (simp add: redis_expiry_def word_sless_alt)
qed

theorem redis_create_without_ttl_witness:
  "\<exists>w' d. RedisPendingStore_Create demo_json redis_demo_pending ''s'' (Some [''sub'' \<mapsto> AStr ''u'']) 0
       (redis_demo_world Map.empty) = (None, w') \<and>
     rdb w' (redisPendingKey (rp_prefix redis_demo_pending) ''s'') = Some (d, None)"
proof -
  have s: "redis_server (rp_client redis_demo_pending) rdb (\<lambda>_. True) ref_now time_Add ref_dead"
    using ref.redis_server_axioms by (simp add: redis_demo_pending_def NewRedisPendingStore_def)
  have "\<exists>w'. RedisPendingStore_Create demo_json redis_demo_pending ''s'' (Some [''sub'' \<mapsto> AStr ''u'']) 0
       (redis_demo_world Map.empty) = (None, w')"
    by (simp add: RedisPendingStore_Create_def redis_demo_pending_def NewRedisPendingStore_def ref_client_def
        Encrypt_def io_call_def rand_Read_def demo_json_def tag_encode_def demo_tags_def gomap_get_def redis_demo_world_def)
  then obtain w' where r: "RedisPendingStore_Create demo_json redis_demo_pending ''s'' (Some [''sub'' \<mapsto> AStr ''u'']) 0
       (redis_demo_world Map.empty) = (None, w')" by blast
  from redis_create_without_ttl [OF s _ _ _ r] r show ?thesis by simp
qed

subsection \<open>Waiting ends\<close>

lemma redis_wait_loop_returns:
  assumes "\<And>d w. clock (snd (pause d w)) = clock w \<and> tick w \<le> tick (snd (pause d w))"
    and "\<And>k w. clock (snd (rc_Exists (rp_client s) k w)) = clock w \<and> tick w \<le> tick (snd (rc_Exists (rp_client s) k w))"
    and "\<And>n. N \<le> n \<Longrightarrow> deadline < clock w n"
  shows "\<exists>y. redis_wait_loop pause J s key deadline w = Some y"
  using assms(3)
proof (induction "N - tick w" arbitrary: w rule: less_induct)
  case less
  obtain x w1 where r: "rc_Exists (rp_client s) key w = (x, w1)" by (cases "rc_Exists (rp_client s) key w")
  have c: "clock w1 = clock w" "tick w \<le> tick w1" using assms(2) [of key w] r by auto
  let ?w2 = "w1\<lparr>tick := Suc (tick w1)\<rparr>"
  obtain e w3 where p: "pause filePollInterval ?w2 = (e, w3)" by (cases "pause filePollInterval ?w2")
  have w3: "clock w3 = clock w" "tick w < tick w3"
    using assms(1) [of filePollInterval ?w2] p c by auto
  show ?case
  proof (cases "N \<le> tick w1")
    case True
    then have "time_After (clock w1 (tick w1)) deadline" using less.prems c by (simp add: time_After_def)
    then show ?thesis using r by (subst redis_wait_loop.simps) (auto simp: time_Now_def)
  next
    case False
    then have "N - tick w3 < N - tick w" using w3(2) c by linarith
    from less.hyps [OF this] less.prems w3(1) have "\<exists>y. redis_wait_loop pause J s key deadline w3 = Some y" by simp
    then show ?thesis using r p
      by (subst redis_wait_loop.simps) (auto simp: time_Now_def split: option.splits)
  qed
qed

text \<open>
  C22: waiting on the Redis backend ends. If the clock eventually stays past every instant and neither
  sleeping nor an \<^verbatim>\<open>EXISTS\<close> call turns it back, \<^verbatim>\<open>WaitForResult\<close> returns, whatever the server answers.
\<close>

theorem redis_wait_returns:
  assumes "\<And>d w. clock (snd (pause d w)) = clock w \<and> tick w \<le> tick (snd (pause d w))"
    and "\<And>k w. clock (snd (rc_Exists (rp_client s) k w)) = clock w \<and> tick w \<le> tick (snd (rc_Exists (rp_client s) k w))"
    and "\<And>t. \<exists>N. \<forall>n \<ge> N. t < clock w n"
  shows "\<exists>y. RedisPendingStore_WaitForResult pause J s key timeout w = Some y"
proof -
  let ?w1 = "w\<lparr>tick := Suc (tick w)\<rparr>"
  let ?d = "time_Add (clock w (tick w)) (f64_to_int64 (f2i_oob w) (f64_scale timeout 1000000000))"
  obtain N where "\<And>n. N \<le> n \<Longrightarrow> ?d < clock ?w1 n" using assms(3) [of ?d] by auto
  from redis_wait_loop_returns [where pause = pause and w = ?w1 and s = s, OF assms(1,2) this] show ?thesis
    by (simp add: RedisPendingStore_WaitForResult_def time_Now_def)
qed

theorem redis_wait_returns_witness:
  "\<exists>y. RedisPendingStore_WaitForResult (\<lambda>_ w. (None, w)) demo_json redis_demo_pending ''s'' (Fin 120)
     (redis_demo_world Map.empty) = Some y"
proof (rule redis_wait_returns)
  show "\<exists>N. \<forall>n \<ge> N. t < clock (redis_demo_world Map.empty) n" for t
  proof (intro exI allI impI)
    fix n assume "nat \<bar>t\<bar> + 1 \<le> n"
    then show "t < clock (redis_demo_world Map.empty) n" by (simp add: redis_demo_world_def)
  qed
qed (simp_all add: redis_demo_pending_def NewRedisPendingStore_def ref_client_def ref_put_def)

subsection \<open>Namespaces\<close>



end
