(* ===== verification/Backends.thy ===== *)
theory Backends
  imports Store_Memory_Contract Store_Redis_Properties
begin

text \<open>
  The three backends side by side: a program that only calls the token-store interface cannot tell
  them apart.
\<close>

lemma token_op_ok_mono: "token_op_ok P keys op \<Longrightarrow> (\<And>v. P v \<Longrightarrow> Q v) \<Longrightarrow> token_op_ok Q keys op"
  by (cases op) simp_all

definition fresh_memory :: memory_world where
  "fresh_memory = \<lparr>clock = (\<lambda>_. 0), entropy = (\<lambda>_ _. CHR ''a''), faults = (\<lambda>_. None), f2i_oob = (\<lambda>_. 0), tick = 0,
     w_tokens = NewMemoryTokenStore, w_pending = NewMemoryPendingStore, w_sessions = Map.empty\<rparr>"

text \<open>
  C13: the backends are interchangeable. From equal contents, any sequence of \<^verbatim>\<open>Get\<close>, \<^verbatim>\<open>Set\<close> and
  \<^verbatim>\<open>Delete\<close> calls with values that survive a JSON round trip returns the same results on the in-process
  store, on encrypted files and on a Redis server that behaves as documented.
\<close>

theorem token_backends_equivalent:
  fixes J :: file_codec and K :: json_codec
  assumes "mem_quiet (w_pending w)"
    and "NewCipher key = Inr (ft_cipher s)" and "ft_dir s \<noteq> []" and "file_usable wfs"
    and "redis_server (rt_client t) db up snow due dead" and "NewCipher key' = Inr (rt_cipher t)"
    and "up wrs" and "no_faults wrs"
    and "\<forall>k d e. db wrs (redisTokenKey (rt_prefix t) k) = Some (d, e) \<longrightarrow> e = None"
    and "inj_on safeName keys"
    and "\<forall>k \<in> keys. mem_lookup w k = file_lookup J s wfs k \<and>
       mem_lookup w k = redis_content K (rt_cipher t) (rt_prefix t) (db wrs) k"
    and "\<forall>op \<in> set ops. token_op_ok (\<lambda>v. json_image J v = Some v \<and> json_image K v = Some v) keys op"
  shows "run_ops (run_token_op (memory_token_store w_tokens wr_tokens)) ops w =
      run_ops (run_token_op (file_token_store J s)) ops wfs \<and>
    run_ops (run_token_op (memory_token_store w_tokens wr_tokens)) ops w =
      run_ops (run_token_op (redis_token_store K t)) ops wrs"
proof -
  have ok: "\<forall>op \<in> set ops. token_op_ok P keys op" if "\<And>v. json_image J v = Some v \<and> json_image K v = Some v \<Longrightarrow> P v" for P
    by (rule ballI, rule token_op_ok_mono [OF bspec [OF assms(12)]]) (simp_all add: that)
  have "run_ops (run_token_op (memory_token_store w_tokens wr_tokens)) ops w =
      run_ops (spec_token_op (\<lambda>v. v)) ops (mem_lookup w)"
    using mem_ts.ops_refine [OF assms(1), of ops "mem_lookup w"] ok [of "\<lambda>_. True"]
    by (simp add: token_op_ok_UNIV)
  moreover have "run_ops (run_token_op (file_token_store J s)) ops wfs = run_ops (spec_token_op (file_trepr J)) ops (mem_lookup w)"
    using assms(11) by (intro file_tokens_refine [OF assms(2,3,10,4)] ok) auto
  moreover have "run_ops (run_token_op (redis_token_store K t)) ops wrs = run_ops (spec_token_op (file_trepr K)) ops (mem_lookup w)"
    using assms(11) by (intro redis_tokens_refine [OF assms(5,6,10,7-9)] ok) auto
  moreover have "run_ops (spec_token_op (file_trepr J)) ops (mem_lookup w) = run_ops (spec_token_op (\<lambda>v. v)) ops (mem_lookup w)"
    by (rule spec_stable [OF ok]) (simp add: file_trepr_def)
  moreover have "run_ops (spec_token_op (file_trepr K)) ops (mem_lookup w) = run_ops (spec_token_op (\<lambda>v. v)) ops (mem_lookup w)"
    by (rule spec_stable [OF ok]) (simp add: file_trepr_def)
  ultimately show ?thesis by simp
qed

theorem token_backends_equivalent_witness:
  "\<forall>k. run_ops (run_token_op (memory_token_store w_tokens wr_tokens))
       [OpSet k (Some [''access_token'' \<mapsto> AStr ''t'']), OpGet k, OpDelete k, OpGet k] (fresh_memory) =
     run_ops (run_token_op (file_token_store demo_file_codec file_demo_tokens))
       [OpSet k (Some [''access_token'' \<mapsto> AStr ''t'']), OpGet k, OpDelete k, OpGet k] (file_demo_world [] None)"
proof
  fix k
  have s: "redis_server (rt_client redis_demo_tokens) rdb (\<lambda>_. True) ref_now time_Add ref_dead"
    using ref.redis_server_axioms by (simp add: redis_demo_tokens_def NewRedisTokenStore_def)
  have "run_ops (run_token_op (memory_token_store w_tokens wr_tokens))
       [OpSet k (Some [''access_token'' \<mapsto> AStr ''t'']), OpGet k, OpDelete k, OpGet k] fresh_memory =
     run_ops (run_token_op (file_token_store demo_file_codec file_demo_tokens))
       [OpSet k (Some [''access_token'' \<mapsto> AStr ''t'']), OpGet k, OpDelete k, OpGet k] (file_demo_world [] None) \<and>
     run_ops (run_token_op (memory_token_store w_tokens wr_tokens))
       [OpSet k (Some [''access_token'' \<mapsto> AStr ''t'']), OpGet k, OpDelete k, OpGet k] fresh_memory =
     run_ops (run_token_op (redis_token_store demo_json redis_demo_tokens))
       [OpSet k (Some [''access_token'' \<mapsto> AStr ''t'']), OpGet k, OpDelete k, OpGet k] (redis_demo_world Map.empty)"
  proof (rule token_backends_equivalent [where keys = "{k}", OF _ _ _ _ s])
    show "mem_quiet (w_pending fresh_memory)"
      by (auto simp: mem_quiet_def mem_inv_def NewMemoryPendingStore_def fresh_memory_def)
    show "NewCipher (replicate 32 (CHR ''k'')) = Inr (ft_cipher file_demo_tokens)"
      by (simp add: NewCipher_def file_demo_tokens_def)
    show "NewCipher (replicate 32 (CHR ''k'')) = Inr (rt_cipher redis_demo_tokens)"
      by (simp add: NewCipher_def redis_demo_tokens_def NewRedisTokenStore_def)
    show "file_usable (file_demo_world [] None)"
      by (simp add: file_usable_def no_faults_def no_temps_def file_demo_world_def)
    show "\<forall>k' \<in> {k}. mem_lookup fresh_memory k' = file_lookup demo_file_codec file_demo_tokens (file_demo_world [] None) k' \<and>
       mem_lookup fresh_memory k' = redis_content demo_json (rt_cipher redis_demo_tokens) (rt_prefix redis_demo_tokens)
         (rdb (redis_demo_world Map.empty)) k'"
      by (simp add: mem_lookup_def fresh_memory_def NewMemoryTokenStore_def file_lookup_def file_demo_world_def
          redis_content_def redis_demo_world_def)
  qed (simp_all add: file_demo_tokens_def demo_token_image demo_json_image redis_demo_world_def no_faults_def)
  then show "run_ops (run_token_op (memory_token_store w_tokens wr_tokens))
       [OpSet k (Some [''access_token'' \<mapsto> AStr ''t'']), OpGet k, OpDelete k, OpGet k] fresh_memory =
     run_ops (run_token_op (file_token_store demo_file_codec file_demo_tokens))
       [OpSet k (Some [''access_token'' \<mapsto> AStr ''t'']), OpGet k, OpDelete k, OpGet k] (file_demo_world [] None)"
    by (rule conjunct1)
qed

end
