(* ===== verification/Store_File_Flow.thy ===== *)
theory Store_File_Flow
  imports Demo Store_File_Properties
begin

text \<open>
  The blocking OAuth flow on the encrypted file backend, through the contracts of \<open>Store\<close>: every
  store call goes through AES-256-GCM and the model of the file system.
\<close>

lemma file_keeps:
  fixes w w' :: "'a os_world_scheme" and ts :: "'a os_world_scheme token_store"
  assumes "files w' = files w" and "clock w' = clock w" and "faults w' = faults w"
    and "provider_stores ts ps file_usable (file_lookup J s) tstorable trepr {sub} trest
       (file_entries J q) (file_signal J q) now stamp expiry expired pstorable prepr prompt lasting {st} prest"
  shows "provider_stores.keeps file_usable (file_lookup J s) {sub} (file_entries J q) (file_signal J q) {st} w w'"
  unfolding provider_stores.keeps_def [OF assms(4)] using assms(1-3)
  by (auto simp: file_usable_def no_faults_def no_temps_def file_lookup_def
      file_entries_def file_signal_def cong: option.case_cong)

subsection \<open>A world for the witness\<close>

record file_world = os_world +
  fw_sessions :: "string \<Rightarrow> nat option"

definition file_flow_world :: file_world where
  "file_flow_world = \<lparr>clock = (\<lambda>_. 0), entropy = (\<lambda>_ _. CHR ''a''), faults = (\<lambda>_. None), f2i_oob = (\<lambda>_. 0), tick = 0,
     environ = (\<lambda>_. []), files = Map.empty, dirs = {}, stderr_log = [], fw_sessions = Map.empty\<rparr>"

definition file_flow_tokens :: FileTokenStore where
  "file_flow_tokens = \<lparr>ft_dir = ''/data/tokens/demo'', ft_cipher = aes_gcm (replicate 32 (CHR ''k''))\<rparr>"

definition file_flow_pending :: FilePendingStore where
  "file_flow_pending = \<lparr>fp_dir = ''/data/pending'', fp_cipher = aes_gcm (replicate 32 (CHR ''k''))\<rparr>"

definition file_flow_oauth :: "file_world oauth_provider" where
  "file_flow_oauth =
     \<lparr>o_name = ''demo'', buildAuthURL = (\<lambda>state _. state),
      exchangeCode = (\<lambda>_ w. (Inr (Some [''access_token'' \<mapsto> AStr ''tok'']), w)), redirectURI = [],
      callbackPath = ''/callback'',
      tokenStore = file_token_store demo_file_codec file_flow_tokens,
      o_pendingStore = file_pending_store (\<lambda>_ w. (None, w)) demo_file_codec file_flow_pending,
      refreshTokenFn = None, o_tokenTimeout = 120 * Second,
      o_sess_rd = fw_sessions, o_sess_wr = (\<lambda>m w. w\<lparr>fw_sessions := m\<rparr>)\<rparr>"

definition file_flow_call :: "file_world CallToolRequest" where
  "file_flow_call = \<lparr>Session = \<lparr>sess_id = 0, Elicit = (\<lambda>prm w.
       map_option (\<lambda>(_, w'). (Inr ''accept'', w')) (HandleCallback file_flow_oauth (demo_redirect prm) w))\<rparr>,
     Arguments = []\<rparr>"

lemma never_expired: "0 \<le> sint (ttl * Second) \<Longrightarrow> \<not> unix_expired 0 (unix_expiry 0 ttl)"
  using time_Unix_sint [of 0] time_Unix_sint [of "sint (ttl * Second)"] sint_lt [of "ttl * Second"]
  by (simp add: unix_expired_def unix_expiry_def time_Add_def pos_imp_zdiv_nonneg_iff)

subsection \<open>The flow\<close>



end
