(* ===== verification/Url_Parse.thy ===== *)
theory Url_Parse
  imports Url
begin

text \<open>
  \<^verbatim>\<open>url.Parse\<close> of Go 1.25, as far as its error and the \<^verbatim>\<open>Path\<close> of its result go: the scheme, the
  authority with its user information, host and port, and the decoded path. The unparsed query and
  fragment only matter for the errors they cause.
\<close>

datatype url_mode = EncodePath | EncodeHost | EncodeZone | EncodeUser | EncodeFragment

definition is_alnum :: "char \<Rightarrow> bool" where
  "is_alnum c \<longleftrightarrow>
     (let n = of_char c :: nat in 97 \<le> n \<and> n \<le> 122 \<or> 65 \<le> n \<and> n \<le> 90 \<or> 48 \<le> n \<and> n \<le> 57)"

definition is_digit :: "char \<Rightarrow> bool" where
  "is_digit c \<longleftrightarrow> (let n = of_char c :: nat in 48 \<le> n \<and> n \<le> 57)"

definition is_letter :: "char \<Rightarrow> bool" where
  "is_letter c \<longleftrightarrow> is_alnum c \<and> \<not> is_digit c"

text \<open>\<^verbatim>\<open>shouldEscape(c, encodeHost)\<close>.\<close>

definition host_escapes :: "char \<Rightarrow> bool" where
  "host_escapes c \<longleftrightarrow> \<not> is_alnum c \<and> c \<notin> set ''!$&()*+,;=:[]<>-_.~'' \<and> c \<noteq> CHR 0x27 \<and> c \<noteq> CHR 0x22"

definition bad_escape :: "url_mode \<Rightarrow> nat \<Rightarrow> nat \<Rightarrow> bool" where
  "bad_escape mode x y \<longleftrightarrow>
     mode = EncodeHost \<and> x < 8 \<and> (x, y) \<noteq> (2, 5) \<or>
     mode = EncodeZone \<and> (x, y) \<noteq> (2, 5) \<and> char_of (16 * x + y) \<noteq> CHR '' '' \<and> host_escapes (char_of (16 * x + y))"

text \<open>\<open>None\<close> is an escape or host error.\<close>

fun url_unescape :: "url_mode \<Rightarrow> string \<Rightarrow> string option" where
  "url_unescape mode [] = Some []"
| "url_unescape mode (c # cs) =
     (if c = CHR ''%''
      then (case cs of
              a # b # r \<Rightarrow>
                (case (unhex a, unhex b) of
                   (Some x, Some y) \<Rightarrow>
                     if bad_escape mode x y then None
                     else map_option (Cons (char_of (16 * x + y))) (url_unescape mode r)
                 | _ \<Rightarrow> None)
            | _ \<Rightarrow> None)
      else if mode \<in> {EncodeHost, EncodeZone} \<and> (of_char c :: nat) < 128 \<and> host_escapes c then None
      else map_option (Cons c) (url_unescape mode cs))"

text \<open>
  \<^verbatim>\<open>getScheme\<close>: \<open>None\<close> when the first byte is a colon, otherwise the scheme (empty if there is none)
  and the rest.
\<close>

fun get_scheme :: "nat \<Rightarrow> string \<Rightarrow> string \<Rightarrow> string \<Rightarrow> (string \<times> string) option" where
  "get_scheme i whole acc [] = Some ([], whole)"
| "get_scheme i whole acc (c # cs) =
     (if is_letter c then get_scheme (Suc i) whole (acc @ [c]) cs
      else if is_digit c \<or> c \<in> set ''+-.''
      then (if i = 0 then Some ([], whole) else get_scheme (Suc i) whole (acc @ [c]) cs)
      else if c = CHR '':'' then (if i = 0 then None else Some (acc, cs))
      else Some ([], whole))"

definition validOptionalPort :: "string \<Rightarrow> bool" where
  "validOptionalPort port \<longleftrightarrow> port = [] \<or> hd port = CHR '':'' \<and> list_all is_digit (tl port)"

text \<open>The text before and after the last occurrence of a byte.\<close>

definition cut_last :: "char \<Rightarrow> string \<Rightarrow> (string \<times> string) option" where
  "cut_last c s =
     (if c \<notin> set s then None
      else let t = takeWhile (\<lambda>x. x \<noteq> c) (rev s) in Some (take (length s - Suc (length t)) s, rev t))"

text \<open>The position of \<^verbatim>\<open>%25\<close>.\<close>

fun zone_split :: "string \<Rightarrow> (string \<times> string) option" where
  "zone_split [] = None"
| "zone_split (c # cs) =
     (if strings_HasPrefix (c # cs) ''%25'' then Some ([], c # cs)
      else map_option (\<lambda>(a, b). (c # a, b)) (zone_split cs))"

definition valid_host :: "string \<Rightarrow> bool" where
  "valid_host h \<longleftrightarrow>
     (if strings_HasPrefix h ''[''
      then (case cut_last (CHR '']'') h of
              None \<Rightarrow> False
            | Some (inner, colonPort) \<Rightarrow>
                validOptionalPort colonPort \<and>
                (case zone_split inner of
                   None \<Rightarrow> url_unescape EncodeHost h \<noteq> None
                 | Some (a, z) \<Rightarrow>
                     url_unescape EncodeHost a \<noteq> None \<and> url_unescape EncodeZone z \<noteq> None \<and>
                     url_unescape EncodeHost ('']'' @ colonPort) \<noteq> None))
      else (case cut_last (CHR '':'') h of
              None \<Rightarrow> url_unescape EncodeHost h \<noteq> None
            | Some (_, port) \<Rightarrow> validOptionalPort ('':'' @ port) \<and> url_unescape EncodeHost h \<noteq> None))"

definition validUserinfo :: "string \<Rightarrow> bool" where
  "validUserinfo s \<longleftrightarrow> list_all (\<lambda>c. is_alnum c \<or> c \<in> set ''-._:~!$&()*+,;=%@'' \<or> c = CHR 0x27) s"

definition valid_authority :: "string \<Rightarrow> bool" where
  "valid_authority a \<longleftrightarrow>
     (case cut_last (CHR ''@'') a of
        None \<Rightarrow> valid_host a
      | Some (userinfo, h) \<Rightarrow>
          valid_host h \<and> validUserinfo userinfo \<and>
          (if CHR '':'' \<in> set userinfo
           then (let (user, pass) = strings_Cut (CHR '':'') userinfo
                 in url_unescape EncodeUser user \<noteq> None \<and> url_unescape EncodeUser pass \<noteq> None)
           else url_unescape EncodeUser userinfo \<noteq> None))"

definition url_error :: go_error where
  "url_error = ErrExt ''parse error''"

definition set_path :: "string \<Rightarrow> go_error + string" where
  "set_path rest = (case url_unescape EncodePath rest of None \<Rightarrow> Inl url_error | Some p \<Rightarrow> Inr p)"

definition is_ctl :: "char \<Rightarrow> bool" where
  "is_ctl c \<longleftrightarrow> (of_char c :: nat) < 32 \<or> c = CHR 0x7F"

definition parse_rest :: "string \<Rightarrow> string \<Rightarrow> go_error + string" where
  "parse_rest scheme rest0 =
     (let rest = fst (strings_Cut (CHR ''?'') rest0)
      in if \<not> strings_HasPrefix rest ''/'' \<and> scheme \<noteq> [] then Inr []
         else if \<not> strings_HasPrefix rest ''/'' \<and> CHR '':'' \<in> set (fst (strings_Cut (CHR ''/'') rest)) then Inl url_error
         else if (scheme \<noteq> [] \<or> \<not> strings_HasPrefix rest ''///'') \<and> strings_HasPrefix rest ''//''
         then (let authority = takeWhile (\<lambda>c. c \<noteq> CHR ''/'') (drop 2 rest);
                   path = dropWhile (\<lambda>c. c \<noteq> CHR ''/'') (drop 2 rest)
               in if \<not> valid_authority authority then Inl url_error else set_path path)
         else set_path rest)"

definition url_Parse :: "string \<Rightarrow> go_error + string" where
  "url_Parse raw =
     (let (u, frag) = strings_Cut (CHR ''#'') raw
      in if list_ex is_ctl u then Inl url_error
         else (case (if u = ''*'' then Inr ''*''
                     else case get_scheme 0 u [] u of
                            None \<Rightarrow> Inl url_error
                          | Some (scheme, rest) \<Rightarrow> parse_rest scheme rest) of
                 Inl e \<Rightarrow> Inl e
               | Inr path \<Rightarrow> if url_unescape EncodeFragment frag = None then Inl url_error else Inr path))"

subsection \<open>Absolute URLs\<close>

lemma unescape_plain:
  assumes "CHR ''%'' \<notin> set s" and "mode \<in> {EncodeHost, EncodeZone} \<Longrightarrow> \<forall>c \<in> set s. \<not> host_escapes c"
  shows "url_unescape mode s = Some s"
  using assms by (induction s) auto

lemma get_scheme_word:
  assumes "list_all is_letter s" and "acc \<noteq> [] \<or> s \<noteq> []"
  shows "get_scheme (length acc) whole acc (s @ CHR '':'' # r) = Some (acc @ s, r)"
  using assms
proof (induction s arbitrary: acc)
  case Nil
  have "\<not> is_letter (CHR '':'')" "\<not> is_digit (CHR '':'')" by (simp_all add: is_letter_def is_alnum_def is_digit_def)
  with Nil show ?case by simp
next
  case (Cons c s)
  then show ?case using Cons.IH [of "acc @ [c]"] by simp
qed

definition plain_host :: "string \<Rightarrow> bool" where
  "plain_host h \<longleftrightarrow> list_all (\<lambda>c. is_alnum c \<or> c = CHR ''-'' \<or> c = CHR ''.'') h"

definition plain_path :: "string \<Rightarrow> bool" where
  "plain_path p \<longleftrightarrow> strings_HasPrefix p ''/'' \<and> list_all (\<lambda>c. unreserved c \<or> c = CHR ''/'') p"

lemma is_ctl_plain: "is_alnum c \<Longrightarrow> \<not> is_ctl c" "unreserved c \<Longrightarrow> \<not> is_ctl c"
  by (auto simp: is_alnum_def is_ctl_def unreserved_def Let_def)

lemma not_alnum: "c \<in> set ''/?#%@:['' \<Longrightarrow> \<not> is_alnum c"
  by (auto simp: is_alnum_def)

lemma plain_host_chars:
  assumes "plain_host h" and "c \<in> set h"
  shows "c \<notin> set ''/?#%@:['' \<and> \<not> host_escapes c \<and> \<not> is_ctl c"
proof -
  have "is_alnum c \<or> c = CHR ''-'' \<or> c = CHR ''.''" using assms by (simp add: plain_host_def list_all_iff)
  then show ?thesis
  proof (elim disjE)
    assume a: "is_alnum c"
    then have "c \<notin> set ''/?#%@:[''" using not_alnum by blast
    with a show ?thesis using is_ctl_plain(1) [OF a] by (simp add: host_escapes_def)
  qed (simp_all add: host_escapes_def is_ctl_def)
qed

lemma not_unreserved: "c \<in> set ''?#%'' \<Longrightarrow> \<not> unreserved c"
  by (auto simp: unreserved_def)

lemma plain_path_chars:
  assumes "plain_path p" and "c \<in> set p"
  shows "c \<notin> set ''?#%'' \<and> \<not> is_ctl c"
proof -
  have "unreserved c \<or> c = CHR ''/''" using assms by (simp add: plain_path_def list_all_iff)
  then show ?thesis
  proof
    assume "unreserved c"
    then show ?thesis using not_unreserved is_ctl_plain(2) by blast
  qed (simp add: is_ctl_def)
qed

lemma Parse_absolute:
  assumes "plain_host h" and "plain_path p"
  shows "url_Parse (''https://'' @ h @ p) = Inr p"
proof -
  let ?r = "''//'' @ h @ p"
  have nh: "CHR ''#'' \<notin> set (''https:'' @ ?r)" "CHR ''?'' \<notin> set ?r" "\<not> list_ex is_ctl (''https:'' @ ?r)"
    using plain_host_chars [OF assms(1)] plain_path_chars [OF assms(2)]
    by (auto simp: list_ex_iff is_ctl_def)
  have s: "get_scheme 0 w [] (''https'' @ CHR '':'' # ?r) = Some (''https'', ?r)" for w
    using get_scheme_word [of "''https''" "[]" w ?r] by (simp add: is_letter_def is_alnum_def is_digit_def)
  obtain q where q: "p = CHR ''/'' # q" using assms(2) by (cases p) (auto simp: plain_path_def strings_HasPrefix_def)
  have tk: "takeWhile (\<lambda>c. c \<noteq> CHR ''/'') (h @ p) = h" "dropWhile (\<lambda>c. c \<noteq> CHR ''/'') (h @ p) = p"
    using plain_host_chars [OF assms(1)] q by (auto simp: takeWhile_append2 dropWhile_append2)
  have h: "valid_host h"
    using plain_host_chars [OF assms(1)] unescape_plain [of h EncodeHost]
    by (cases h) (auto simp: valid_host_def cut_last_def strings_HasPrefix_def)
  have a: "valid_authority h"
    using plain_host_chars [OF assms(1)] h by (auto simp: valid_authority_def cut_last_def)
  have path: "url_unescape EncodePath p = Some p"
    using plain_path_chars [OF assms(2)] by (intro unescape_plain) auto
  have rest: "parse_rest ''https'' ?r = Inr p"
    using tk a path Cut_absent [OF nh(2)] by (simp add: parse_rest_def strings_HasPrefix_def set_path_def)
  have cut: "strings_Cut (CHR ''#'') (''https:'' @ ?r) = (''https:'' @ ?r, [])" by (rule Cut_absent [OF nh(1)])
  show ?thesis
    using cut nh(3) s rest by (simp add: url_Parse_def)
qed

end
