(* ===== verification/Store_Factory.thy ===== *)
theory Store_Factory
  imports Store_Memory Store_File_Contract Store_Redis
begin

text \<open>
  \<^verbatim>\<open>store/factory.go\<close>: the choice of a backend from options and environment. What the factory needs
  from outside comes in a record: the JSON codec, how a poll sleeps, the \<^verbatim>\<open>ParseURL\<close> and \<^verbatim>\<open>NewClient\<close>
  functions of go-redis, and where in the world the objects of the in-process backend are allocated.
\<close>

subsection \<open>Definitions\<close>

record FactoryOptions =
  opt_Mode :: string
  opt_FilePath :: string
  opt_RedisURL :: string
  opt_RedisPrefix :: string
  opt_Namespace :: string

record ('o, 'w) factory_deps =
  fd_codec :: file_codec
  fd_pause :: "duration \<Rightarrow> 'w \<Rightarrow> go_error option \<times> 'w"
  redis_ParseURL :: "string \<Rightarrow> go_error + 'o"
  redis_NewClient :: "'o \<Rightarrow> 'w redis_client"
  fd_tokens_rd :: "'w \<Rightarrow> MemoryTokenStore"
  fd_tokens_wr :: "MemoryTokenStore \<Rightarrow> 'w \<Rightarrow> 'w"
  fd_pending_rd :: "'w \<Rightarrow> MemoryPendingStore"
  fd_pending_wr :: "MemoryPendingStore \<Rightarrow> 'w \<Rightarrow> 'w"
  fd_env :: "duration \<Rightarrow> 'w \<Rightarrow> (wake \<times> 'w) option"

definition envOrDefault :: "string \<Rightarrow> string \<Rightarrow> string \<Rightarrow> 'a os_world_scheme \<Rightarrow> string" where
  "envOrDefault v envKey fallback w =
     (if v \<noteq> [] then v else if os_Getenv envKey w \<noteq> [] then os_Getenv envKey w else fallback)"

definition requireEncryptionKey ::
  "string \<Rightarrow> 'a os_world_scheme \<Rightarrow> (go_error + Cipher) \<times> 'a os_world_scheme" where
  "requireEncryptionKey mode w =
     (if os_Getenv ''STORAGE_ENCRYPTION_KEY'' w = [] \<and> os_Getenv ''STORAGE_ENCRYPTION_KEY_PATH'' w = []
      then (Inl (Errorf (''store: TOKEN_STORAGE_MODE=%s requires STORAGE_ENCRYPTION_KEY or STORAGE_ENCRYPTION_KEY_PATH '' @
              ''to be set in the process environment (not just a .env file loaded by a settings library, '' @
              ''which some frameworks do not propagate into os.Environ-equivalent lookups)'') [ArgS mode]), w)
      else NewCipherFromEnv w)"

definition CreateStores ::
  "('o, 'a os_world_scheme) factory_deps \<Rightarrow> FactoryOptions \<Rightarrow> 'a os_world_scheme
     \<Rightarrow> (go_error + ('a os_world_scheme token_store \<times> 'a os_world_scheme pending_store)) \<times> 'a os_world_scheme" where
  "CreateStores D opts w =
     (let mode = envOrDefault (opt_Mode opts) ''TOKEN_STORAGE_MODE'' ''memory'' w
      in if mode = ''memory''
         then (Inr (memory_token_store (fd_tokens_rd D) (fd_tokens_wr D),
                    memory_pending_store (fd_pending_rd D) (fd_pending_wr D) (fd_env D)),
               fd_pending_wr D NewMemoryPendingStore (fd_tokens_wr D NewMemoryTokenStore w))
         else if mode = ''file''
         then (case requireEncryptionKey ''file'' w of
                 (Inl e, w1) \<Rightarrow> (Inl e, w1)
               | (Inr cipher, w1) \<Rightarrow>
                   (let filePath = envOrDefault (opt_FilePath opts) ''FILE_STORAGE_PATH'' ''/tmp/mcp-auth-store'' w1
                    in case NewFileTokenStore filePath (opt_Namespace opts) cipher w1 of
                         (Inl e, w2) \<Rightarrow> (Inl e, w2)
                       | (Inr tokens, w2) \<Rightarrow>
                           (case NewFilePendingStore filePath cipher w2 of
                              (Inl e, w3) \<Rightarrow> (Inl e, w3)
                            | (Inr pendings, w3) \<Rightarrow>
                                (Inr (file_token_store (fd_codec D) tokens,
                                      file_pending_store (fd_pause D) (fd_codec D) pendings), w3))))
         else if mode = ''redis''
         then (case requireEncryptionKey ''redis'' w of
                 (Inl e, w1) \<Rightarrow> (Inl e, w1)
               | (Inr cipher, w1) \<Rightarrow>
                   (let redisURL = envOrDefault (opt_RedisURL opts) ''REDIS_URL'' ''redis://localhost:6379/0'' w1;
                        redisPrefix = envOrDefault (opt_RedisPrefix opts) ''REDIS_KEY_PREFIX'' defaultRedisKeyPrefix w1
                    in case redis_ParseURL D redisURL of
                         Inl e \<Rightarrow> (Inl (Errorw ''store: parsing REDIS_URL: %w'' [] e), w1)
                       | Inr redisOpts \<Rightarrow>
                           (let client = redis_NewClient D redisOpts;
                                tokens = NewRedisTokenStore client redisPrefix (opt_Namespace opts) cipher;
                                pendings = NewRedisPendingStore client redisPrefix cipher
                            in (Inr (redis_token_store (fd_codec D) tokens,
                                     redis_pending_store (fd_pause D) (fd_codec D) pendings), w1))))
         else (Inl (Errorf ''store: unknown TOKEN_STORAGE_MODE %q (want memory, file, or redis)'' [ArgS mode]), w))"

subsection \<open>Behaviour\<close>

definition storage_mode :: "FactoryOptions \<Rightarrow> 'a os_world_scheme \<Rightarrow> string" where
  "storage_mode opts w = envOrDefault (opt_Mode opts) ''TOKEN_STORAGE_MODE'' ''memory'' w"

text \<open>The key a configured environment names, if it is one.\<close>

definition configured_key :: "'a os_world_scheme \<Rightarrow> string \<Rightarrow> bool" where
  "configured_key w key \<longleftrightarrow> length key = 32 \<and>
     (let raw = os_Getenv ''STORAGE_ENCRYPTION_KEY'' w; path = os_Getenv ''STORAGE_ENCRYPTION_KEY_PATH'' w
      in if raw \<noteq> [] then base64_DecodeString raw = Some key
         else path \<noteq> [] \<and> (\<exists>content. files w path = Some content \<and> base64_DecodeString (trimNewline content) = Some key))"

lemma requireEncryptionKey_key:
  assumes "requireEncryptionKey mode w = (Inr c, w')"
  shows "\<exists>key. configured_key w key \<and> c = aes_gcm key \<and> (w' = w \<or> w' = w\<lparr>tick := Suc (tick w)\<rparr>)"
proof -
  have r: "NewCipherFromEnv w = (Inr c, w')"
    and e: "os_Getenv ''STORAGE_ENCRYPTION_KEY'' w \<noteq> [] \<or> os_Getenv ''STORAGE_ENCRYPTION_KEY_PATH'' w \<noteq> []"
    using assms by (auto simp: requireEncryptionKey_def split: if_splits)
  show ?thesis
  proof (cases "os_Getenv ''STORAGE_ENCRYPTION_KEY'' w = []")
    case True
    with r e show ?thesis
      by (auto simp: NewCipherFromEnv_def configured_key_def NewCipher_def os_ReadFile_def io_call_def
          split: if_splits option.splits sum.splits)
  next
    case False
    with r show ?thesis
      by (auto simp: NewCipherFromEnv_def configured_key_def NewCipher_def split: if_splits option.splits)
  qed
qed

lemma getenv_tick [simp]: "os_Getenv k (w\<lparr>tick := n\<rparr>) = os_Getenv k w"
  by (simp add: os_Getenv_def)

lemma envOrDefault_tick [simp]: "envOrDefault v k d (w\<lparr>tick := n\<rparr>) = envOrDefault v k d w"
  by (simp add: envOrDefault_def)

subsection \<open>Properties\<close>

text \<open>
  C19: a persistent backend refuses to start without a configured key. In file and redis mode, with
  neither key variable set, \<^verbatim>\<open>CreateStores\<close> returns an error, draws no key, creates no directory and
  leaves the world as it was; a mode it does not know is an error as well.
\<close>

theorem persistent_modes_need_key:
  assumes "storage_mode opts w \<noteq> ''memory''"
    and "os_Getenv ''STORAGE_ENCRYPTION_KEY'' w = []" and "os_Getenv ''STORAGE_ENCRYPTION_KEY_PATH'' w = []"
  shows "\<exists>e. CreateStores D opts w = (Inl e, w)"
  using assms by (auto simp: CreateStores_def storage_mode_def requireEncryptionKey_def Let_def)

definition factory_demo_world :: "(string \<Rightarrow> string) \<Rightarrow> os_world" where
  "factory_demo_world env = \<lparr>clock = (\<lambda>_. 0), entropy = (\<lambda>_ _. CHR ''a''), faults = (\<lambda>_. None), f2i_oob = (\<lambda>_. 0),
     tick = 0, environ = env, files = Map.empty, dirs = {}, stderr_log = []\<rparr>"

definition demo_options :: "string \<Rightarrow> string \<Rightarrow> FactoryOptions" where
  "demo_options mode ns = \<lparr>opt_Mode = mode, opt_FilePath = [], opt_RedisURL = [], opt_RedisPrefix = [], opt_Namespace = ns\<rparr>"

theorem persistent_modes_need_key_witness:
  "\<forall>D :: (string, os_world) factory_deps. \<exists>e.
     CreateStores D (demo_options ''file'' []) (factory_demo_world (\<lambda>_. [])) = (Inl e, factory_demo_world (\<lambda>_. []))"
proof
  show "\<exists>e. CreateStores D (demo_options ''file'' []) (factory_demo_world (\<lambda>_. [])) = (Inl e, factory_demo_world (\<lambda>_. []))"
    for D :: "(string, os_world) factory_deps"
    by (rule persistent_modes_need_key)
      (simp_all add: demo_options_def factory_demo_world_def storage_mode_def envOrDefault_def os_Getenv_def)
qed

text \<open>The stores of the two persistent modes.\<close>

definition made_file_stores :: "('o, 'a os_world_scheme) factory_deps \<Rightarrow> FactoryOptions \<Rightarrow> 'a os_world_scheme \<Rightarrow> string
    \<Rightarrow> 'a os_world_scheme token_store \<Rightarrow> 'a os_world_scheme pending_store \<Rightarrow> bool" where
  "made_file_stores D opts w key ts ps \<longleftrightarrow>
     (let base = envOrDefault (opt_FilePath opts) ''FILE_STORAGE_PATH'' ''/tmp/mcp-auth-store'' w;
          dir = filepath_Join base ''tokens''
      in ts = file_token_store (fd_codec D)
           \<lparr>ft_dir = (if opt_Namespace opts = [] then dir else filepath_Join dir (opt_Namespace opts)), ft_cipher = aes_gcm key\<rparr> \<and>
         ps = file_pending_store (fd_pause D) (fd_codec D)
           \<lparr>fp_dir = filepath_Join base ''pending'', fp_cipher = aes_gcm key\<rparr>)"

definition made_redis_stores :: "('o, 'a os_world_scheme) factory_deps \<Rightarrow> FactoryOptions \<Rightarrow> 'a os_world_scheme \<Rightarrow> string
    \<Rightarrow> 'a os_world_scheme token_store \<Rightarrow> 'a os_world_scheme pending_store \<Rightarrow> bool" where
  "made_redis_stores D opts w key ts ps \<longleftrightarrow>
     (\<exists>ro. redis_ParseURL D (envOrDefault (opt_RedisURL opts) ''REDIS_URL'' ''redis://localhost:6379/0'' w) = Inr ro \<and>
        (let prefix = envOrDefault (opt_RedisPrefix opts) ''REDIS_KEY_PREFIX'' ''mcp:auth:'' w
         in ts = redis_token_store (fd_codec D) (NewRedisTokenStore (redis_NewClient D ro) prefix (opt_Namespace opts) (aes_gcm key)) \<and>
            ps = redis_pending_store (fd_pause D) (fd_codec D) (NewRedisPendingStore (redis_NewClient D ro) prefix (aes_gcm key))))"

text \<open>
  C18: what a persistent backend stores is encrypted under the configured key. Whenever \<^verbatim>\<open>CreateStores\<close>
  returns stores in another mode than memory, the mode is file or redis, both stores seal under one key
  of 32 bytes that the environment names, never an ephemeral one, and sit where options and environment say.
\<close>

theorem created_stores_use_configured_key:
  assumes "CreateStores D opts w = (Inr (ts, ps), w')" and "storage_mode opts w \<noteq> ''memory''"
  shows "\<exists>key. configured_key w key \<and>
    (if storage_mode opts w = ''file'' then made_file_stores D opts w key ts ps
     else storage_mode opts w = ''redis'' \<and> made_redis_stores D opts w key ts ps)"
proof -
  define mode where "mode = storage_mode opts w"
  have m: "mode = ''file'' \<or> mode = ''redis''"
    using assms by (auto simp: CreateStores_def mode_def storage_mode_def Let_def split: if_splits)
  have "\<exists>c w1. requireEncryptionKey mode w = (Inr c, w1)"
    using assms m by (auto simp: CreateStores_def mode_def storage_mode_def Let_def split: if_splits sum.splits prod.splits)
  then obtain c w1 where r: "requireEncryptionKey mode w = (Inr c, w1)" by blast
  from requireEncryptionKey_key [OF r] obtain key where
    k: "configured_key w key" "c = aes_gcm key" and w1: "w1 = w \<or> w1 = w\<lparr>tick := Suc (tick w)\<rparr>" by blast
  have env: "envOrDefault v x d w1 = envOrDefault v x d w" for v x d using w1 by auto
  show ?thesis
  proof (cases "mode = ''file''")
    case True
    with assms r k have "made_file_stores D opts w key ts ps"
      by (auto simp: CreateStores_def mode_def storage_mode_def made_file_stores_def NewFileTokenStore_def
          NewFilePendingStore_def env Let_def split: prod.splits sum.splits option.splits)
    with True k show ?thesis by (auto simp: mode_def)
  next
    case False
    with m assms r k have "made_redis_stores D opts w key ts ps"
      by (auto simp: CreateStores_def mode_def storage_mode_def made_redis_stores_def defaultRedisKeyPrefix_def
          env Let_def split: sum.splits)
    with False m k show ?thesis by (auto simp: mode_def)
  qed
qed

text \<open>Thirty-two zero bytes in base64.\<close>

definition demo_key_env :: "string \<Rightarrow> string" where
  "demo_key_env k = (if k = ''STORAGE_ENCRYPTION_KEY'' then replicate 43 (CHR ''A'') @ ''='' else [])"

lemma demo_key_decodes: "base64_DecodeString (replicate 43 (CHR ''A'') @ ''='') = Some (replicate 32 (CHR 0x00))"
  by code_simp

definition factory_demo_deps :: "(string, 'a os_world_scheme) factory_deps" where
  "factory_demo_deps = \<lparr>fd_codec = \<lparr>json_Marshal = (\<lambda>_. Inr []), json_Unmarshal = (\<lambda>_. Inr None),
       rec_Marshal = (\<lambda>_. Inr []), rec_Unmarshal = (\<lambda>_. Inl (ErrExt []))\<rparr>,
     fd_pause = (\<lambda>_ w. (None, w)), redis_ParseURL = Inr,
     redis_NewClient = (\<lambda>_. \<lparr>rc_Get = (\<lambda>_ w. (Inl ErrRedisNil, w)), rc_Set = (\<lambda>_ _ _ w. (None, w)), rc_Del = (\<lambda>_ w. (None, w)),
       rc_Exists = (\<lambda>_ w. (Inr 0, w)), rc_Exec = (\<lambda>_ w. ((Some ErrRedisNil, \<lambda>_. Inl ErrRedisNil), w))\<rparr>),
     fd_tokens_rd = (\<lambda>_. NewMemoryTokenStore), fd_tokens_wr = (\<lambda>_ w. w),
     fd_pending_rd = (\<lambda>_. NewMemoryPendingStore), fd_pending_wr = (\<lambda>_ w. w), fd_env = (\<lambda>_ _. None)\<rparr>"

theorem created_stores_use_configured_key_witness:
  "\<exists>ts ps w' key. CreateStores factory_demo_deps (demo_options ''file'' ''github'') (factory_demo_world demo_key_env) =
       (Inr (ts, ps), w') \<and>
     configured_key (factory_demo_world demo_key_env) key \<and>
     made_file_stores factory_demo_deps (demo_options ''file'' ''github'') (factory_demo_world demo_key_env) key ts ps"
proof -
  let ?w = "factory_demo_world demo_key_env" and ?o = "demo_options ''file'' ''github''"
  have m: "storage_mode ?o ?w = ''file''" by (simp add: storage_mode_def envOrDefault_def demo_options_def)
  have "\<exists>x w'. CreateStores factory_demo_deps ?o ?w = (Inr x, w')"
    by (simp add: CreateStores_def envOrDefault_def demo_options_def requireEncryptionKey_def os_Getenv_def
        factory_demo_world_def demo_key_env_def NewCipherFromEnv_def demo_key_decodes [simplified] NewCipher_def
        NewFileTokenStore_def NewFilePendingStore_def os_MkdirAll_def io_call_def Let_def)
  then obtain ts ps w' where r: "CreateStores factory_demo_deps ?o ?w = (Inr (ts, ps), w')" by auto
  from created_stores_use_configured_key [OF r] r m show ?thesis by fastforce
qed

subsection \<open>Directories\<close>

text \<open>
  A namespace that is not a plain name can leave the token directory. The factory joins it to the
  path as it is, so with the namespace \<^verbatim>\<open>../pending\<close> the token store of a provider and the pending
  store of all providers use the same files.
\<close>

theorem namespace_traversal:
  assumes "base \<noteq> []" and "NewFileTokenStore base ''../pending'' c w = (Inr s, w1)"
    and "NewFilePendingStore base c' w' = (Inr q, w1')"
  shows "FileTokenStore_path s k = metaPath q k"
proof -
  let ?d = "filepath_Join base ''tokens''"
  have d: "?d \<noteq> []" by (rule Join_nonempty [OF plain_tokens assms(1)])
  have ok: "stack_ok (is_rooted base) (clean_stack base)" by (rule clean_stack_ok)
  have t: "?d = render_path (is_rooted base) (''tokens'' # clean_stack base)" by (rule Join_plain [OF plain_tokens assms(1)])
  have ok': "stack_ok (is_rooted base) (''tokens'' # clean_stack base)"
    by (rule plain_stack_ok [OF plain_tokens ok])
  have cs: "clean_stack ?d = ''tokens'' # clean_stack base" "is_rooted ?d = is_rooted base"
    unfolding t using clean_stack_render [OF ok'] is_rooted_render [OF ok'] by simp_all
  have "is_rooted (?d @ ''/'' @ ''../pending'') = is_rooted base" using d cs(2) by (simp add: is_rooted_def)
  moreover have "clean_stack (?d @ ''/'' @ ''../pending'') = ''pending'' # clean_stack base"
    using cs d by (simp add: clean_stack_def split_slash_append is_rooted_def clean_step_def)
  ultimately have "filepath_Join ?d ''../pending'' = filepath_Join base ''pending''"
    using d Join_plain [OF plain_pending assms(1)] by (simp add: filepath_Join_def filepath_Clean_def)
  moreover have "ft_dir s = filepath_Join ?d ''../pending''" "fp_dir q = filepath_Join base ''pending''"
    using assms(2,3) by (auto simp: NewFileTokenStore_def NewFilePendingStore_def Let_def split: prod.splits option.splits)
  ultimately show ?thesis by (simp add: FileTokenStore_path_def metaPath_def)
qed

theorem namespace_traversal_witness:
  "\<exists>s q w1 w1'. NewFileTokenStore ''/data'' ''../pending'' (aes_gcm []) (factory_demo_world (\<lambda>_. [])) = (Inr s, w1) \<and>
     NewFilePendingStore ''/data'' (aes_gcm []) (factory_demo_world (\<lambda>_. [])) = (Inr q, w1') \<and>
     FileTokenStore_path s ''k'' = metaPath q ''k''"
proof -
  obtain s w1 where s: "NewFileTokenStore ''/data'' ''../pending'' (aes_gcm []) (factory_demo_world (\<lambda>_. [])) = (Inr s, w1)"
    by (simp add: NewFileTokenStore_def Let_def os_MkdirAll_def io_call_def factory_demo_world_def)
  obtain q w1' where q: "NewFilePendingStore ''/data'' (aes_gcm []) (factory_demo_world (\<lambda>_. [])) = (Inr q, w1')"
    by (simp add: NewFilePendingStore_def Let_def os_MkdirAll_def io_call_def factory_demo_world_def)
  from namespace_traversal [OF _ s q] s q show ?thesis by blast
qed

text \<open>
  C28: with a plain namespace, or none, the files of the created stores are apart: neither directory is
  the other, so no token file is a pending record or a result.
\<close>

theorem factory_directories_differ:
  assumes "opt_Namespace opts = [] \<or> plain_name (opt_Namespace opts)"
    and "NewFileTokenStore base (opt_Namespace opts) c w = (Inr s, w1)" and "base \<noteq> []"
    and "NewFilePendingStore base c w1 = (Inr q, w2)"
  shows "ft_dir s \<noteq> [] \<and> fp_dir q \<noteq> [] \<and> filepath_Clean (ft_dir s) \<noteq> filepath_Clean (fp_dir q) \<and>
    FileTokenStore_path s k \<noteq> metaPath q k' \<and> FileTokenStore_path s k \<noteq> donePath q k'"
proof -
  let ?d = "filepath_Join base ''tokens''"
  have d: "?d \<noteq> []" by (rule Join_nonempty [OF plain_tokens assms(3)])
  have s: "ft_dir s = (if opt_Namespace opts = [] then ?d else filepath_Join ?d (opt_Namespace opts))"
    and q: "fp_dir q = filepath_Join base ''pending''"
    using assms(2,4) by (auto simp: NewFileTokenStore_def NewFilePendingStore_def Let_def split: prod.splits option.splits)
  have ne: "ft_dir s \<noteq> []" "fp_dir q \<noteq> []"
    using assms(1,3) d by (auto simp: s q Join_nonempty plain_pending)
  have clean: "filepath_Clean (ft_dir s) \<noteq> filepath_Clean (fp_dir q)"
  proof (cases "opt_Namespace opts = []")
    case True
    then show ?thesis using factory_dirs_differ [OF assms(3)] by (simp add: s q)
  next
    case False
    with assms(1) have p: "plain_name (opt_Namespace opts)" by simp
    have "filepath_Clean ?d \<noteq> filepath_Clean base"
      using Clean_Join_neq [OF plain_tokens assms(3)] by (simp add: Clean_Join plain_tokens assms(3))
    then show ?thesis
      using Join_inj [OF p plain_pending d assms(3)] False p d assms(3) by (auto simp: s q Clean_Join plain_pending)
  qed
  have "FileTokenStore_path s k \<noteq> metaPath q k'" "FileTokenStore_path s k \<noteq> donePath q k'"
    unfolding FileTokenStore_path_def metaPath_def donePath_def
    using clean Join_inj [OF enc_plain(1) enc_plain(1) ne] Join_inj [OF enc_plain(1) enc_plain(2) ne] by blast+
  with ne clean show ?thesis by blast
qed

theorem factory_directories_differ_witness:
  "\<exists>s q w1 w2. NewFileTokenStore ''/data'' ''github'' (aes_gcm []) (factory_demo_world (\<lambda>_. [])) = (Inr s, w1) \<and>
     NewFilePendingStore ''/data'' (aes_gcm []) w1 = (Inr q, w2) \<and> FileTokenStore_path s ''k'' \<noteq> metaPath q ''k''"
proof -
  obtain s w1 where s: "NewFileTokenStore ''/data'' ''github'' (aes_gcm []) (factory_demo_world (\<lambda>_. [])) = (Inr s, w1)"
    and f: "faults w1 = (\<lambda>_. None)"
    by (simp add: NewFileTokenStore_def Let_def os_MkdirAll_def io_call_def factory_demo_world_def)
  obtain q w2 where q: "NewFilePendingStore ''/data'' (aes_gcm []) w1 = (Inr q, w2)"
    using f by (simp add: NewFilePendingStore_def Let_def os_MkdirAll_def io_call_def)
  have "opt_Namespace (demo_options ''file'' ''github'') = [] \<or> plain_name (opt_Namespace (demo_options ''file'' ''github''))"
    by (simp add: demo_options_def plain_name_def)
  from factory_directories_differ [OF this _ _ q, where w = "factory_demo_world (\<lambda>_. [])" and s = s and k = "''k''" and k' = "''k''"] s q
  show ?thesis by (auto simp: demo_options_def)
qed

end
