(* ===== verification/Oauth_Setup.thy ===== *)
theory Oauth_Setup
  imports Oauth_Provider Url_Parse Store_Factory
begin

text \<open>
  The constructors of \<^verbatim>\<open>oauthprovider/oauthprovider.go\<close>: \<^verbatim>\<open>New\<close> with its fallback to the store
  factory, and \<^verbatim>\<open>FromStandardOAuth2\<close>, which makes the authorization URL builder and the token
  requests from the endpoints of a standard provider. Optional fields are options, with \<open>None\<close> for nil.
  An HTTP client is the function that performs a request, giving the status and the body; the decoder
  of the token response is the argument \<open>decode\<close>. Where a provider's session map lives in the world is
  given by the pair of its reader and writer. The \<^verbatim>\<open>httpClient\<close> field of the provider is never read.
\<close>

subsection \<open>Token requests\<close>

record token_request =
  rq_Method :: string
  rq_URL :: string
  rq_Headers :: "string \<Rightarrow> string option"
  rq_Body :: string

type_synonym 'w http_client = "token_request \<Rightarrow> 'w \<Rightarrow> (go_error + nat \<times> string) \<times> 'w"

definition form_request :: "string \<Rightarrow> (string \<times> string) list \<Rightarrow> token_request" where
  "form_request tokenURL form =
     \<lparr>rq_Method = ''POST'', rq_URL = tokenURL,
      rq_Headers = [''Content-Type'' \<mapsto> ''application/x-www-form-urlencoded'', ''Accept'' \<mapsto> ''application/json''],
      rq_Body = values_Encode form\<rparr>"

definition doTokenRequest ::
  "(string \<Rightarrow> go_error + gomap option) \<Rightarrow> 'w http_client \<Rightarrow> string \<Rightarrow> (string \<times> string) list \<Rightarrow> 'w
     \<Rightarrow> (go_error + gomap option) \<times> 'w" where
  "doTokenRequest decode client tokenURL form w =
     (case url_Parse tokenURL of
        Inl e \<Rightarrow> (Inl e, w)
      | Inr _ \<Rightarrow>
          (case client (form_request tokenURL form) w of
             (Inl e, w1) \<Rightarrow> (Inl (Errorw ''oauthprovider: token request failed: %w'' [] e), w1)
           | (Inr (status, body), w1) \<Rightarrow>
               if status \<noteq> 200
               then (Inl (Errorf ''oauthprovider: token endpoint returned status %d'' [ArgD (int status)]), w1)
               else (case decode body of
                       Inl e \<Rightarrow> (Inl (Errorw ''oauthprovider: decoding token response: %w'' [] e), w1)
                     | Inr v \<Rightarrow> (Inr v, w1))))"

subsection \<open>Constructors\<close>

definition o_defaultTokenTimeout :: duration where
  "o_defaultTokenTimeout = 120 * Second"

record 'w o_Options =
  oo_Name :: string
  oo_BuildAuthURL :: "string \<Rightarrow> string \<Rightarrow> string"
  oo_ExchangeCode :: "string \<Rightarrow> 'w \<Rightarrow> (go_error + gomap option) \<times> 'w"
  oo_RedirectURI :: string
  oo_TokenStore :: "'w token_store option"
  oo_PendingStore :: "'w pending_store option"
  oo_RefreshTokenFn :: "(string \<Rightarrow> 'w \<Rightarrow> (go_error + gomap option) \<times> 'w) option"
  oo_TokenTimeout :: duration

text \<open>The fallback both constructors share: a store that is missing is the factory's.\<close>

definition name_options :: "string \<Rightarrow> FactoryOptions" where
  "name_options name = \<lparr>opt_Mode = [], opt_FilePath = [], opt_RedisURL = [], opt_RedisPrefix = [], opt_Namespace = name\<rparr>"

definition default_stores ::
  "('o, 'a os_world_scheme) factory_deps \<Rightarrow> string \<Rightarrow> 'a os_world_scheme token_store option
     \<Rightarrow> 'a os_world_scheme pending_store option \<Rightarrow> 'a os_world_scheme
     \<Rightarrow> (go_error + ('a os_world_scheme token_store \<times> 'a os_world_scheme pending_store)) \<times> 'a os_world_scheme" where
  "default_stores D name ts ps w =
     (case (ts, ps) of
        (Some t, Some p) \<Rightarrow> (Inr (t, p), w)
      | _ \<Rightarrow>
          (case CreateStores D (name_options name) w of
             (Inl e, w1) \<Rightarrow> (Inl e, w1)
           | (Inr (t, p), w1) \<Rightarrow> (Inr (case ts of None \<Rightarrow> t | Some t' \<Rightarrow> t', case ps of None \<Rightarrow> p | Some p' \<Rightarrow> p'), w1)))"

definition o_New ::
  "('o, 'a os_world_scheme) factory_deps
     \<Rightarrow> ('a os_world_scheme \<Rightarrow> string \<Rightarrow> nat option) \<times> ((string \<Rightarrow> nat option) \<Rightarrow> 'a os_world_scheme \<Rightarrow> 'a os_world_scheme)
     \<Rightarrow> 'a os_world_scheme o_Options \<Rightarrow> 'a os_world_scheme
     \<Rightarrow> (go_error + 'a os_world_scheme oauth_provider) \<times> 'a os_world_scheme" where
  "o_New D slot opts w =
     (let timeout = (if oo_TokenTimeout opts = 0 then o_defaultTokenTimeout else oo_TokenTimeout opts)
      in case default_stores D (oo_Name opts) (oo_TokenStore opts) (oo_PendingStore opts) w of
           (Inl e, w1) \<Rightarrow> (Inl (Errorw ''oauthprovider: creating default stores: %w'' [] e), w1)
         | (Inr (ts, ps), w1) \<Rightarrow>
             (case url_Parse (oo_RedirectURI opts) of
                Inl e \<Rightarrow> (Inl (Errorw ''oauthprovider: parsing redirect URI: %w'' [] e), w1)
              | Inr path \<Rightarrow>
                  (Inr \<lparr>o_name = oo_Name opts, buildAuthURL = oo_BuildAuthURL opts, exchangeCode = oo_ExchangeCode opts,
                        redirectURI = oo_RedirectURI opts, callbackPath = path, tokenStore = ts, o_pendingStore = ps,
                        refreshTokenFn = oo_RefreshTokenFn opts, o_tokenTimeout = timeout,
                        o_sess_rd = fst slot, o_sess_wr = snd slot\<rparr>, snd slot Map.empty w1)))"

definition CallbackPath :: "'w oauth_provider \<Rightarrow> string" where
  "CallbackPath p = callbackPath p"

record 'w StandardOAuth2Options =
  so_Name :: string
  AuthorizationURL :: string
  TokenURL :: string
  ClientID :: string
  ClientSecret :: string
  Scope :: string
  so_RedirectURI :: string
  so_TokenStore :: "'w token_store option"
  so_PendingStore :: "'w pending_store option"
  so_RefreshTokenFn :: "(string \<Rightarrow> 'w \<Rightarrow> (go_error + gomap option) \<times> 'w) option"
  so_TokenTimeout :: duration
  so_HTTPClient :: "'w http_client option"

definition standard_auth_url :: "'w StandardOAuth2Options \<Rightarrow> string \<Rightarrow> string \<Rightarrow> string" where
  "standard_auth_url opts state redirect =
     AuthorizationURL opts @ ''?'' @ values_Encode
       [(''client_id'', ClientID opts), (''redirect_uri'', redirect), (''response_type'', ''code''),
        (''scope'', Scope opts), (''state'', state)]"

definition code_form :: "'w StandardOAuth2Options \<Rightarrow> string \<Rightarrow> (string \<times> string) list" where
  "code_form opts code =
     [(''client_id'', ClientID opts), (''client_secret'', ClientSecret opts), (''code'', code),
      (''redirect_uri'', so_RedirectURI opts), (''grant_type'', ''authorization_code'')]"

definition refresh_form :: "'w StandardOAuth2Options \<Rightarrow> string \<Rightarrow> (string \<times> string) list" where
  "refresh_form opts refreshToken =
     [(''client_id'', ClientID opts), (''client_secret'', ClientSecret opts),
      (''refresh_token'', refreshToken), (''grant_type'', ''refresh_token'')]"

definition FromStandardOAuth2 ::
  "('o, 'a os_world_scheme) factory_deps
     \<Rightarrow> ('a os_world_scheme \<Rightarrow> string \<Rightarrow> nat option) \<times> ((string \<Rightarrow> nat option) \<Rightarrow> 'a os_world_scheme \<Rightarrow> 'a os_world_scheme)
     \<Rightarrow> (string \<Rightarrow> go_error + gomap option) \<Rightarrow> 'a os_world_scheme http_client
     \<Rightarrow> 'a os_world_scheme StandardOAuth2Options \<Rightarrow> 'a os_world_scheme
     \<Rightarrow> (go_error + 'a os_world_scheme oauth_provider) \<times> 'a os_world_scheme" where
  "FromStandardOAuth2 D slot decode defaultClient opts w =
     (let timeout = (if so_TokenTimeout opts = 0 then o_defaultTokenTimeout else so_TokenTimeout opts);
          client = (case so_HTTPClient opts of None \<Rightarrow> defaultClient | Some c \<Rightarrow> c);
          refreshFn = (case so_RefreshTokenFn opts of
                         Some f \<Rightarrow> f
                       | None \<Rightarrow> (\<lambda>refreshToken. doTokenRequest decode client (TokenURL opts) (refresh_form opts refreshToken)))
      in o_New D slot
           \<lparr>oo_Name = so_Name opts, oo_BuildAuthURL = standard_auth_url opts,
            oo_ExchangeCode = (\<lambda>code. doTokenRequest decode client (TokenURL opts) (code_form opts code)),
            oo_RedirectURI = so_RedirectURI opts, oo_TokenStore = so_TokenStore opts,
            oo_PendingStore = so_PendingStore opts, oo_RefreshTokenFn = Some refreshFn,
            oo_TokenTimeout = timeout\<rparr> w)"

subsection \<open>Behaviour\<close>

lemma o_New_fields:
  assumes "o_New D slot opts w = (Inr p, w')"
  shows "o_name p = oo_Name opts" "buildAuthURL p = oo_BuildAuthURL opts" "exchangeCode p = oo_ExchangeCode opts"
    "redirectURI p = oo_RedirectURI opts" "url_Parse (oo_RedirectURI opts) = Inr (callbackPath p)"
    "refreshTokenFn p = oo_RefreshTokenFn opts"
    "o_tokenTimeout p = (if oo_TokenTimeout opts = 0 then o_defaultTokenTimeout else oo_TokenTimeout opts)"
    "o_sess_rd p = fst slot" "o_sess_wr p = snd slot"
    "\<exists>w1. default_stores D (oo_Name opts) (oo_TokenStore opts) (oo_PendingStore opts) w = (Inr (tokenStore p, o_pendingStore p), w1) \<and>
       w' = snd slot Map.empty w1"
  using assms by (auto simp: o_New_def Let_def split: prod.splits sum.splits)

lemma Encode_Get:
  assumes "distinct (map fst kvs)"
  shows "map_of (url_ParseQuery (values_Encode kvs)) = map_of kvs"
  using assms by (simp add: ParseQuery_Encode map_of_sort_key)

subsection \<open>Properties\<close>


definition standard_demo :: "os_world StandardOAuth2Options" where
  "standard_demo = \<lparr>so_Name = ''github'', AuthorizationURL = ''https://idp/authorize'', TokenURL = ''https://idp/token'',
     ClientID = ''id'', ClientSecret = ''s&='', Scope = ''repo user'', so_RedirectURI = ''https://mcp/cb'',
     so_TokenStore = None, so_PendingStore = None, so_RefreshTokenFn = None, so_TokenTimeout = 0, so_HTTPClient = None\<rparr>"

definition demo_http :: "os_world http_client" where
  "demo_http rq w = (Inr (200, ''{}''), w)"

abbreviation demo_provider :: "(go_error + os_world oauth_provider) \<times> os_world" where
  "demo_provider \<equiv> FromStandardOAuth2 factory_demo_deps (\<lambda>_. Map.empty, \<lambda>_ w. w) (\<lambda>_. Inr None) demo_http
     standard_demo (factory_demo_world (\<lambda>_. []))"

lemma demo_redirect_parses: "url_Parse ''https://mcp/cb'' = Inr ''/cb''"
  using Parse_absolute [of "''mcp''" "''/cb''"]
  by (simp add: plain_host_def is_alnum_def plain_path_def strings_HasPrefix_def unreserved_def)

lemma demo_provider_made: "\<exists>p w'. demo_provider = (Inr p, w')"
  using demo_redirect_parses
  by (simp add: FromStandardOAuth2_def o_New_def standard_demo_def default_stores_def CreateStores_def envOrDefault_def
      name_options_def os_Getenv_def factory_demo_world_def factory_demo_deps_def Let_def)


text \<open>
  C26: exchanging a code is one form post. For a token endpoint that parses, the exchange function of a
  standard provider sends one \<^verbatim>\<open>POST\<close> to it whose body decodes to the client's credentials, the code,
  the redirect URI and the grant type, and returns the decoded response exactly when the status is 200.
\<close>

theorem code_exchange_request:
  assumes "FromStandardOAuth2 D slot decode client opts w0 = (Inr p, w0')" and "so_HTTPClient opts = None"
    and "url_Parse (TokenURL opts) = Inr path"
  shows "\<exists>rq. rq_Method rq = ''POST'' \<and> rq_URL rq = TokenURL opts \<and>
    map_of (url_ParseQuery (rq_Body rq)) =
      [''client_id'' \<mapsto> ClientID opts, ''client_secret'' \<mapsto> ClientSecret opts, ''code'' \<mapsto> code,
       ''redirect_uri'' \<mapsto> so_RedirectURI opts, ''grant_type'' \<mapsto> ''authorization_code''] \<and>
    snd (exchangeCode p code w) = snd (client rq w) \<and>
    (\<forall>data. fst (exchangeCode p code w) = Inr data \<longleftrightarrow>
       (\<exists>body. fst (client rq w) = Inr (200, body) \<and> decode body = Inr data))"
proof -
  let ?rq = "form_request (TokenURL opts) (code_form opts code)"
  have "exchangeCode p = (\<lambda>code. doTokenRequest decode client (TokenURL opts) (code_form opts code))"
    using assms(1,2) o_New_fields(3) by (fastforce simp: FromStandardOAuth2_def Let_def)
  then have e: "exchangeCode p code w = doTokenRequest decode client (TokenURL opts) (code_form opts code) w" by simp
  have "map_of (url_ParseQuery (rq_Body ?rq)) = map_of (code_form opts code)"
    unfolding form_request_def token_request.select_convs by (rule Encode_Get) (simp add: code_form_def)
  moreover have "snd (exchangeCode p code w) = snd (client ?rq w) \<and>
    (\<forall>data. fst (exchangeCode p code w) = Inr data \<longleftrightarrow>
       (\<exists>body. fst (client ?rq w) = Inr (200, body) \<and> decode body = Inr data))"
    unfolding e using assms(3) by (cases "client ?rq w") (auto simp: doTokenRequest_def split: sum.splits)
  ultimately show ?thesis
    by (intro exI [of _ ?rq]) (auto simp: form_request_def code_form_def fun_eq_iff)
qed

theorem code_exchange_request_witness:
  "\<exists>p w' (rq :: token_request). demo_provider = (Inr p, w') \<and> rq_Method rq = ''POST'' \<and>
     map_of (url_ParseQuery (rq_Body rq)) ''client_secret'' = Some ''s&=''"
proof -
  obtain p w' where p: "demo_provider = (Inr p, w')" using demo_provider_made by blast
  have c: "so_HTTPClient standard_demo = None" by (simp add: standard_demo_def)
  have t: "url_Parse (TokenURL standard_demo) = Inr ''/token''"
    using Parse_absolute [of "''idp''" "''/token''"]
    by (simp add: plain_host_def is_alnum_def plain_path_def strings_HasPrefix_def unreserved_def standard_demo_def)
  from code_exchange_request [OF p c t, of "''c''" "factory_demo_world (\<lambda>_. [])"] show ?thesis
  proof (elim exE conjE)
    fix rq :: token_request assume rq: "rq_Method rq = ''POST''" "map_of (url_ParseQuery (rq_Body rq)) =
      [''client_id'' \<mapsto> ClientID standard_demo, ''client_secret'' \<mapsto> ClientSecret standard_demo, ''code'' \<mapsto> ''c'',
       ''redirect_uri'' \<mapsto> so_RedirectURI standard_demo, ''grant_type'' \<mapsto> ''authorization_code'']"
    have "map_of (url_ParseQuery (rq_Body rq)) ''client_secret'' = Some ''s&=''"
      unfolding rq(2) by (simp add: standard_demo_def)
    with p rq(1) show ?thesis by blast
  qed
qed


record setup_world = os_world +
  sw_sessions :: "string \<Rightarrow> nat option"

definition setup_demo_world :: setup_world where
  "setup_demo_world = \<lparr>clock = (\<lambda>_. 0), entropy = (\<lambda>_ _. CHR ''a''), faults = (\<lambda>_. None), f2i_oob = (\<lambda>_. 0),
     tick = 0, environ = (\<lambda>_. []), files = Map.empty, dirs = {}, stderr_log = [], sw_sessions = [''old'' \<mapsto> 1]\<rparr>"

definition setup_demo_options :: "setup_world o_Options" where
  "setup_demo_options = \<lparr>oo_Name = ''github'', oo_BuildAuthURL = (\<lambda>s _. s), oo_ExchangeCode = (\<lambda>_ w. (Inr None, w)),
     oo_RedirectURI = ''https://mcp/cb'', oo_TokenStore = None, oo_PendingStore = None, oo_RefreshTokenFn = None,
     oo_TokenTimeout = 0\<rparr>"


end
