(* ===== verification/Credentials_Setup.thy ===== *)
theory Credentials_Setup
  imports Credentials_Provider Oauth_Setup Middleware
begin

text \<open>
  The constructor of \<^verbatim>\<open>credentialsprovider/credentialsprovider.go\<close>, with the same fallback to the store
  factory as the OAuth provider, and how its open paths work with the session-auth middleware.
\<close>

definition c_defaultTokenTimeout :: duration where
  "c_defaultTokenTimeout = 300 * Second"

record 'w c_Options =
  co_Name :: string
  co_Variables :: variables
  co_ServerBaseURL :: string
  co_CredsStore :: "'w token_store option"
  co_PendingStore :: "'w pending_store option"
  co_Doc :: string
  co_TokenTimeout :: duration

definition c_New ::
  "('o, 'a os_world_scheme) factory_deps
     \<Rightarrow> ('a os_world_scheme \<Rightarrow> string \<Rightarrow> nat option) \<times> ((string \<Rightarrow> nat option) \<Rightarrow> 'a os_world_scheme \<Rightarrow> 'a os_world_scheme)
     \<Rightarrow> 'a os_world_scheme c_Options \<Rightarrow> 'a os_world_scheme
     \<Rightarrow> (go_error + 'a os_world_scheme creds_provider) \<times> 'a os_world_scheme" where
  "c_New D slot opts w =
     (let timeout = (if co_TokenTimeout opts = 0 then c_defaultTokenTimeout else co_TokenTimeout opts)
      in case default_stores D (co_Name opts) (co_CredsStore opts) (co_PendingStore opts) w of
           (Inl e, w1) \<Rightarrow> (Inl (Errorw ''credentialsprovider: creating default stores: %w'' [] e), w1)
         | (Inr (ts, ps), w1) \<Rightarrow>
             (Inr \<lparr>c_name = co_Name opts, c_variables = co_Variables opts, c_serverBaseURL = co_ServerBaseURL opts,
                   credsStore = ts, c_pendingStore = ps, c_doc = co_Doc opts, c_tokenTimeout = timeout,
                   entryPath = ''/credentials/'' @ co_Name opts @ ''/entry'',
                   submitPath = ''/credentials/'' @ co_Name opts @ ''/submit'',
                   c_sess_rd = fst slot, c_sess_wr = snd slot\<rparr>, snd slot Map.empty w1))"

text \<open>
  The pages of a constructed provider whose open paths are given to the middleware are served without
  a token.
\<close>

lemma entry_pages_open:
  assumes "c_New D slot opts w = (Inr p, w')" and "set (c_OpenPaths p) \<subseteq> set (OpenPaths mw)"
    and "Path r = entryPath p \<or> Path r = submitPath p"
  shows "New q mw next_h r w = next_h r w"
proof -
  have "Path r \<in> set (OpenPaths mw)" using assms(2,3) by (auto simp: c_OpenPaths_def)
  then have "isOpenPath (Path r) (OpenPaths mw)" unfolding isOpenPath_iff by (metis append_Nil2)
  then show ?thesis by (simp add: New_def)
qed

lemma c_New_paths:
  assumes "c_New D slot opts w = (Inr p, w')"
  shows "c_OpenPaths p = [''/credentials/'' @ c_name p @ ''/entry'', ''/credentials/'' @ c_name p @ ''/submit''] \<and>
    c_tokenTimeout p \<noteq> 0"
  using assms by (auto simp: c_New_def c_OpenPaths_def c_defaultTokenTimeout_def Second_def Let_def
      split: prod.splits sum.splits if_splits)

end
