(* ===== verification/Jwt_Setup.thy ===== *)
theory Jwt_Setup
  imports Jwt_Validator
begin

text \<open>
  The constructor of \<^verbatim>\<open>jwtvalidator/jwtvalidator.go\<close>, its options and \<^verbatim>\<open>Shutdown\<close>. HTTP clients, TLS
  configurations and the key-set cache of the JOSE library are values of arbitrary types; what can be
  done with them comes in a record, so that the validator's fields are built from the client the
  options leave and the cache made for it.
\<close>

record ('c, 't, 'k, 'w, 'ks) jwt_deps =
  DefaultClient :: 'c
  tls_client :: "'t \<Rightarrow> 'c"
  client_get :: "'c \<Rightarrow> string \<Rightarrow> 'w \<Rightarrow> (go_error + nat \<times> string) \<times> 'w"
  jwk_NewCache :: "'c \<Rightarrow> 'w \<Rightarrow> (go_error + 'k) \<times> 'w"
  k_IsRegistered :: "'k \<Rightarrow> string \<Rightarrow> 'w \<Rightarrow> bool \<times> 'w"
  k_Register :: "'k \<Rightarrow> string \<Rightarrow> 'w \<Rightarrow> go_error option \<times> 'w"
  k_Lookup :: "'k \<Rightarrow> string \<Rightarrow> 'w \<Rightarrow> (go_error + 'ks) \<times> 'w"
  k_Shutdown :: "'k \<Rightarrow> 'w \<Rightarrow> go_error option \<times> 'w"
  d_new_request :: "string \<Rightarrow> go_error option"
  d_decode_config :: "string \<Rightarrow> go_error + oidcConfig"
  d_jws_Parse :: "string \<Rightarrow> go_error + string option list"
  d_jwt_Parse :: "string \<Rightarrow> 'ks \<Rightarrow> 'w \<Rightarrow> (go_error + jwt_token) \<times> 'w"

text \<open>The part of the struct the options write to.\<close>

record 'c validator_config =
  httpClient :: 'c

type_synonym 'c jwt_option = "'c validator_config \<Rightarrow> 'c validator_config"

definition WithHTTPClient :: "'c \<Rightarrow> 'c jwt_option" where
  "WithHTTPClient client v = v\<lparr>httpClient := client\<rparr>"

definition WithTLSConfig :: "('c, 't, 'k, 'w, 'ks) jwt_deps \<Rightarrow> 't \<Rightarrow> 'c jwt_option" where
  "WithTLSConfig D cfg v = v\<lparr>httpClient := tls_client D cfg\<rparr>"

definition make_validator ::
  "('c, 't, 'k, 'w, 'ks) jwt_deps \<Rightarrow> ('w \<Rightarrow> string \<Rightarrow> oidcConfig option) \<times> ((string \<Rightarrow> oidcConfig option) \<Rightarrow> 'w \<Rightarrow> 'w)
     \<Rightarrow> 'c \<Rightarrow> 'k \<Rightarrow> ('w, 'ks) Validator" where
  "make_validator D slot client cache =
     \<lparr>new_request = d_new_request D, http_get = client_get D client, decode_config = d_decode_config D,
      cache_IsRegistered = k_IsRegistered D cache, cache_Register = k_Register D cache,
      cache_Lookup = k_Lookup D cache, jws_Parse = d_jws_Parse D, jwt_Parse = d_jwt_Parse D,
      cfg_rd = fst slot, cfg_wr = snd slot\<rparr>"

definition jwt_New ::
  "('c, 't, 'k, 'w, 'ks) jwt_deps \<Rightarrow> ('w \<Rightarrow> string \<Rightarrow> oidcConfig option) \<times> ((string \<Rightarrow> oidcConfig option) \<Rightarrow> 'w \<Rightarrow> 'w)
     \<Rightarrow> 'c jwt_option list \<Rightarrow> 'w \<Rightarrow> (go_error + ('w, 'ks) Validator \<times> 'k) \<times> 'w" where
  "jwt_New D slot opts w =
     (let w0 = snd slot Map.empty w; v = fold (\<lambda>opt v. opt v) opts \<lparr>httpClient = DefaultClient D\<rparr>
      in case jwk_NewCache D (httpClient v) w0 of
           (Inl e, w1) \<Rightarrow> (Inl (Errorw ''jwtvalidator: creating JWKS cache: %w'' [] e), w1)
         | (Inr cache, w1) \<Rightarrow> (Inr (make_validator D slot (httpClient v) cache, cache), w1))"

definition jwt_Shutdown :: "('c, 't, 'k, 'w, 'ks) jwt_deps \<Rightarrow> 'k \<Rightarrow> 'w \<Rightarrow> go_error option \<times> 'w" where
  "jwt_Shutdown D cache w = k_Shutdown D cache w"

text \<open>The last client option decides both the discovery client and the cache's.\<close>

lemma last_option_wins:
  assumes "jwt_New D slot (opts @ [WithHTTPClient c]) w = (Inr (v, cache), w')"
  shows "http_get v = client_get D c \<and> (\<exists>w0. jwk_NewCache D c w0 = (Inr cache, w'))"
  using assms by (auto simp: jwt_New_def make_validator_def WithHTTPClient_def Let_def split: prod.splits sum.splits)

text \<open>A new validator knows no issuer: its first discovery asks the network.\<close>

lemma new_validator_empty:
  assumes "jwt_New D (rd, wr) opts w = (Inr (v, cache), w')" and "\<And>m w. rd (wr m w) = m"
    and "\<And>c w. rd (snd (jwk_NewCache D c w)) = rd w"
  shows "cfg_rd v w' issuer = None"
proof -
  let ?c = "httpClient (fold (\<lambda>opt v. opt v) opts \<lparr>httpClient = DefaultClient D\<rparr>)"
  have "jwk_NewCache D ?c (wr Map.empty w) = (Inr cache, w')" "cfg_rd v = rd"
    using assms(1) by (auto simp: jwt_New_def make_validator_def Let_def split: prod.splits sum.splits)
  then show ?thesis using assms(2,3) by (metis snd_conv)
qed

end
