(* ===== verification/Spec2Isabelle.thy ===== *)
theory Spec2Isabelle
  imports Demo Middleware_Routes Store_Memory_Concurrency Backends Store_File_Flow Credentials_Setup Jwt_Setup
begin

text \<open>
  A verification of mcp-authkit-go, a library that puts authentication in front of an MCP server.

  \<^bold>\<open>The program.\<close> A request to the server first meets the session-auth middleware
  (\<^verbatim>\<open>middleware/middleware.go\<close>), which lets it through only with a bearer token the JWT validator
  (\<^verbatim>\<open>jwtvalidator/jwtvalidator.go\<close>) accepts; \<^verbatim>\<open>middleware/routes.go\<close> serves the discovery documents a
  client needs to get one. A tool handler can in turn be wrapped by the OAuth provider
  (\<^verbatim>\<open>oauthprovider/oauthprovider.go\<close>), which obtains a third-party token for the user, or by the
  credentials provider (\<^verbatim>\<open>credentialsprovider/credentialsprovider.go\<close>), which collects secrets on a
  page of its own. Both suspend the tool call, send the user a link, and are woken by an HTTP handler
  that runs elsewhere, possibly in another process. They meet in the stores (\<^verbatim>\<open>store/store.go\<close>): a token
  store keyed by subject and a pending store keyed by a random state, with a one-shot result to wait for.
  There are three backends, in the process (\<^verbatim>\<open>store/memory.go\<close>), in encrypted files
  (\<^verbatim>\<open>store/file.go\<close>) and in Redis (\<^verbatim>\<open>store/redis.go\<close>); \<^verbatim>\<open>store/encryption.go\<close> seals what the latter two
  write, and \<^verbatim>\<open>store/factory.go\<close> chooses.

  \<^bold>\<open>How code becomes definitions.\<close> A struct is a record with its fields, an interface value the record
  of its methods, a function with effects a function from a world to a result and a world. The world is
  the record \<open>host\<close> of \<open>Go_Runtime\<close> (clock readings, random bytes and faults as streams that one counter
  walks through) extended by the state a backend keeps. An error is a value of \<open>go_error\<close>, a pair of
  value and error the sum of the two; a function that may block for ever returns an option. An int64 is
  a 64-bit word and a float64 a rational rounded as IEEE 754 says, so timeouts overflow and round as in
  the code. Definitions carry the source's names, with a prefix where two packages share one.

  \<^item> \<open>Prelude\<close>, \<open>Go_Runtime\<close>, \<open>Http\<close>, \<open>Url\<close>, \<open>Url_Parse\<close>, \<open>Os\<close>, \<open>Crypto\<close> model the language and the
    standard library as far as the code uses them: words, floats, times, errors, strings, query
    escaping and \<^verbatim>\<open>url.Parse\<close>, files and paths, SHA-256, base64 and AES-256-GCM.
  \<^item> \<open>Store\<close> has the two interfaces and their contracts as the locales \<open>token_store_contract\<close> and
    \<open>pending_store_contract\<close>. \<open>Gate\<close> joins them in \<open>provider_stores\<close>, where the flows of both providers are
    proved once (\<open>Oauth_Contract\<close>, \<open>Credentials_Contract\<close>).
  \<^item> \<open>Store_Memory\<close> (\<^verbatim>\<open>memory.go\<close>) models every operation with its mutex-protected sections;
    \<open>Store_Memory_Concurrency\<close> interleaves them for any number of goroutines as the relation
    \<open>msys_step\<close>; \<open>Store_Memory_Contract\<close> interprets the contracts.
  \<^item> \<open>Store_Encryption\<close> (\<^verbatim>\<open>encryption.go\<close>), \<open>Store_File\<close> (\<^verbatim>\<open>file.go\<close>) and \<open>Store_Redis\<close> (\<^verbatim>\<open>redis.go\<close>) model the
    persistent backends, \<open>Store_File_Contract\<close> and \<open>Store_Redis_Contract\<close> interpret the contracts (locales
    \<open>file_backend\<close>, \<open>redis_server\<close>, \<open>redis_backend\<close>), \<open>Store_File_Properties\<close>, \<open>Store_File_Flow\<close>,
    \<open>Store_Redis_Properties\<close> and \<open>Backends\<close> hold their properties, \<open>Store_Factory\<close> (\<^verbatim>\<open>factory.go\<close>) the choice.
  \<^item> \<open>Jwt_Validator\<close> and \<open>Jwt_Setup\<close> (\<^verbatim>\<open>jwtvalidator.go\<close>), \<open>Middleware\<close> and \<open>Middleware_Routes\<close> are the
    first leg; \<open>Oauth_Provider\<close> and \<open>Oauth_Setup\<close>, \<open>Credentials_Provider\<close> and \<open>Credentials_Setup\<close> the second.
  \<^item> \<open>Demo\<close> has concrete providers and worlds, on which the witnesses evaluate the theorems' hypotheses.

  \<^bold>\<open>What is shown.\<close>
  \<^item> Gates: no request, tool call or credential passes without its check (\<open>Middleware\<close>, \<open>Jwt_Validator\<close>,
    \<open>Oauth_Provider\<close>, \<open>Credentials_Provider\<close>), and pages and headers cannot be injected into, but for the
    callback page, where the contrary is proved.
  \<^item> Flows, below and in \<open>Store_File_Flow\<close>: a blocked call completes with exactly what the user obtained,
    links and states work once, expiring tokens are refreshed. They rest on the contracts, so they hold
    for every backend that is an instance of \<open>provider_stores\<close>: all three are.
  \<^item> Stores: each token store refines a map, so that the three are interchangeable; a result reaches one
    waiter and wakes it; waiting ends; replacing a file is all or nothing under any pattern of faults;
    files stay in their directory, namespaces and kinds of keys apart; every result in Redis expires.
  \<^item> Encryption: what is sealed opens again and nothing else does, under a key that is the configured one.
  \<^item> Construction: defaults, the authorization URL and the token request say what they should.

  \<^bold>\<open>Bounds and fuel.\<close> \<open>create_temp_loop\<close> takes at most 10000 names, the bound of \<^verbatim>\<open>os.CreateTemp\<close>.
  \<open>strip_any\<close> and \<open>quote_body\<close> are given the length of their input, of which every step removes at least a
  byte. The polling loops are partial functions in the option monad; \<open>file_wait_returns\<close> and
  \<open>redis_wait_returns\<close> prove that they return.

  \<^bold>\<open>What is a parameter.\<close> \<^verbatim>\<open>encoding/json\<close> enters as a codec record: the stores need only that a value reads
  back as its image, a hypothesis where it is used. The JOSE library, go-redis, the MCP session and the
  HTTP transport are third-party or network and appear as functions on the world; what is assumed of a
  Redis server is the locale \<open>redis_server\<close>, interpreted on a reference server. Concurrency between
  processes is the arbitrary function that runs while a call sleeps or elicits. Collisions of SHA-256 are
  excluded by an injectivity hypothesis on the keys in use, which a single key meets.

  \<^bold>\<open>Not modelled.\<close> The wiring of handlers to a running \<^verbatim>\<open>http.Server\<close>, file modes and ownership, the
  background refresh of the key-set cache, and the text of rendered errors, which no code inspects.
\<close>

section \<open>The flows of the providers on the in-process backend\<close>











text \<open>
  C9: an entry link is good for one submission. Whatever the first submission led to, a second one
  with the same token is answered with the page for used links, stores nothing and signals nobody.
\<close>

theorem submit_single_use:
  fixes p :: "memory_world creds_provider"
  assumes "mem_ready w tk" and "tk \<noteq> []"
    and "credsStore p = memory_token_store w_tokens wr_tokens"
      "c_pendingStore p = memory_pending_store w_pending wr_pending env"
    and "range_order ord" and "values_Get (Query r) ''t'' = tk" and "values_Get (Query r') ''t'' = tk"
  shows "\<exists>resp w1 w2. HandleSubmit q p ord r w = Some (resp, w1) \<and>
    HandleSubmit q p ord' r' w1 = Some (used_link_page, w2) \<and>
    mem_lookup w2 = mem_lookup w1 \<and> store_signal (w_pending w2) = store_signal (w_pending w1)"
proof -
  have quiet: "mem_quiet (w_pending w)" and sig: "store_signal (w_pending w) tk = None"
    using assms(1) by (simp_all add: mem_ready_def)
  have tk: "tk \<in> UNIV"
    and sub: "\<forall>m t. mem_entries w tk = Some (Some m, t) \<longrightarrow> any_string (gomap_get (Some m) ''sub'') \<in> UNIV"
    by simp_all
  from mem.submit_replay [OF quiet assms(3,4,6,2) tk sub assms(5) TrueI TrueI sig TrueI assms(7)]
  show ?thesis by (auto simp: fun_eq_iff)
qed

theorem submit_single_use_witness:
  "\<exists>resp w1 w2. HandleSubmit (\<lambda>_. (''?'', 1)) demo_creds (\<lambda>vs. vs) (get_request [(''t'', ''s'')]) demo_world =
      Some (resp, w1) \<and>
    HandleSubmit (\<lambda>_. (''?'', 1)) demo_creds (\<lambda>vs. vs) (get_request [(''t'', ''s'')]) w1 = Some (used_link_page, w2) \<and>
    mem_lookup w2 = mem_lookup w1 \<and> store_signal (w_pending w2) = store_signal (w_pending w1)"
  by (rule submit_single_use [where tk = "''s''" and env = demo_env, OF demo_ready])
    (simp_all add: demo_creds_def get_request_def values_Get_def demo_order)

text \<open>
  C10: what a submission through a live link stores: all the form's values under the subject the
  link was issued for when every required field is filled in, and nothing otherwise; no other
  subject's entry changes.
\<close>

theorem submitted_form_stored:
  fixes p :: "memory_world creds_provider"
  assumes "mem_ready w tk" and "tk \<noteq> []"
    and "credsStore p = memory_token_store w_tokens wr_tokens"
      "c_pendingStore p = memory_pending_store w_pending wr_pending env"
    and "range_order ord" and "values_Get (Query r) ''t'' = tk"
    and "mem_entries w tk = Some (Some m, t)" and "clock w (tick w) \<le> t"
    and "PostForm r = Inr form"
  shows "\<exists>resp w'. HandleSubmit q p ord r w = Some (resp, w') \<and>
    (if form_complete form (c_variables p)
     then Status resp = 200 \<and>
       mem_lookup w' = (mem_lookup w)(any_string (gomap_get (Some m) ''sub'') \<mapsto> form_values form (c_variables p))
     else Status resp = 400 \<and> mem_lookup w' = mem_lookup w)"
proof (cases "form_complete form (c_variables p)")
  case True
  from assms(1) have quiet: "mem_quiet (w_pending w)" and sig: "store_signal (w_pending w) tk = None"
    by (simp_all add: mem_ready_def)
  have live: "\<not> t < clock w (tick w)" using assms(8) by simp
  show ?thesis
    by (rule mem.submit_accepted [OF quiet assms(3,4,6,2) UNIV_I assms(7) live refl UNIV_I assms(9,5) True
          TrueI TrueI sig TrueI, of q])
      (use True in \<open>auto simp: fun_eq_iff writeStatusPage_def html_page_def\<close>)
next
  case False
  from assms(1) have quiet: "mem_quiet (w_pending w)" by (simp add: mem_ready_def)
  have live: "\<not> t < clock w (tick w)" using assms(8) by simp
  have bad: "\<not> (\<exists>form. PostForm r = Inr form \<and> form_complete form (c_variables p))" using False assms(9) by simp
  show ?thesis
    by (rule mem.submit_refused [OF quiet assms(4,6,2) UNIV_I assms(7) live assms(5) bad, of q])
      (use False in \<open>auto simp: fun_eq_iff\<close>)
qed

theorem submitted_form_stored_witness:
  "\<exists>resp w'. HandleSubmit (\<lambda>_. (''?'', 1)) demo_creds (\<lambda>vs. vs)
      (get_request [(''t'', ''s'')]\<lparr>PostForm := Inr demo_form\<rparr>) demo_invited = Some (resp, w') \<and>
    Status resp = 200 \<and> mem_lookup w' ''u1'' = Some (form_values demo_form (c_variables demo_creds))"
proof -
  have r: "mem_ready demo_invited ''s''"
    using demo_ready [of "''s''"] by (simp add: mem_ready_def demo_invited_def demo_world_def)
  from submitted_form_stored [OF r _ _ _ demo_order, where p = demo_creds and env = demo_env and t = 5
      and m = "[''sub'' \<mapsto> AStr ''u1'']" and form = demo_form and q = "\<lambda>_. (''?'', 1)"
      and r = "get_request [(''t'', ''s'')]\<lparr>PostForm := Inr demo_form\<rparr>"] demo_complete
  show ?thesis
    by (auto simp: demo_creds_def demo_invited_def demo_world_def mem_entries_def get_request_def
        values_Get_def gomap_get_def any_string_def)
qed

end
